theory Spec2Isabelle
  imports Main "HOL-Library.Word"
begin

section \<open>Go strings and formatting\<close>

text \<open>
  A Go string is modelled by \<open>string\<close>, one \<open>char\<close> per rune: the model covers the
  code points U+0000 to U+00FF. The \<open>unicode\<close> predicates and case mappings below
  are the Go ones restricted to that range.
\<close>

definition toLowerRune :: "char \<Rightarrow> char" where
  "toLowerRune c =
     (let n = (of_char c :: nat)
      in if (65 \<le> n \<and> n \<le> 90) \<or> (192 \<le> n \<and> n \<le> 222 \<and> n \<noteq> 215)
         then char_of (n + 32) else c)"

definition ToLower :: "string \<Rightarrow> string" where
  "ToLower s = map toLowerRune s"

text \<open>\<open>strings.EqualFold\<close>: on the modelled code points simple case folding
  pairs exactly a letter with its lower-case form.\<close>

definition EqualFold :: "string \<Rightarrow> string \<Rightarrow> bool" where
  "EqualFold s t = (map toLowerRune s = map toLowerRune t)"

definition HasPrefix :: "string \<Rightarrow> string \<Rightarrow> bool" where
  "HasPrefix s p = (take (length p) s = p)"

definition TrimPrefix :: "string \<Rightarrow> string \<Rightarrow> string" where
  "TrimPrefix s p = (if HasPrefix s p then drop (length p) s else s)"

text \<open>\<open>strings.Replace(s, old, new, -1)\<close> for a one-rune \<open>old\<close>.\<close>

definition ReplaceRune :: "string \<Rightarrow> char \<Rightarrow> string \<Rightarrow> string" where
  "ReplaceRune s old new = concat (map (\<lambda>c. if c = old then new else [c]) s)"

fun Join :: "string list \<Rightarrow> string \<Rightarrow> string" where
  "Join [] sep = []"
| "Join [x] sep = x"
| "Join (x # y # ys) sep = x @ sep @ Join (y # ys) sep"

definition digitChar :: "nat \<Rightarrow> char" where
  "digitChar d = char_of (48 + d)"

fun showNat :: "nat \<Rightarrow> string" where
  "showNat n = (if n < 10 then [digitChar n] else showNat (n div 10) @ [digitChar (n mod 10)])"

declare showNat.simps [simp del]

text \<open>\<open>strconv.FormatInt(i, 10)\<close> and the \<open>%d\<close> verb.\<close>

definition FormatInt :: "int \<Rightarrow> string" where
  "FormatInt i = (if i < 0 then CHR ''-'' # showNat (nat (- i)) else showNat (nat i))"

definition hexDigit :: "nat \<Rightarrow> char" where
  "hexDigit d = (if d < 10 then char_of (48 + d) else char_of (87 + d))"

text \<open>\<open>strconv.Quote\<close>, which the \<open>%q\<close> verb applies to a string.\<close>

definition quoteRune :: "char \<Rightarrow> string" where
  "quoteRune c =
     (let n = (of_char c :: nat) in
      if c = CHR 0x22 then [CHR 0x5C, CHR 0x22]
      else if c = CHR 0x5C then [CHR 0x5C, CHR 0x5C]
      else if 32 \<le> n \<and> n < 127 then [c]
      else if 161 \<le> n \<and> n \<noteq> 173 then [c]
      else if n = 7 then [CHR 0x5C, CHR ''a'']
      else if n = 8 then [CHR 0x5C, CHR ''b'']
      else if n = 12 then [CHR 0x5C, CHR ''f'']
      else if n = 10 then [CHR 0x5C, CHR ''n'']
      else if n = 13 then [CHR 0x5C, CHR ''r'']
      else if n = 9 then [CHR 0x5C, CHR ''t'']
      else if n = 11 then [CHR 0x5C, CHR ''v'']
      else if n < 32 \<or> n = 127 then [CHR 0x5C, CHR ''x'', hexDigit (n div 16), hexDigit (n mod 16)]
      else [CHR 0x5C, CHR ''u'', CHR ''0'', CHR ''0'', hexDigit (n div 16), hexDigit (n mod 16)])"

definition Quote :: "string \<Rightarrow> string" where
  "Quote s = [CHR 0x22] @ concat (map quoteRune s) @ [CHR 0x22]"

section \<open>Errors and bound arguments\<close>

text \<open>
  Go \<open>error\<close> values that the driver creates or receives. \<open>AwsError code msg\<close> is
  an error of the store client that exposes \<open>Code()\<close>; \<open>ClientError\<close> is one that
  does not. \<open>Wrapped\<close> is \<open>errors.Wrap(cause, msg).With(key, value ...)\<close>.
  \<open>Panic\<close> stands for a run-time panic that nothing recovers.
\<close>

datatype error =
    ErrorString string
  | DuplicateKeyError string
  | AwsError string string
  | ClientError string
  | Wrapped error string "(string \<times> string) list"
  | Panic string

fun hasCode :: "error \<Rightarrow> string \<Rightarrow> bool" where
  "hasCode (AwsError c m) code = (code = c)"
| "hasCode e code = False"

text \<open>The marker capability \<open>interface { DuplicateKey() bool }\<close>: which errors
  have the method, and what it answers.\<close>

fun DuplicateKey :: "error \<Rightarrow> bool option" where
  "DuplicateKey (DuplicateKeyError m) = Some True"
| "DuplicateKey e = None"

definition conditionalCheckFailed :: string where
  "conditionalCheckFailed = ''ConditionalCheckFailed''"

definition attributeDoesNotExist :: string where
  "attributeDoesNotExist = ''AttributeDoesNotExist''"

text \<open>
  A \<open>driver.Value\<close>. The float64 and \<open>time.Time\<close> payloads are kept as type
  parameters; \<open>VNamedString\<close> is a value of a named type whose kind is string
  (its type name first); \<open>VOther\<close> is a value of any other type, by type name.
\<close>

datatype ('f, 't) dvalue =
    VNil
  | VString string
  | VInt64 "64 word"
  | VFloat64 'f
  | VBool bool
  | VBytes "8 word list"
  | VTime 't
  | VNamedString string string
  | VOther string

fun typeName :: "('f, 't) dvalue \<Rightarrow> string" where
  "typeName VNil = ''<nil>''"
| "typeName (VString s) = ''string''"
| "typeName (VInt64 i) = ''int64''"
| "typeName (VFloat64 f) = ''float64''"
| "typeName (VBool b) = ''bool''"
| "typeName (VBytes b) = ''[]uint8''"
| "typeName (VTime t) = ''time.Time''"
| "typeName (VNamedString tn s) = tn"
| "typeName (VOther tn) = tn"

section \<open>Statement model (package parse)\<close>

text \<open>
  The structs of \<open>parse.go\<close>. Field names are prefixed where two structs share a
  field name. A \<open>*string\<close> that the code tests against \<open>nil\<close> is a
  \<open>string option\<close>. \<open>conn.updateRow\<close> reads \<open>q.Upsert\<close>, so the update query
  carries that field.
\<close>

record Key =
  key_Ordinal :: int
  key_Value :: "string option"

record Column =
  ColumnName :: string
  col_Ordinal :: int
  col_Value :: "string option"

record SelectQuery =
  sel_ConsistentRead :: bool
  sel_ColumnNames :: "string list"
  sel_TableName :: string
  sel_WhereClause :: "string list"
  sel_Key :: "Key option"

record InsertQuery =
  ins_TableName :: string
  ins_Columns :: "Column list"
  ins_Key :: Key

record UpdateQuery =
  upd_TableName :: string
  upd_Columns :: "Column list"
  upd_Key :: Key
  upd_Upsert :: bool

record DeleteQuery =
  del_TableName :: string
  del_Key :: Key

record CreateTableQuery =
  ct_TableName :: string

record DropTableQuery =
  dt_TableName :: string

record Query =
  Select :: "SelectQuery option"
  Insert :: "InsertQuery option"
  Update :: "UpdateQuery option"
  Delete :: "DeleteQuery option"
  CreateTable :: "CreateTableQuery option"
  DropTable :: "DropTableQuery option"

text \<open>\<open>Column.GetValue\<close>: the literal, or the bound argument at the ordinal.\<close>

definition GetValue :: "Column \<Rightarrow> ('f, 't) dvalue list \<Rightarrow> error + ('f, 't) dvalue" where
  "GetValue col values =
     (case col_Value col of
        Some v \<Rightarrow> Inr (VString v)
      | None \<Rightarrow>
          if col_Ordinal col < 0 \<or> col_Ordinal col \<ge> int (length values)
          then Inl (ErrorString (''internal error: ordinal='' @ FormatInt (col_Ordinal col)
                       @ '', value len='' @ FormatInt (int (length values))))
          else Inr (values ! nat (col_Ordinal col)))"

text \<open>\<open>Key.String\<close>. For a \<open>nil\<close> argument \<open>reflect.ValueOf(v)\<close> is the zero
  Value, whose \<open>Type()\<close> panics.\<close>

definition KeyString :: "Key \<Rightarrow> ('f, 't) dvalue list \<Rightarrow> error + string" where
  "KeyString key values =
     (case key_Value key of
        Some v \<Rightarrow> Inr v
      | None \<Rightarrow>
          if key_Ordinal key < 0 \<or> key_Ordinal key \<ge> int (length values)
          then Inl (ErrorString ''not enough args supplied'')
          else (case values ! nat (key_Ordinal key) of
                  VString s \<Rightarrow> Inr s
                | VNamedString tn s \<Rightarrow> Inr s
                | VNil \<Rightarrow> Inl (Panic ''reflect: call of reflect.Value.Type on zero Value'')
                | v \<Rightarrow> Inl (ErrorString (''invalid type for item name: '' @ Quote (typeName v)))))"

section \<open>The store client and its requests\<close>

text \<open>
  The request structs of the AWS SDK, with the fields the driver fills. Pointer
  fields the driver reads back through \<open>derefString\<close>, and \<open>Expected\<close>, are
  options; attribute fields are always set through \<open>aws.String\<close> and \<open>aws.Bool\<close>.
\<close>

record UpdateCondition =
  uc_Exists :: "bool option"
  uc_Name :: "string option"
  uc_Value :: "string option"

record ReplaceableAttribute =
  ra_Name :: string
  ra_Replace :: bool
  ra_Value :: string

record DeletableAttribute =
  da_Name :: string

record PutAttributesInput =
  put_DomainName :: "string option"
  put_ItemName :: "string option"
  put_Attributes :: "ReplaceableAttribute list"
  put_Expected :: "UpdateCondition option"

record DeleteAttributesInput =
  dai_DomainName :: "string option"
  dai_ItemName :: "string option"
  dai_Attributes :: "DeletableAttribute list"
  dai_Expected :: "UpdateCondition option"

text \<open>The part of \<open>simpledbiface.SimpleDBAPI\<close> that the mutations call: each
  operation answers with its error, if any (the outputs are not read).\<close>

record SimpleDBAPI =
  PutAttributes :: "PutAttributesInput \<Rightarrow> error option"
  DeleteAttributes :: "DeleteAttributesInput \<Rightarrow> error option"

record conn =
  Schema :: string
  Synonyms :: "string \<rightharpoonup> string"

record resultT =
  rowsAffected :: int

definition newResult :: "int \<Rightarrow> resultT" where
  "newResult rowCount = \<lparr>rowsAffected = rowCount\<rparr>"

definition derefString :: "string option \<Rightarrow> string" where
  "derefString sp = (case sp of None \<Rightarrow> [] | Some s \<Rightarrow> s)"

definition getDomainName :: "conn \<Rightarrow> string \<Rightarrow> string" where
  "getDomainName c tableName =
     (case Synonyms c tableName of
        Some dn \<Rightarrow> dn
      | None \<Rightarrow> if Schema c \<noteq> [] then Schema c @ ''.'' @ tableName else tableName)"

definition typeColumnName :: "string \<Rightarrow> string" where
  "typeColumnName columnName = ''sql:'' @ columnName"

definition quoteString :: "string \<Rightarrow> string" where
  "quoteString s = [CHR 0x27] @ ReplaceRune s (CHR 0x27) [CHR 0x27, CHR 0x27] @ [CHR 0x27]"

text \<open>
  The standard-library codecs that \<open>conn.go\<close> and \<open>rows.go\<close> call on float64,
  \<open>time.Time\<close> and byte slices: \<open>strconv.FormatFloat(v, 'g', -1, 64)\<close>,
  \<open>strconv.ParseFloat(s, 64)\<close>, \<open>Time.Format(time.RFC3339)\<close>,
  \<open>time.Parse(time.RFC3339, s)\<close>, and \<open>base64.StdEncoding\<close>. The parsers
  return the value the code keeps when it drops the error.
\<close>

record ('f, 't) stdlib =
  FormatFloat :: "'f \<Rightarrow> string"
  ParseFloat :: "string \<Rightarrow> 'f"
  FloatZero :: 'f
  FormatTime :: "'t \<Rightarrow> string"
  ParseTime :: "string \<Rightarrow> 't"
  EncodeToString :: "8 word list \<Rightarrow> string"
  DecodeString :: "string \<Rightarrow> 8 word list"

definition FormatBool :: "bool \<Rightarrow> string" where
  "FormatBool b = (if b then ''true'' else ''false'')"

section \<open>Building the put and delete requests (conn.newPutDeleteInputs)\<close>

definition addPut :: "string \<Rightarrow> string \<Rightarrow> PutAttributesInput \<Rightarrow> PutAttributesInput" where
  "addPut name v putInput =
     putInput\<lparr>put_Attributes := put_Attributes putInput
        @ [\<lparr>ra_Name = name, ra_Replace = True, ra_Value = v\<rparr>]\<rparr>"

definition addType :: "string \<Rightarrow> string \<Rightarrow> PutAttributesInput \<Rightarrow> PutAttributesInput" where
  "addType name v putInput =
     putInput\<lparr>put_Attributes := put_Attributes putInput
        @ [\<lparr>ra_Name = typeColumnName name, ra_Replace = True, ra_Value = v\<rparr>]\<rparr>"

definition addDelete :: "string \<Rightarrow> DeleteAttributesInput \<Rightarrow> DeleteAttributesInput" where
  "addDelete name deleteInput =
     deleteInput\<lparr>dai_Attributes := dai_Attributes deleteInput @ [\<lparr>da_Name = name\<rparr>]\<rparr>"

text \<open>The loop over the columns: one step per column, in order.\<close>

fun putDeleteColumns ::
  "('f, 't) stdlib \<Rightarrow> Column list \<Rightarrow> ('f, 't) dvalue list \<Rightarrow> PutAttributesInput
     \<Rightarrow> DeleteAttributesInput \<Rightarrow> error + (PutAttributesInput \<times> DeleteAttributesInput)" where
  "putDeleteColumns L [] args putInput deleteInput = Inr (putInput, deleteInput)"
| "putDeleteColumns L (col # cols) args putInput deleteInput =
     (case GetValue col args of
        Inl err \<Rightarrow> Inl err
      | Inr v \<Rightarrow>
         (case v of
            VNil \<Rightarrow>
              putDeleteColumns L cols args
                (addType (ColumnName col) ''null'' putInput) (addDelete (ColumnName col) deleteInput)
          | VString val \<Rightarrow>
              if val = []
              then putDeleteColumns L cols args
                     (addType (ColumnName col) ''string'' putInput)
                     (addDelete (ColumnName col) deleteInput)
              else putDeleteColumns L cols args
                     (addPut (ColumnName col) val (addType (ColumnName col) ''string'' putInput))
                     deleteInput
          | VInt64 val \<Rightarrow>
              putDeleteColumns L cols args
                (addPut (ColumnName col) (FormatInt (sint val))
                   (addType (ColumnName col) ''int64'' putInput)) deleteInput
          | VFloat64 val \<Rightarrow>
              putDeleteColumns L cols args
                (addPut (ColumnName col) (FormatFloat L val)
                   (addType (ColumnName col) ''float64'' putInput)) deleteInput
          | VTime val \<Rightarrow>
              putDeleteColumns L cols args
                (addPut (ColumnName col) (FormatTime L val)
                   (addType (ColumnName col) ''time'' putInput)) deleteInput
          | VBool val \<Rightarrow>
              putDeleteColumns L cols args
                (addPut (ColumnName col) (FormatBool val)
                   (addType (ColumnName col) ''bool'' putInput)) deleteInput
          | VBytes val \<Rightarrow>
              putDeleteColumns L cols args
                (addPut (ColumnName col) (EncodeToString L val)
                   (addType (ColumnName col) ''binary'' putInput)) deleteInput
          | VNamedString tn s \<Rightarrow> Inl (ErrorString (''unexpected arg type: '' @ tn))
          | VOther tn \<Rightarrow> Inl (ErrorString (''unexpected arg type: '' @ tn))))"

definition newPutDeleteInputs ::
  "('f, 't) stdlib \<Rightarrow> conn \<Rightarrow> string \<Rightarrow> Column list \<Rightarrow> Key \<Rightarrow> ('f, 't) dvalue list
     \<Rightarrow> error + (PutAttributesInput \<times> DeleteAttributesInput)" where
  "newPutDeleteInputs L c tableName columns key args =
     (case KeyString key args of
        Inl err \<Rightarrow> Inl err
      | Inr itemName \<Rightarrow>
          putDeleteColumns L columns args
            (addPut ''sql:id'' ''string''
               \<lparr>put_DomainName = Some (getDomainName c tableName), put_ItemName = Some itemName,
                put_Attributes = [], put_Expected = None\<rparr>)
            \<lparr>dai_DomainName = Some (getDomainName c tableName), dai_ItemName = Some itemName,
             dai_Attributes = [], dai_Expected = None\<rparr>)"

section \<open>Executing delete, insert and update (conn.go)\<close>

definition deleteRow ::
  "SimpleDBAPI \<Rightarrow> conn \<Rightarrow> DeleteQuery \<Rightarrow> ('f, 't) dvalue list \<Rightarrow> error + resultT" where
  "deleteRow sdb c q args =
     (case KeyString (del_Key q) args of
        Inl err \<Rightarrow> Inl err
      | Inr itemName \<Rightarrow>
          (case DeleteAttributes sdb
                  \<lparr>dai_DomainName = Some (getDomainName c (del_TableName q)),
                   dai_ItemName = Some itemName, dai_Attributes = [], dai_Expected = None\<rparr> of
             Some err \<Rightarrow> Inl (Wrapped err ''cannot delete attributes'' [(''itemName'', itemName)])
           | None \<Rightarrow> Inr (newResult 0)))"

text \<open>The put request of an insert, as \<open>insertRow\<close> hands it to the store: the
  inputs of \<open>newPutDeleteInputs\<close> with the condition that \<open>sql:id\<close> does not exist.\<close>

definition insertPutInput ::
  "('f, 't) stdlib \<Rightarrow> conn \<Rightarrow> InsertQuery \<Rightarrow> ('f, 't) dvalue list \<Rightarrow> error + PutAttributesInput" where
  "insertPutInput L c q args =
     (case newPutDeleteInputs L c (ins_TableName q) (ins_Columns q) (ins_Key q) args of
        Inl err \<Rightarrow> Inl err
      | Inr (putInput, deleteInput) \<Rightarrow>
          Inr (putInput\<lparr>put_Expected :=
                 Some \<lparr>uc_Exists = Some False, uc_Name = Some ''sql:id'', uc_Value = None\<rparr>\<rparr>))"

definition insertRow ::
  "('f, 't) stdlib \<Rightarrow> SimpleDBAPI \<Rightarrow> conn \<Rightarrow> InsertQuery \<Rightarrow> ('f, 't) dvalue list
     \<Rightarrow> error + resultT" where
  "insertRow L sdb c q args =
     (case insertPutInput L c q args of
        Inl err \<Rightarrow> Inl err
      | Inr putInput \<Rightarrow>
          (case PutAttributes sdb putInput of
             Some err \<Rightarrow>
               if hasCode err conditionalCheckFailed
               then Inl (DuplicateKeyError
                           (''cannot insert duplicate key table=''
                              @ Quote (derefString (put_DomainName putInput))
                              @ '' itemName='' @ Quote (derefString (put_ItemName putInput))))
               else Inl (Wrapped err ''cannot put attributes''
                           [(''itemName'', derefString (put_ItemName putInput))])
           | None \<Rightarrow> Inr (newResult 1)))"

text \<open>The two requests of an update, as \<open>updateRow\<close> hands them to the store.\<close>

definition updateInputs ::
  "('f, 't) stdlib \<Rightarrow> conn \<Rightarrow> UpdateQuery \<Rightarrow> ('f, 't) dvalue list
     \<Rightarrow> error + (PutAttributesInput \<times> DeleteAttributesInput)" where
  "updateInputs L c q args =
     (case newPutDeleteInputs L c (upd_TableName q) (upd_Columns q) (upd_Key q) args of
        Inl err \<Rightarrow> Inl err
      | Inr (putInput, deleteInput) \<Rightarrow>
          if \<not> upd_Upsert q
          then (let expected = Some \<lparr>uc_Exists = Some True, uc_Name = Some ''sql:id'',
                                      uc_Value = Some ''string''\<rparr>
                in Inr (putInput\<lparr>put_Expected := expected\<rparr>,
                        deleteInput\<lparr>dai_Expected := expected\<rparr>))
          else Inr (putInput, deleteInput))"

text \<open>
  The two goroutines of \<open>updateRow\<close>. Each returns its error (\<open>None\<close> for
  \<open>nil\<close>) and the value it leaves in its flag (\<open>putItemExists\<close>,
  \<open>delItemExists\<close>).
\<close>

definition putBranch :: "SimpleDBAPI \<Rightarrow> PutAttributesInput \<Rightarrow> error option \<times> bool" where
  "putBranch sdb putInput =
     (case PutAttributes sdb putInput of
        Some err \<Rightarrow>
          if hasCode err attributeDoesNotExist then (None, False)
          else (Some (Wrapped err ''cannot put attributes''
                        [(''itemName'', derefString (put_ItemName putInput))]), False)
      | None \<Rightarrow> (None, True))"

definition deleteBranch :: "SimpleDBAPI \<Rightarrow> DeleteAttributesInput \<Rightarrow> error option \<times> bool" where
  "deleteBranch sdb deleteInput =
     (case DeleteAttributes sdb deleteInput of
        Some err \<Rightarrow>
          if hasCode err attributeDoesNotExist then (None, False)
          else (Some (Wrapped err ''cannot delete attributes''
                        [(''itemName'', derefString (dai_ItemName deleteInput))]), False)
      | None \<Rightarrow> (None, True))"

text \<open>\<open>errgroup.Group.Wait\<close>: the first non-nil error that a goroutine returned.
  Which goroutine returns first is the scheduler's choice, \<open>putFirst\<close>.\<close>

definition groupWait :: "bool \<Rightarrow> error option \<Rightarrow> error option \<Rightarrow> error option" where
  "groupWait putFirst putErr delErr =
     (case (putErr, delErr) of
        (Some e1, Some e2) \<Rightarrow> Some (if putFirst then e1 else e2)
      | (Some e1, None) \<Rightarrow> Some e1
      | (None, de) \<Rightarrow> de)"

definition updateRow ::
  "('f, 't) stdlib \<Rightarrow> SimpleDBAPI \<Rightarrow> bool \<Rightarrow> conn \<Rightarrow> UpdateQuery \<Rightarrow> ('f, 't) dvalue list
     \<Rightarrow> error + resultT" where
  "updateRow L sdb putFirst c q args =
     (case updateInputs L c q args of
        Inl err \<Rightarrow> Inl err
      | Inr (putInput, deleteInput) \<Rightarrow>
          (let (putErr, putItemExists) =
                 (if length (put_Attributes putInput) > 0 then putBranch sdb putInput
                  else (None, False));
               (delErr, delItemExists) =
                 (if length (dai_Attributes deleteInput) > 0 then deleteBranch sdb deleteInput
                  else (None, False))
           in case groupWait putFirst putErr delErr of
                Some err \<Rightarrow> Inl err
              | None \<Rightarrow> Inr (newResult (if putItemExists \<or> delItemExists then 1 else 0))))"

section \<open>The select expression of a general select (conn.makeSelectExpression)\<close>

definition quoteIdentifier :: "string \<Rightarrow> string" where
  "quoteIdentifier columnName =
     [CHR 0x60] @ ReplaceRune columnName (CHR 0x60) [CHR 0x60, CHR 0x60] @ [CHR 0x60]"

definition getArg :: "('f, 't) dvalue list \<Rightarrow> nat \<Rightarrow> error + string" where
  "getArg args index =
     (if index \<ge> length args then Inl (ErrorString ''not enough args for select query'')
      else (case args ! index of
              VString s \<Rightarrow> Inr s
            | VNamedString tn s \<Rightarrow> Inr s
            | v \<Rightarrow> Inl (ErrorString ''all args to a select query must be strings'')))"

text \<open>The loop over \<open>q.WhereClause\<close>: \<open>sb\<close> is the string builder, \<open>argIndex\<close>
  the number of placeholders replaced so far.\<close>

fun replayLexemes ::
  "('f, 't) dvalue list \<Rightarrow> string list \<Rightarrow> nat \<Rightarrow> string \<Rightarrow> error + string" where
  "replayLexemes args [] argIndex sb = Inr sb"
| "replayLexemes args (lexeme # rest) argIndex sb =
     (if lexeme = ''id'' \<or> lexeme = [CHR 0x60, CHR ''i'', CHR ''d'', CHR 0x60]
      then replayLexemes args rest argIndex (sb @ ''itemName()'')
      else if lexeme = ''?''
      then (case getArg args argIndex of
              Inl err \<Rightarrow> Inl err
            | Inr arg \<Rightarrow> replayLexemes args rest (argIndex + 1) (sb @ quoteString arg))
      else replayLexemes args rest argIndex (sb @ lexeme))"

text \<open>
  \<open>parse.IsID\<close>. \<open>lex.Unquote\<close> is not among the sources: the functions that
  call it take the unquoting function as the parameter \<open>unquote\<close>.
\<close>

definition IsID :: "(string \<Rightarrow> string) \<Rightarrow> string \<Rightarrow> bool" where
  "IsID unquote name = EqualFold (unquote name) ''id''"

definition selectColumnNames :: "(string \<Rightarrow> string) \<Rightarrow> string list \<Rightarrow> string list" where
  "selectColumnNames unquote names =
     quoteIdentifier ''sql:id''
       # concat (map (\<lambda>columnName.
                        if \<not> IsID unquote columnName
                        then [quoteIdentifier columnName, quoteIdentifier (''sql:'' @ columnName)]
                        else []) names)"

definition makeSelectExpression ::
  "(string \<Rightarrow> string) \<Rightarrow> conn \<Rightarrow> SelectQuery \<Rightarrow> ('f, 't) dvalue list \<Rightarrow> error + string" where
  "makeSelectExpression unquote c q args =
     replayLexemes args (sel_WhereClause q) 0
       (''select '' @ Join (selectColumnNames unquote (sel_ColumnNames q)) '', ''
          @ '' from '' @ quoteIdentifier (getDomainName c (sel_TableName q)) @ '' '')"

text \<open>
  Modelled from the spec: \<open>lex.Unquote\<close>, which is not among the sources. The
  scanner's identifiers are bare or delimited by matching \<open>[ ]\<close>, backquotes,
  double quotes or \<open>{ }\<close>, and its string literals by single quotes, with the
  closing delimiter doubled as the escape; unquoting removes the delimiters and
  the doubling, and leaves any other text as it is. It is used for concrete
  inputs only.
\<close>

fun undouble :: "char \<Rightarrow> string \<Rightarrow> string" where
  "undouble q (a # b # r) = (if a = q \<and> b = q then q # undouble q r else a # undouble q (b # r))"
| "undouble q r = r"

definition closingDelimiter :: "char \<Rightarrow> char option" where
  "closingDelimiter ch =
     (if ch = CHR ''['' then Some (CHR '']'')
      else if ch = CHR ''{'' then Some (CHR ''}'')
      else if ch = CHR 0x60 \<or> ch = CHR 0x22 \<or> ch = CHR 0x27 then Some ch
      else None)"

definition Unquote :: "string \<Rightarrow> string" where
  "Unquote s =
     (case s of
        [] \<Rightarrow> s
      | ch # r \<Rightarrow>
          (case closingDelimiter ch of
             None \<Rightarrow> s
           | Some e \<Rightarrow> if r \<noteq> [] \<and> last r = e then undouble e (butlast r) else s))"

section \<open>What a replayed tail is, lexeme by lexeme\<close>

text \<open>The number of placeholders among the first \<open>i\<close> lexemes: the ordinal of a
  placeholder that stands at position \<open>i\<close>.\<close>

definition placeholderOrdinal :: "string list \<Rightarrow> nat \<Rightarrow> nat" where
  "placeholderOrdinal lexemes i = length (filter (\<lambda>l. l = ''?'') (take i lexemes))"

text \<open>The string of an argument whose type or kind is string.\<close>

fun stringOf :: "('f, 't) dvalue \<Rightarrow> string option" where
  "stringOf (VString s) = Some s"
| "stringOf (VNamedString tn s) = Some s"
| "stringOf v = None"

text \<open>The text that stands for lexeme \<open>i\<close> in the select expression, when
  placeholders are numbered from \<open>a\<close>.\<close>

definition replayed :: "('f, 't) dvalue list \<Rightarrow> nat \<Rightarrow> string list \<Rightarrow> nat \<Rightarrow> string" where
  "replayed args a lexemes i =
     (let lexeme = lexemes ! i in
      if lexeme = ''id'' \<or> lexeme = [CHR 0x60, CHR ''i'', CHR ''d'', CHR 0x60] then ''itemName()''
      else if lexeme = ''?''
      then (case stringOf (args ! (a + placeholderOrdinal lexemes i)) of
              Some s \<Rightarrow> quoteString s | None \<Rightarrow> [])
      else lexeme)"

definition selectHead :: "(string \<Rightarrow> string) \<Rightarrow> conn \<Rightarrow> SelectQuery \<Rightarrow> string" where
  "selectHead unquote c q =
     ''select '' @ Join (selectColumnNames unquote (sel_ColumnNames q)) '', ''
        @ '' from '' @ quoteIdentifier (getDomainName c (sel_TableName q)) @ '' ''"

text \<open>\<open>insert into tbl(id, a) values(?, ?)\<close>, as the parser returns it.\<close>

definition insertIdA :: InsertQuery where
  "insertIdA =
     \<lparr>ins_TableName = ''tbl'',
      ins_Columns = [\<lparr>ColumnName = ''a'', col_Ordinal = 1, col_Value = None\<rparr>],
      ins_Key = \<lparr>key_Ordinal = 0, key_Value = None\<rparr>\<rparr>"

section \<open>The scanner (package lex)\<close>

datatype Token =
    TokenIllegal
  | TokenEOF
  | TokenWhiteSpace
  | TokenComment
  | TokenIdent
  | TokenKeyword
  | TokenLiteral
  | TokenOperator
  | TokenPlaceholder

definition eof :: char where
  "eof = CHR 0x00"

definition operators :: string where
  "operators = ''%&()*+,-./:;<=>?^|{}''"

definition lexKeywords :: "string list" where
  "lexKeywords =
     [''or'', ''and'', ''not'', ''from'', ''where'', ''select'', ''like'', ''null'', ''is'',
      ''order'', ''by'', ''asc'', ''desc'', ''in'', ''between'', ''intersection'', ''limit'',
      ''every'', ''update'', ''upsert'', ''insert'', ''delete'', ''create'', ''drop'', ''table'',
      ''values'', ''set'']"

text \<open>\<open>unicode.IsSpace\<close>, \<open>unicode.IsDigit\<close> and \<open>unicode.IsLetter\<close> on the
  modelled code points.\<close>

definition isWhitespace :: "char \<Rightarrow> bool" where
  "isWhitespace ch =
     (let n = (of_char ch :: nat) in (9 \<le> n \<and> n \<le> 13) \<or> n = 32 \<or> n = 133 \<or> n = 160)"

definition isDigit :: "char \<Rightarrow> bool" where
  "isDigit ch = (let n = (of_char ch :: nat) in 48 \<le> n \<and> n \<le> 57)"

definition isLetter :: "char \<Rightarrow> bool" where
  "isLetter ch =
     (let n = (of_char ch :: nat) in
        (65 \<le> n \<and> n \<le> 90) \<or> (97 \<le> n \<and> n \<le> 122) \<or> n = 170 \<or> n = 181 \<or> n = 186 \<or>
        (192 \<le> n \<and> n \<le> 214) \<or> (216 \<le> n \<and> n \<le> 246) \<or> 248 \<le> n)"

definition isStartIdent :: "char \<Rightarrow> bool" where
  "isStartIdent ch = (ch = CHR ''_'' \<or> isLetter ch)"

definition isIdent :: "char \<Rightarrow> bool" where
  "isIdent ch = (isStartIdent ch \<or> isDigit ch)"

text \<open>
  The scanner's state. \<open>reader\<close> is the input that \<open>s.r\<close> has not yet
  delivered: \<open>s.read()\<close> takes its first rune (\<open>eof\<close>, the rune 0, at the end of
  the input), and \<open>s.unread(ch)\<close> puts the rune just read back unless it is the
  rune 0.
\<close>

record Scanner =
  IgnoreWhiteSpace :: bool
  reader :: string
  scanErr :: "string option"
  token :: Token
  lexeme :: string

definition New :: "string \<Rightarrow> Scanner" where
  "New src = \<lparr>IgnoreWhiteSpace = False, reader = src, scanErr = None,
              token = TokenIllegal, lexeme = []\<rparr>"

definition isKeyword :: "string \<Rightarrow> bool" where
  "isKeyword lit = (ToLower lit \<in> set lexKeywords)"

definition unread :: "char \<Rightarrow> string \<Rightarrow> string" where
  "unread ch rest = (if ch \<noteq> eof then ch # rest else rest)"

definition setToken :: "Token \<Rightarrow> string \<Rightarrow> string \<Rightarrow> Scanner \<Rightarrow> Scanner" where
  "setToken tok txt rest s =
     s\<lparr>reader := rest, token := tok, lexeme := txt,
       scanErr := (if tok = TokenIllegal then Some (''unrecognised input near '' @ Quote txt)
                   else scanErr s)\<rparr>"

text \<open>The loops of the scanning functions take the buffer and the unread input and
  return the buffer and the input left.\<close>

fun scanWhitespaceLoop :: "string \<Rightarrow> string \<Rightarrow> string \<times> string" where
  "scanWhitespaceLoop buf [] = (buf, [])"
| "scanWhitespaceLoop buf (ch # rest) =
     (if ch = eof then (buf, rest)
      else if \<not> isWhitespace ch then (buf, unread ch rest)
      else scanWhitespaceLoop (buf @ [ch]) rest)"

fun scanCommentLoop :: "string \<Rightarrow> string \<Rightarrow> string \<times> string" where
  "scanCommentLoop buf [] = (buf, [])"
| "scanCommentLoop buf (ch # rest) =
     (if ch = eof then (buf, rest)
      else if ch = CHR 0x0A then (buf @ [ch], rest)
      else scanCommentLoop (buf @ [ch]) rest)"

text \<open>\<open>scanDelimitedIdentifier\<close> after the opening delimiter: the token, its text
  and the input left.\<close>

fun scanDelimitedIdentifier :: "char \<Rightarrow> string \<Rightarrow> string \<Rightarrow> Token \<times> string \<times> string" where
  "scanDelimitedIdentifier endCh buf [] = (TokenIllegal, buf, [])"
| "scanDelimitedIdentifier endCh buf (ch # rest) =
     (if ch = eof then (TokenIllegal, buf, rest)
      else if ch = endCh
      then (case rest of
              [] \<Rightarrow> (TokenIdent, buf @ [ch], [])
            | ch2 # rest2 \<Rightarrow>
                if ch2 \<noteq> endCh then (TokenIdent, buf @ [ch], unread ch2 rest2)
                else scanDelimitedIdentifier endCh (buf @ [ch, ch2]) rest2)
      else scanDelimitedIdentifier endCh (buf @ [ch]) rest)"

fun scanIdentifierLoop :: "string \<Rightarrow> string \<Rightarrow> string \<times> string" where
  "scanIdentifierLoop buf [] = (buf, [])"
| "scanIdentifierLoop buf (ch # rest) =
     (if ch = eof then (buf, rest)
      else if \<not> isIdent ch then (buf, unread ch rest)
      else scanIdentifierLoop (buf @ [ch]) rest)"

definition scanIdentifier :: "char \<Rightarrow> string \<Rightarrow> Token \<times> string \<times> string" where
  "scanIdentifier startCh rest =
     (let (lx, rest') = scanIdentifierLoop [startCh] rest
      in if isKeyword lx then (TokenKeyword, ToLower lx, rest') else (TokenIdent, lx, rest'))"

text \<open>\<open>scanNumber\<close>: \<open>seenPeriod\<close> says that the comparison function has changed
  to \<open>isDigit\<close>.\<close>

fun scanNumberLoop :: "bool \<Rightarrow> string \<Rightarrow> string \<Rightarrow> string \<times> string" where
  "scanNumberLoop seenPeriod buf [] = (buf, [])"
| "scanNumberLoop seenPeriod buf (ch # rest) =
     (if ch = eof then (buf, rest)
      else if isDigit ch \<or> (\<not> seenPeriod \<and> ch = CHR ''.'')
      then scanNumberLoop (seenPeriod \<or> ch = CHR ''.'') (buf @ [ch]) rest
      else (buf, unread ch rest))"

definition scanNumber :: "char \<Rightarrow> string \<Rightarrow> Token \<times> string \<times> string" where
  "scanNumber startCh rest =
     (let (lx, rest') = scanNumberLoop (startCh = CHR ''.'') [startCh] rest
      in (TokenLiteral, lx, rest'))"

text \<open>\<open>scanQuote\<close> after the start runes (\<open>buf\<close>), whose last one is \<open>endCh\<close>.\<close>

fun scanQuote :: "char \<Rightarrow> string \<Rightarrow> string \<Rightarrow> Token \<times> string \<times> string" where
  "scanQuote endCh buf [] = (TokenIllegal, buf, [])"
| "scanQuote endCh buf (ch # rest) =
     (if ch = eof then (TokenIllegal, buf, rest)
      else if ch = endCh
      then (case rest of
              [] \<Rightarrow> (TokenLiteral, buf @ [ch], [])
            | ch2 # rest2 \<Rightarrow>
                if ch2 = endCh then scanQuote endCh (buf @ [ch, ch2]) rest2
                else (TokenLiteral, buf @ [ch], unread ch2 rest2))
      else scanQuote endCh (buf @ [ch]) rest)"

text \<open>One token from the input \<open>ch # rest\<close>, where \<open>ch\<close> is neither the rune 0 nor,
  in the whitespace-ignoring mode, a whitespace rune.\<close>

definition scanToken :: "char \<Rightarrow> string \<Rightarrow> Token \<times> string \<times> string" where
  "scanToken ch rest =
     (if isWhitespace ch
      then (let (lx, rest') = scanWhitespaceLoop [ch] rest in (TokenWhiteSpace, lx, rest'))
      else if ch = CHR ''-''
      then (case rest of
              [] \<Rightarrow> (TokenOperator, [ch], [])
            | ch2 # rest2 \<Rightarrow>
                if ch2 = CHR ''-''
                then (let (lx, rest') = scanCommentLoop ''--'' rest2 in (TokenComment, lx, rest'))
                else (TokenOperator, [ch], unread ch2 rest2))
      else if ch = CHR ''['' then scanDelimitedIdentifier (CHR '']'') [ch] rest
      else if ch = CHR 0x60 then scanDelimitedIdentifier (CHR 0x60) [ch] rest
      else if ch = CHR 0x22 then scanDelimitedIdentifier (CHR 0x22) [ch] rest
      else if ch = CHR 0x27 then scanQuote ch [ch] rest
      else if ch = CHR ''{'' then scanDelimitedIdentifier (CHR ''}'') [ch] rest
      else if ch \<in> set ''NnXx''
      then (case rest of
              [] \<Rightarrow> scanIdentifier ch []
            | ch2 # rest2 \<Rightarrow>
                if ch2 = CHR 0x27 then scanQuote ch2 [ch, ch2] rest2
                else scanIdentifier ch (unread ch2 rest2))
      else if isStartIdent ch then scanIdentifier ch rest
      else if isDigit ch then scanNumber ch rest
      else if ch = CHR ''.''
      then (case rest of
              [] \<Rightarrow> (TokenOperator, [ch], [])
            | ch2 # rest2 \<Rightarrow>
                if isDigit ch2 then scanNumber ch (unread ch2 rest2)
                else (TokenOperator, [ch], unread ch2 rest2))
      else if ch = CHR ''<''
      then (case rest of
              [] \<Rightarrow> (TokenOperator, [ch], [])
            | ch2 # rest2 \<Rightarrow>
                if ch2 = CHR ''>'' then (TokenOperator, ''<>'', rest2)
                else (TokenOperator, [ch], unread ch2 rest2))
      else if ch = CHR ''?'' then (TokenPlaceholder, [ch], rest)
      else if ch \<in> set operators then (TokenOperator, [ch], rest)
      else (TokenIllegal, [ch], rest))"

definition Scan :: "Scanner \<Rightarrow> Scanner" where
  "Scan s =
     (case (if IgnoreWhiteSpace s then dropWhile isWhitespace (reader s) else reader s) of
        [] \<Rightarrow> setToken TokenEOF [] [] s
      | ch # rest \<Rightarrow>
          if ch = eof then setToken TokenEOF [] rest s
          else (let (tok, lx, rest') = scanToken ch rest in setToken tok lx rest' s))"

text \<open>A scan never lengthens the unread input, and shortens it unless it reports
  the end of the input. The loops of the parser terminate for this reason.\<close>

lemma scanWhitespaceLoop_length:
  "scanWhitespaceLoop buf inp = (lx, rest') \<Longrightarrow> length rest' \<le> length inp"
  by (induction buf inp rule: scanWhitespaceLoop.induct) (auto simp: unread_def split: if_splits)

lemma scanCommentLoop_length:
  "scanCommentLoop buf inp = (lx, rest') \<Longrightarrow> length rest' \<le> length inp"
  by (induction buf inp rule: scanCommentLoop.induct) (auto simp: unread_def split: if_splits)

lemma scanIdentifierLoop_length:
  "scanIdentifierLoop buf inp = (lx, rest') \<Longrightarrow> length rest' \<le> length inp"
  by (induction buf inp rule: scanIdentifierLoop.induct) (auto simp: unread_def split: if_splits)

lemma scanNumberLoop_length:
  "scanNumberLoop b buf inp = (lx, rest') \<Longrightarrow> length rest' \<le> length inp"
  by (induction b buf inp rule: scanNumberLoop.induct) (auto simp: unread_def split: if_splits)

lemma scanDelimitedIdentifier_length:
  "scanDelimitedIdentifier e buf inp = (tok, lx, rest') \<Longrightarrow> length rest' \<le> length inp"
  by (induction e buf inp rule: scanDelimitedIdentifier.induct)
    (auto simp: unread_def split: list.splits if_splits)

lemma scanQuote_length:
  "scanQuote e buf inp = (tok, lx, rest') \<Longrightarrow> length rest' \<le> length inp"
  by (induction e buf inp rule: scanQuote.induct)
    (auto simp: unread_def split: list.splits if_splits)

lemma scanIdentifier_length:
  "scanIdentifier ch inp = (tok, lx, rest') \<Longrightarrow> length rest' \<le> length inp"
  by (auto simp: scanIdentifier_def split: prod.splits if_splits dest: scanIdentifierLoop_length)

lemma scanNumber_length:
  "scanNumber ch inp = (tok, lx, rest') \<Longrightarrow> length rest' \<le> length inp"
  by (auto simp: scanNumber_def split: prod.splits dest: scanNumberLoop_length)

lemma scanToken_length_snd: "length (snd (snd (scanToken ch rest))) \<le> length rest"
proof -
  have w: "length (snd (scanWhitespaceLoop b i)) \<le> length i" for b i
    using scanWhitespaceLoop_length [of b i] by (cases "scanWhitespaceLoop b i") simp
  have c: "length (snd (scanCommentLoop b i)) \<le> length i" for b i
    using scanCommentLoop_length [of b i] by (cases "scanCommentLoop b i") simp
  have d: "length (snd (snd (scanDelimitedIdentifier e b i))) \<le> length i" for e b i
    using scanDelimitedIdentifier_length [of e b i] by (cases "scanDelimitedIdentifier e b i") simp
  have q: "length (snd (snd (scanQuote e b i))) \<le> length i" for e b i
    using scanQuote_length [of e b i] by (cases "scanQuote e b i") simp
  have i: "length (snd (snd (scanIdentifier e i))) \<le> length i" for e i
    using scanIdentifier_length [of e i] by (cases "scanIdentifier e i") simp
  have n: "length (snd (snd (scanNumber e i))) \<le> length i" for e i
    using scanNumber_length [of e i] by (cases "scanNumber e i") simp
  have le_Suc: "x \<le> y \<Longrightarrow> x \<le> Suc y" for x y :: nat by simp
  have le_SucSuc: "x \<le> y \<Longrightarrow> x \<le> Suc (Suc y)" for x y :: nat by simp
  note facts = w c d q i n w [THEN le_Suc] c [THEN le_Suc] d [THEN le_Suc] q [THEN le_Suc]
    i [THEN le_Suc] n [THEN le_Suc]
  have i2: "length (snd (snd (scanIdentifier e (unread a r)))) \<le> Suc (length r)" for e a r
    using i [of e "unread a r"] by (simp add: unread_def split: if_splits)
  have n2: "length (snd (snd (scanNumber e (unread a r)))) \<le> Suc (length r)" for e a r
    using n [of e "unread a r"] by (simp add: unread_def split: if_splits)
  have u: "length (unread a r) \<le> Suc (length r)" for a r
    by (simp add: unread_def)
  show ?thesis
    unfolding scanToken_def
    by (simp add: case_prod_beta facts i2 n2 u i [of _ "[]", simplified] split: list.split)
qed

lemma scanToken_length:
  "scanToken ch rest = (tok, lx, rest') \<Longrightarrow> length rest' \<le> length rest"
  using scanToken_length_snd [of ch rest] by simp

definition scanInput :: "Scanner \<Rightarrow> string" where
  "scanInput s = (if IgnoreWhiteSpace s then dropWhile isWhitespace (reader s) else reader s)"

lemma scanInput_length: "length (scanInput s) \<le> length (reader s)"
  by (simp add: scanInput_def length_dropWhile_le)

lemma Scan_at_end:
  "scanInput s = [] \<Longrightarrow> Scan s = setToken TokenEOF [] [] s"
  by (simp add: Scan_def scanInput_def)

lemma Scan_at_nul:
  "scanInput s = ch # rest \<Longrightarrow> ch = eof \<Longrightarrow> Scan s = setToken TokenEOF [] rest s"
  by (simp add: Scan_def scanInput_def)

lemma Scan_at_token:
  "scanInput s = ch # rest \<Longrightarrow> ch \<noteq> eof \<Longrightarrow> scanToken ch rest = (tok, lx, rest') \<Longrightarrow>
   Scan s = setToken tok lx rest' s"
  by (simp add: Scan_def scanInput_def)

lemma Scan_length: "length (reader (Scan s)) \<le> length (reader s)"
proof (cases "scanInput s")
  case Nil
  then show ?thesis by (simp add: Scan_at_end setToken_def)
next
  case (Cons ch rest)
  note inp = this
  show ?thesis
  proof (cases "ch = eof")
    case True
    with inp scanInput_length [of s] show ?thesis
      by (simp add: Scan_at_nul setToken_def)
  next
    case False
    obtain tok lx rest' where t: "scanToken ch rest = (tok, lx, rest')"
      by (cases "scanToken ch rest") auto
    from scanToken_length [OF t] inp scanInput_length [of s] show ?thesis
      by (simp add: Scan_at_token [OF inp False t] setToken_def)
  qed
qed

lemma Scan_shortens:
  assumes "token (Scan s) \<noteq> TokenEOF"
  shows "length (reader (Scan s)) < length (reader s)"
proof (cases "scanInput s")
  case Nil
  with assms show ?thesis by (simp add: Scan_at_end setToken_def)
next
  case (Cons ch rest)
  note inp = this
  show ?thesis
  proof (cases "ch = eof")
    case True
    with inp assms show ?thesis
      by (simp add: Scan_at_nul setToken_def)
  next
    case False
    obtain tok lx rest' where t: "scanToken ch rest = (tok, lx, rest')"
      by (cases "scanToken ch rest") auto
    from scanToken_length [OF t] inp scanInput_length [of s] show ?thesis
      by (simp add: Scan_at_token [OF inp False t] setToken_def)
  qed
qed

section \<open>The parser (package parse)\<close>

text \<open>
  The parser's state. A panic raised by \<open>errorf\<close> is the left value of a sum: a
  function that can panic returns \<open>string + parser\<close>. The methods \<open>next\<close>,
  \<open>token\<close> and \<open>text\<close> are \<open>p_next\<close>, \<open>p_token\<close> and \<open>p_text\<close>.
\<close>

record parser =
  lexer :: Scanner
  query :: Query
  placeholderIndex :: int
  lexemes :: "string list"

definition p_token :: "parser \<Rightarrow> Token" where
  "p_token p = token (lexer p)"

definition p_text :: "parser \<Rightarrow> string" where
  "p_text p = lexeme (lexer p)"

definition remaining :: "parser \<Rightarrow> nat" where
  "remaining p = length (reader (lexer p))"

definition lexerScan :: "parser \<Rightarrow> parser" where
  "lexerScan p = p\<lparr>lexer := Scan (lexer p)\<rparr>"

lemma remaining_lexerScan: "remaining (lexerScan p) \<le> remaining p"
  by (simp add: remaining_def lexerScan_def Scan_length)

lemma remaining_lexerScan_less:
  "p_token (lexerScan p) \<noteq> TokenEOF \<Longrightarrow> remaining (lexerScan p) < remaining p"
  by (simp add: remaining_def lexerScan_def p_token_def Scan_shortens)

text \<open>The loop of \<open>next\<close> that skips comments and records white space.\<close>

function skipLoop :: "parser \<Rightarrow> parser" where
  "skipLoop p =
     (if p_token p = TokenComment then skipLoop (lexerScan p)
      else if p_token p = TokenWhiteSpace
      then skipLoop (lexerScan
             (if length (lexemes p) > 0 \<and> last (lexemes p) \<noteq> '' ''
              then p\<lparr>lexemes := lexemes p @ ['' '']\<rparr> else p))
      else p)"
  by pat_completeness auto
termination
proof (relation "measure (\<lambda>p. 2 * remaining p
                  + (if p_token p = TokenComment \<or> p_token p = TokenWhiteSpace then 1 else 0))")
  show "wf (measure (\<lambda>p. 2 * remaining p
                  + (if p_token p = TokenComment \<or> p_token p = TokenWhiteSpace then 1 else 0)))"
    by simp
next
  fix p assume "p_token p = TokenComment"
  then show "(lexerScan p, p) \<in> measure (\<lambda>p. 2 * remaining p
                  + (if p_token p = TokenComment \<or> p_token p = TokenWhiteSpace then 1 else 0))"
    using remaining_lexerScan [of p] remaining_lexerScan_less [of p]
    by (cases "p_token (lexerScan p) = TokenEOF") auto
next
  fix p assume "p_token p \<noteq> TokenComment" "p_token p = TokenWhiteSpace"
  then show "(lexerScan (if 0 < length (lexemes p) \<and> last (lexemes p) \<noteq> '' ''
                          then p\<lparr>lexemes := lexemes p @ ['' '']\<rparr> else p), p)
       \<in> measure (\<lambda>p. 2 * remaining p
                  + (if p_token p = TokenComment \<or> p_token p = TokenWhiteSpace then 1 else 0))"
    using remaining_lexerScan [of p] remaining_lexerScan_less [of p]
      remaining_lexerScan [of "p\<lparr>lexemes := lexemes p @ ['' '']\<rparr>"]
      remaining_lexerScan_less [of "p\<lparr>lexemes := lexemes p @ ['' '']\<rparr>"]
    by (cases "p_token (lexerScan p) = TokenEOF";
        cases "p_token (lexerScan (p\<lparr>lexemes := lexemes p @ ['' '']\<rparr>)) = TokenEOF")
      (auto simp: remaining_def p_token_def)
qed

declare skipLoop.simps [simp del]

definition p_next :: "parser \<Rightarrow> parser" where
  "p_next p =
     skipLoop (lexerScan
       (if p_token p = TokenPlaceholder then p\<lparr>placeholderIndex := placeholderIndex p + 1\<rparr>
        else p))"

lemma query_lexerScan [simp]: "query (lexerScan p) = query p"
  and placeholderIndex_lexerScan [simp]: "placeholderIndex (lexerScan p) = placeholderIndex p"
  and lexemes_lexerScan [simp]: "lexemes (lexerScan p) = lexemes p"
  by (simp_all add: lexerScan_def)

lemma remaining_skipLoop: "remaining (skipLoop p) \<le> remaining p"
proof (induction p rule: skipLoop.induct)
  case (1 p)
  show ?case
  proof (cases "p_token p = TokenComment")
    case True
    with "1.IH"(1) remaining_lexerScan [of p] show ?thesis
      by (subst skipLoop.simps) simp
  next
    case False
    note nc = this
    show ?thesis
    proof (cases "p_token p = TokenWhiteSpace")
      case True
      let ?q = "if length (lexemes p) > 0 \<and> last (lexemes p) \<noteq> '' ''
                then p\<lparr>lexemes := lexemes p @ ['' '']\<rparr> else p"
      have "remaining ?q = remaining p" by (simp add: remaining_def)
      with "1.IH"(2) [OF nc True] remaining_lexerScan [of ?q] nc True show ?thesis
        by (subst skipLoop.simps) simp
    next
      case False
      with nc show ?thesis by (subst skipLoop.simps) simp
    qed
  qed
qed

lemma skipLoop_shortens:
  "p_token (skipLoop p) \<noteq> TokenEOF \<Longrightarrow>
   (skipLoop p = p \<and> p_token p \<noteq> TokenComment \<and> p_token p \<noteq> TokenWhiteSpace)
   \<or> remaining (skipLoop p) < remaining p"
proof (induction p rule: skipLoop.induct)
  case (1 p)
  show ?case
  proof (cases "p_token p = TokenComment")
    case True
    then have eq: "skipLoop p = skipLoop (lexerScan p)"
      by (subst skipLoop.simps) simp
    with "1.prems" have ne: "p_token (skipLoop (lexerScan p)) \<noteq> TokenEOF" by simp
    from "1.IH"(1) [OF True ne] show ?thesis
    proof
      assume "skipLoop (lexerScan p) = lexerScan p \<and> p_token (lexerScan p) \<noteq> TokenComment
                \<and> p_token (lexerScan p) \<noteq> TokenWhiteSpace"
      with ne eq remaining_lexerScan_less [of p] show ?thesis by simp
    next
      assume "remaining (skipLoop (lexerScan p)) < remaining (lexerScan p)"
      with eq remaining_lexerScan [of p] show ?thesis by simp
    qed
  next
    case False
    note nc = this
    show ?thesis
    proof (cases "p_token p = TokenWhiteSpace")
      case True
      let ?q = "if length (lexemes p) > 0 \<and> last (lexemes p) \<noteq> '' ''
                then p\<lparr>lexemes := lexemes p @ ['' '']\<rparr> else p"
      have r: "remaining ?q = remaining p" by (simp add: remaining_def)
      from nc True have eq: "skipLoop p = skipLoop (lexerScan ?q)"
        by (subst skipLoop.simps) simp
      with "1.prems" have ne: "p_token (skipLoop (lexerScan ?q)) \<noteq> TokenEOF" by simp
      from "1.IH"(2) [OF nc True ne] show ?thesis
      proof
        assume "skipLoop (lexerScan ?q) = lexerScan ?q \<and> p_token (lexerScan ?q) \<noteq> TokenComment
                  \<and> p_token (lexerScan ?q) \<noteq> TokenWhiteSpace"
        with ne eq remaining_lexerScan_less [of ?q] r show ?thesis by simp
      next
        assume "remaining (skipLoop (lexerScan ?q)) < remaining (lexerScan ?q)"
        with eq remaining_lexerScan [of ?q] r show ?thesis by simp
      qed
    next
      case False
      with nc show ?thesis by (subst skipLoop.simps) simp
    qed
  qed
qed

lemma remaining_p_next: "remaining (p_next p) \<le> remaining p"
proof -
  let ?q = "if p_token p = TokenPlaceholder then p\<lparr>placeholderIndex := placeholderIndex p + 1\<rparr>
            else p"
  have "remaining ?q = remaining p" by (simp add: remaining_def)
  with remaining_skipLoop [of "lexerScan ?q"] remaining_lexerScan [of ?q] show ?thesis
    by (simp add: p_next_def)
qed

lemma remaining_p_next_less:
  assumes "p_token (p_next p) \<noteq> TokenEOF"
  shows "remaining (p_next p) < remaining p"
proof -
  let ?q = "if p_token p = TokenPlaceholder then p\<lparr>placeholderIndex := placeholderIndex p + 1\<rparr>
            else p"
  have r: "remaining ?q = remaining p" by (simp add: remaining_def)
  have eq: "p_next p = skipLoop (lexerScan ?q)" by (simp add: p_next_def)
  with assms have ne: "p_token (skipLoop (lexerScan ?q)) \<noteq> TokenEOF" by simp
  from skipLoop_shortens [OF ne] show ?thesis
  proof
    assume "skipLoop (lexerScan ?q) = lexerScan ?q \<and> p_token (lexerScan ?q) \<noteq> TokenComment
              \<and> p_token (lexerScan ?q) \<noteq> TokenWhiteSpace"
    with ne eq remaining_lexerScan_less [of ?q] r show ?thesis by simp
  next
    assume "remaining (skipLoop (lexerScan ?q)) < remaining (lexerScan ?q)"
    with eq remaining_lexerScan [of ?q] r show ?thesis by simp
  qed
qed

definition copyText :: "parser \<Rightarrow> parser" where
  "copyText p = p\<lparr>lexemes := lexemes p @ [p_text p]\<rparr>"

definition expect :: "Token list \<Rightarrow> parser \<Rightarrow> string + parser" where
  "expect toks p =
     (if p_token p \<in> set toks then Inr p else Inl (''unexpected '' @ Quote (p_text p)))"

definition expectText :: "string \<Rightarrow> parser \<Rightarrow> string + parser" where
  "expectText txt p =
     (if \<not> EqualFold (p_text p) txt
      then Inl (''expected '' @ Quote txt @ '', found '' @ Quote (p_text p))
      else Inr p)"

definition expectEOF :: "parser \<Rightarrow> string + parser" where
  "expectEOF p =
     (if p_token p \<noteq> TokenEOF then Inl (''expected end of query, found '' @ Quote (p_text p))
      else Inr p)"

text \<open>Sequencing of steps that can panic: the first panic ends the parse.\<close>

definition andThen :: "string + parser \<Rightarrow> (parser \<Rightarrow> string + parser) \<Rightarrow> string + parser" where
  "andThen r f = (case r of Inl msg \<Rightarrow> Inl msg | Inr p \<Rightarrow> f p)"

text \<open>Assignments through the pointers \<open>p.query.Select\<close>, \<open>p.query.Insert\<close>, ...;
  each is made where the pointer has been set.\<close>

definition onSelect :: "(SelectQuery \<Rightarrow> SelectQuery) \<Rightarrow> parser \<Rightarrow> parser" where
  "onSelect f p = p\<lparr>query := (query p)\<lparr>Select := map_option f (Select (query p))\<rparr>\<rparr>"

definition onInsert :: "(InsertQuery \<Rightarrow> InsertQuery) \<Rightarrow> parser \<Rightarrow> parser" where
  "onInsert f p = p\<lparr>query := (query p)\<lparr>Insert := map_option f (Insert (query p))\<rparr>\<rparr>"

definition onUpdate :: "(UpdateQuery \<Rightarrow> UpdateQuery) \<Rightarrow> parser \<Rightarrow> parser" where
  "onUpdate f p = p\<lparr>query := (query p)\<lparr>Update := map_option f (Update (query p))\<rparr>\<rparr>"

definition onDelete :: "(DeleteQuery \<Rightarrow> DeleteQuery) \<Rightarrow> parser \<Rightarrow> parser" where
  "onDelete f p = p\<lparr>query := (query p)\<lparr>Delete := map_option f (Delete (query p))\<rparr>\<rparr>"

lemma remaining_simps [simp]:
  "remaining (copyText p) = remaining p"
  "remaining (onSelect fs p) = remaining p"
  "remaining (onInsert fi p) = remaining p"
  "remaining (onUpdate fu p) = remaining p"
  "remaining (onDelete fd p) = remaining p"
  "remaining (p\<lparr>query := q\<rparr>) = remaining p"
  "remaining (p\<lparr>lexemes := ls\<rparr>) = remaining p"
  by (simp_all add: remaining_def copyText_def onSelect_def onInsert_def onUpdate_def
      onDelete_def)

lemma p_token_simps [simp]:
  "p_token (onSelect fs p) = p_token p"
  "p_token (onInsert fi p) = p_token p"
  "p_token (onUpdate fu p) = p_token p"
  "p_token (onDelete fd p) = p_token p"
  "p_token (copyText p) = p_token p"
  "p_token (p\<lparr>query := q\<rparr>) = p_token p"
  "p_token (p\<lparr>lexemes := ls\<rparr>) = p_token p"
  "p_text (onSelect fs p) = p_text p"
  "p_text (onInsert fi p) = p_text p"
  "p_text (onUpdate fu p) = p_text p"
  "p_text (onDelete fd p) = p_text p"
  "p_text (copyText p) = p_text p"
  "p_text (p\<lparr>query := q\<rparr>) = p_text p"
  "p_text (p\<lparr>lexemes := ls\<rparr>) = p_text p"
  by (simp_all add: p_token_def p_text_def copyText_def onSelect_def onInsert_def onUpdate_def
      onDelete_def)

lemma expect_Inr [simp]:
  "expect toks p = Inr p' \<longleftrightarrow> p' = p \<and> p_token p \<in> set toks"
  "expectText txt p = Inr p' \<longleftrightarrow> p' = p \<and> EqualFold (p_text p) txt"
  "expectEOF p = Inr p' \<longleftrightarrow> p' = p \<and> p_token p = TokenEOF"
  by (auto simp: expect_def expectText_def expectEOF_def)

lemma andThen_Inr [simp]:
  "andThen r f = Inr p' \<longleftrightarrow> (\<exists>p. r = Inr p \<and> f p = Inr p')"
  by (cases r) (simp_all add: andThen_def)

lemma andThen_simps [simp]:
  "andThen (Inl msg) f = Inl msg"
  "andThen (Inr p) f = f p"
  by (simp_all add: andThen_def)

subsection \<open>Select\<close>

definition emptySelect :: SelectQuery where
  "emptySelect = \<lparr>sel_ConsistentRead = False, sel_ColumnNames = [], sel_TableName = [],
                  sel_WhereClause = [], sel_Key = None\<rparr>"

text \<open>The closure \<open>expectIdent\<close> of \<open>parseSelectColumnList\<close>.\<close>

definition selectExpectIdent :: "(string \<Rightarrow> string) \<Rightarrow> parser \<Rightarrow> string + parser" where
  "selectExpectIdent unquote p =
     andThen (expect [TokenIdent] p)
       (\<lambda>p. Inr (p_next (onSelect (\<lambda>s. s\<lparr>sel_ColumnNames :=
                                          sel_ColumnNames s @ [unquote (p_text p)]\<rparr>) p)))"

lemma selectExpectIdent_remaining:
  "selectExpectIdent unquote (p_next p) = Inr p' \<Longrightarrow> remaining p' < remaining p"
proof -
  assume a: "selectExpectIdent unquote (p_next p) = Inr p'"
  then have t: "p_token (p_next p) = TokenIdent"
    and p': "p' = p_next (onSelect (\<lambda>s. s\<lparr>sel_ColumnNames :=
                                   sel_ColumnNames s @ [unquote (p_text (p_next p))]\<rparr>) (p_next p))"
    by (auto simp: selectExpectIdent_def)
  from t have "remaining (p_next p) < remaining p"
    by (intro remaining_p_next_less) simp
  moreover from p' have "remaining p' \<le> remaining (p_next p)"
    using remaining_p_next [of "onSelect (\<lambda>s. s\<lparr>sel_ColumnNames :=
                                   sel_ColumnNames s @ [unquote (p_text (p_next p))]\<rparr>) (p_next p)"]
    by simp
  ultimately show ?thesis by simp
qed

function selectColumnLoop :: "(string \<Rightarrow> string) \<Rightarrow> parser \<Rightarrow> string + parser" where
  "selectColumnLoop unquote p =
     (if p_text p = '',''
      then (case selectExpectIdent unquote (p_next p) of
              Inl msg \<Rightarrow> Inl msg
            | Inr p' \<Rightarrow> selectColumnLoop unquote p')
      else Inr p)"
  by pat_completeness auto
termination
  by (relation "measure (\<lambda>(u, p). remaining p)") (auto dest: selectExpectIdent_remaining)

declare selectColumnLoop.simps [simp del]

definition parseSelectColumnList :: "(string \<Rightarrow> string) \<Rightarrow> parser \<Rightarrow> string + parser" where
  "parseSelectColumnList unquote p =
     andThen (selectExpectIdent unquote p) (selectColumnLoop unquote)"

definition parseSelectFromClause :: "(string \<Rightarrow> string) \<Rightarrow> parser \<Rightarrow> string + parser" where
  "parseSelectFromClause unquote p =
     andThen (expectText ''from'' p) (\<lambda>p.
     andThen (expect [TokenIdent] (p_next p)) (\<lambda>p.
       Inr (p_next (onSelect (\<lambda>s. s\<lparr>sel_TableName := unquote (p_text p)\<rparr>) p))))"

function copyLoop :: "parser \<Rightarrow> parser" where
  "copyLoop p = (if p_token p \<noteq> TokenEOF then copyLoop (p_next (copyText p)) else p)"
  by pat_completeness auto
termination
proof (relation "measure (\<lambda>p. 2 * remaining p + (if p_token p \<noteq> TokenEOF then 1 else 0))")
  show "wf (measure (\<lambda>p. 2 * remaining p + (if p_token p \<noteq> TokenEOF then 1 else 0)))"
    by simp
next
  fix p assume "p_token p \<noteq> TokenEOF"
  then show "(p_next (copyText p), p)
       \<in> measure (\<lambda>p. 2 * remaining p + (if p_token p \<noteq> TokenEOF then 1 else 0))"
    using remaining_p_next [of "copyText p"] remaining_p_next_less [of "copyText p"]
    by (cases "p_token (p_next (copyText p)) = TokenEOF") auto
qed

declare copyLoop.simps [simp del]

definition copyRemaining :: "parser \<Rightarrow> parser" where
  "copyRemaining p =
     (let p' = copyLoop p
      in (onSelect (\<lambda>s. s\<lparr>sel_WhereClause := lexemes p'\<rparr>) p')\<lparr>lexemes := []\<rparr>)"

definition parseSelectWhereClause :: "(string \<Rightarrow> string) \<Rightarrow> parser \<Rightarrow> parser" where
  "parseSelectWhereClause unquote p =
     (let p0 = p\<lparr>lexer := (lexer p)\<lparr>IgnoreWhiteSpace := False\<rparr>\<rparr> in
      if ToLower (p_text p0) \<noteq> ''where'' then copyRemaining p0
      else let p1 = p_next (copyText p0) in
      if p_token p1 \<noteq> TokenIdent \<or> unquote (p_text p1) \<noteq> ''id'' then copyRemaining p1
      else let p2 = p_next (copyText p1) in
      if p_text p2 \<noteq> ''='' then copyRemaining p2
      else let p3 = p_next (copyText p2) in
      if p_token p3 \<noteq> TokenLiteral \<and> p_token p3 \<noteq> TokenPlaceholder then copyRemaining p3
      else let key = (if p_token p3 = TokenLiteral
                      then \<lparr>key_Ordinal = 0, key_Value = Some (unquote (p_text p3))\<rparr>
                      else \<lparr>key_Ordinal = placeholderIndex p3, key_Value = None\<rparr>);
               p4 = p_next (copyText p3) in
      if p_token p4 \<noteq> TokenEOF then copyRemaining p4
      else onSelect (\<lambda>s. s\<lparr>sel_Key := Some key\<rparr>) p4)"

definition parseSelect :: "(string \<Rightarrow> string) \<Rightarrow> parser \<Rightarrow> string + parser" where
  "parseSelect unquote p =
     (let p = p\<lparr>query := (query p)\<lparr>Select := Some emptySelect\<rparr>\<rparr> in
      andThen (if p_text p = ''consistent''
               then expectText ''select'' (p_next (onSelect (\<lambda>s. s\<lparr>sel_ConsistentRead := True\<rparr>) p))
               else Inr p) (\<lambda>p.
      andThen (parseSelectColumnList unquote (p_next p)) (\<lambda>p.
      andThen (parseSelectFromClause unquote p) (\<lambda>p.
        Inr (parseSelectWhereClause unquote p)))))"

subsection \<open>Update\<close>

definition emptyKey :: Key where
  "emptyKey = \<lparr>key_Ordinal = 0, key_Value = None\<rparr>"

definition emptyUpdate :: UpdateQuery where
  "emptyUpdate = \<lparr>upd_TableName = [], upd_Columns = [], upd_Key = emptyKey, upd_Upsert = False\<rparr>"

text \<open>The key that the current token stands for: \<open>Key{Ordinal: p.placeholderIndex}\<close>
  for a placeholder, \<open>Key{Value: &value}\<close> for a literal.\<close>

definition keyOfToken :: "(string \<Rightarrow> string) \<Rightarrow> parser \<Rightarrow> Key" where
  "keyOfToken unquote p =
     (if p_token p = TokenPlaceholder then \<lparr>key_Ordinal = placeholderIndex p, key_Value = None\<rparr>
      else \<lparr>key_Ordinal = 0, key_Value = Some (unquote (p_text p))\<rparr>)"

text \<open>The column with the value source that the current token stands for.\<close>

definition columnOfToken :: "(string \<Rightarrow> string) \<Rightarrow> Column \<Rightarrow> parser \<Rightarrow> Column" where
  "columnOfToken unquote col p =
     (if p_token p = TokenPlaceholder then col\<lparr>col_Ordinal := placeholderIndex p\<rparr>
      else col\<lparr>col_Value := Some (unquote (p_text p))\<rparr>)"

definition parseUpdateColumn :: "(string \<Rightarrow> string) \<Rightarrow> parser \<Rightarrow> string + parser" where
  "parseUpdateColumn unquote p =
     andThen (expect [TokenIdent] p) (\<lambda>p.
     let col = \<lparr>ColumnName = unquote (p_text p), col_Ordinal = 0, col_Value = None\<rparr> in
     andThen (expectText ''='' (p_next p)) (\<lambda>p.
     andThen (expect [TokenPlaceholder, TokenLiteral] (p_next p)) (\<lambda>p.
       Inr (p_next (onUpdate (\<lambda>u. u\<lparr>upd_Columns :=
                                upd_Columns u @ [columnOfToken unquote col p]\<rparr>) p)))))"

lemma parseUpdateColumn_remaining:
  assumes "parseUpdateColumn unquote (p_next p) = Inr p'"
  shows "remaining p' < remaining p"
proof -
  from assms obtain p2 p3 f where
    t: "p_token (p_next p) = TokenIdent"
    and p2: "p2 = p_next (p_next p)"
    and p3: "p3 = p_next p2"
    and p': "p' = p_next (onUpdate f p3)"
    by (auto simp: parseUpdateColumn_def Let_def)
  from t have "remaining (p_next p) < remaining p"
    by (intro remaining_p_next_less) simp
  moreover from p2 have "remaining p2 \<le> remaining (p_next p)" by (simp add: remaining_p_next)
  moreover from p3 have "remaining p3 \<le> remaining p2" by (simp add: remaining_p_next)
  moreover from p' have "remaining p' \<le> remaining p3"
    using remaining_p_next [of "onUpdate f p3"] by simp
  ultimately show ?thesis by simp
qed

function updateColumnLoop :: "(string \<Rightarrow> string) \<Rightarrow> parser \<Rightarrow> string + parser" where
  "updateColumnLoop unquote p =
     (if p_text p = '',''
      then (case parseUpdateColumn unquote (p_next p) of
              Inl msg \<Rightarrow> Inl msg
            | Inr p' \<Rightarrow> updateColumnLoop unquote p')
      else Inr p)"
  by pat_completeness auto
termination
  by (relation "measure (\<lambda>(u, p). remaining p)") (auto dest: parseUpdateColumn_remaining)

declare updateColumnLoop.simps [simp del]

definition parseUpdateColumns :: "(string \<Rightarrow> string) \<Rightarrow> parser \<Rightarrow> string + parser" where
  "parseUpdateColumns unquote p =
     andThen (parseUpdateColumn unquote p) (updateColumnLoop unquote)"

definition parseUpdateWhere :: "(string \<Rightarrow> string) \<Rightarrow> parser \<Rightarrow> string + parser" where
  "parseUpdateWhere unquote p =
     andThen (expectText ''where'' p) (\<lambda>p.
     andThen (expectText ''id'' (p_next p)) (\<lambda>p.
     andThen (expectText ''='' (p_next p)) (\<lambda>p.
     andThen (expect [TokenPlaceholder, TokenLiteral] (p_next p)) (\<lambda>p.
       Inr (p_next (onUpdate (\<lambda>u. u\<lparr>upd_Key := keyOfToken unquote p\<rparr>) p))))))"

definition parseUpdate :: "(string \<Rightarrow> string) \<Rightarrow> parser \<Rightarrow> string + parser" where
  "parseUpdate unquote p =
     (let p = p\<lparr>query := (query p)\<lparr>Update := Some emptyUpdate\<rparr>\<rparr> in
      andThen (expect [TokenIdent] (p_next p)) (\<lambda>p.
      andThen (expectText ''set''
                 (p_next (onUpdate (\<lambda>u. u\<lparr>upd_TableName := unquote (p_text p)\<rparr>) p))) (\<lambda>p.
      andThen (parseUpdateColumns unquote (p_next p)) (\<lambda>p.
      andThen (parseUpdateWhere unquote p) expectEOF))))"

subsection \<open>Insert\<close>

definition emptyInsert :: InsertQuery where
  "emptyInsert = \<lparr>ins_TableName = [], ins_Columns = [], ins_Key = emptyKey\<rparr>"

text \<open>The closure \<open>expectIdent\<close> of \<open>parseInsertColumnList\<close>, on the local slice
  \<open>columns\<close> and the parser.\<close>

definition insertExpectIdent ::
  "(string \<Rightarrow> string) \<Rightarrow> Column list \<Rightarrow> parser \<Rightarrow> string + (Column list \<times> parser)" where
  "insertExpectIdent unquote columns p =
     (case expect [TokenIdent] p of
        Inl msg \<Rightarrow> Inl msg
      | Inr p \<Rightarrow>
          Inr (columns @ [\<lparr>ColumnName = unquote (p_text p), col_Ordinal = 0, col_Value = None\<rparr>],
               p_next p))"

lemma insertExpectIdent_remaining:
  assumes "insertExpectIdent unquote columns (p_next p) = Inr (columns', p')"
  shows "remaining p' < remaining p"
proof -
  from assms have t: "p_token (p_next p) = TokenIdent" and p': "p' = p_next (p_next p)"
    by (auto simp: insertExpectIdent_def split: sum.splits)
  from t have "remaining (p_next p) < remaining p"
    by (intro remaining_p_next_less) simp
  with p' remaining_p_next [of "p_next p"] show ?thesis by simp
qed

function insertColumnLoop ::
  "(string \<Rightarrow> string) \<Rightarrow> Column list \<Rightarrow> parser \<Rightarrow> string + (Column list \<times> parser)" where
  "insertColumnLoop unquote columns p =
     (if p_text p = '',''
      then (case insertExpectIdent unquote columns (p_next p) of
              Inl msg \<Rightarrow> Inl msg
            | Inr (columns', p') \<Rightarrow> insertColumnLoop unquote columns' p')
      else Inr (columns, p))"
  by pat_completeness auto
termination
  by (relation "measure (\<lambda>(u, cs, p). remaining p)") (auto dest: insertExpectIdent_remaining)

declare insertColumnLoop.simps [simp del]

definition parseInsertColumnList :: "(string \<Rightarrow> string) \<Rightarrow> parser \<Rightarrow> string + parser" where
  "parseInsertColumnList unquote p =
     (case insertExpectIdent unquote [] p of
        Inl msg \<Rightarrow> Inl msg
      | Inr (columns, p) \<Rightarrow>
          (case insertColumnLoop unquote columns p of
             Inl msg \<Rightarrow> Inl msg
           | Inr (columns, p) \<Rightarrow> Inr (onInsert (\<lambda>i. i\<lparr>ins_Columns := columns\<rparr>) p)))"

text \<open>
  The first loop of \<open>parseInsertValueList\<close>, over the columns from index \<open>i\<close> on:
  \<open>done\<close> are the columns before \<open>i\<close>, with their value sources.
\<close>

fun insertValueLoop ::
  "(string \<Rightarrow> string) \<Rightarrow> nat \<Rightarrow> Column list \<Rightarrow> Column list \<Rightarrow> parser
     \<Rightarrow> string + (Column list \<times> parser)" where
  "insertValueLoop unquote i [] done p = Inr (done, p)"
| "insertValueLoop unquote i (col # cols) done p =
     (case (if i > 0 then andThen (expectText '','' p) (\<lambda>p. Inr (p_next p)) else Inr p) of
        Inl msg \<Rightarrow> Inl msg
      | Inr p \<Rightarrow>
          (case expect [TokenPlaceholder, TokenLiteral] p of
             Inl msg \<Rightarrow> Inl msg
           | Inr p \<Rightarrow>
               insertValueLoop unquote (i + 1) cols (done @ [columnOfToken unquote col p])
                 (p_next p)))"

text \<open>The second loop of \<open>parseInsertValueList\<close>: the key found so far,
  \<open>haveKey\<close>, and the columns kept so far.\<close>

fun stripIdColumn ::
  "(string \<Rightarrow> string) \<Rightarrow> Column list \<Rightarrow> Key \<Rightarrow> bool \<Rightarrow> Column list
     \<Rightarrow> string + (Key \<times> bool \<times> Column list)" where
  "stripIdColumn unquote [] key haveKey columns = Inr (key, haveKey, columns)"
| "stripIdColumn unquote (col # cols) key haveKey columns =
     (if IsID unquote (ColumnName col)
      then (if haveKey then Inl ''duplicate id column in insert statement''
            else stripIdColumn unquote cols
                   \<lparr>key_Ordinal = col_Ordinal col, key_Value = col_Value col\<rparr> True columns)
      else stripIdColumn unquote cols key haveKey (columns @ [col]))"

definition parseInsertValueList :: "(string \<Rightarrow> string) \<Rightarrow> parser \<Rightarrow> string + parser" where
  "parseInsertValueList unquote p =
     (case Insert (query p) of
        None \<Rightarrow> Inr p
      | Some ins \<Rightarrow>
         (case insertValueLoop unquote 0 (ins_Columns ins) [] p of
            Inl msg \<Rightarrow> Inl msg
          | Inr (valued, p) \<Rightarrow>
             (case stripIdColumn unquote valued (ins_Key ins) False [] of
                Inl msg \<Rightarrow> Inl msg
              | Inr (key, haveKey, columns) \<Rightarrow>
                  if \<not> haveKey then Inl ''missing id column in insert statement''
                  else Inr (onInsert (\<lambda>i. i\<lparr>ins_Columns := columns, ins_Key := key\<rparr>) p))))"

definition parseInsert :: "(string \<Rightarrow> string) \<Rightarrow> parser \<Rightarrow> string + parser" where
  "parseInsert unquote p =
     (let p = p_next (p\<lparr>query := (query p)\<lparr>Insert := Some emptyInsert\<rparr>\<rparr>);
          p = (if EqualFold (p_text p) ''into'' then p_next p else p) in
      andThen (expect [TokenIdent] p) (\<lambda>p.
      andThen (expectText ''(''
                 (p_next (onInsert (\<lambda>i. i\<lparr>ins_TableName := unquote (p_text p)\<rparr>) p))) (\<lambda>p.
      andThen (parseInsertColumnList unquote (p_next p)) (\<lambda>p.
      andThen (expectText '')'' p) (\<lambda>p.
      andThen (expectText ''values'' (p_next p)) (\<lambda>p.
      andThen (expectText ''('' (p_next p)) (\<lambda>p.
      andThen (parseInsertValueList unquote (p_next p)) (\<lambda>p.
      andThen (expectText '')'' p) (\<lambda>p. expectEOF (p_next p))))))))))"

subsection \<open>Delete, create table, drop table\<close>

definition emptyDelete :: DeleteQuery where
  "emptyDelete = \<lparr>del_TableName = [], del_Key = emptyKey\<rparr>"

definition parseDeleteWhere :: "(string \<Rightarrow> string) \<Rightarrow> parser \<Rightarrow> string + parser" where
  "parseDeleteWhere unquote p =
     andThen (expectText ''where'' p) (\<lambda>p.
     andThen (expectText ''id'' (p_next p)) (\<lambda>p.
     andThen (expectText ''='' (p_next p)) (\<lambda>p.
     andThen (expect [TokenPlaceholder, TokenLiteral] (p_next p)) (\<lambda>p.
       Inr (p_next (onDelete (\<lambda>d. d\<lparr>del_Key := keyOfToken unquote p\<rparr>) p))))))"

definition parseDelete :: "(string \<Rightarrow> string) \<Rightarrow> parser \<Rightarrow> string + parser" where
  "parseDelete unquote p =
     (let p = p_next (p\<lparr>query := (query p)\<lparr>Delete := Some emptyDelete\<rparr>\<rparr>);
          p = (if ToLower (p_text p) = ''from'' then p_next p else p) in
      andThen (expect [TokenIdent] p) (\<lambda>p.
      andThen (parseDeleteWhere unquote
                 (p_next (onDelete (\<lambda>d. d\<lparr>del_TableName := unquote (p_text p)\<rparr>) p)))
        expectEOF))"

definition parseCreateTable :: "(string \<Rightarrow> string) \<Rightarrow> parser \<Rightarrow> string + parser" where
  "parseCreateTable unquote p =
     (let p = p_next (p\<lparr>query := (query p)\<lparr>CreateTable := Some \<lparr>ct_TableName = []\<rparr>\<rparr>\<rparr>) in
      andThen (expectText ''table'' p) (\<lambda>p.
      andThen (expect [TokenIdent] (p_next p)) (\<lambda>p.
        expectEOF (p_next (p\<lparr>query := (query p)\<lparr>CreateTable :=
                                   Some \<lparr>ct_TableName = unquote (p_text p)\<rparr>\<rparr>\<rparr>)))))"

definition parseDropTable :: "(string \<Rightarrow> string) \<Rightarrow> parser \<Rightarrow> string + parser" where
  "parseDropTable unquote p =
     (let p = p_next (p\<lparr>query := (query p)\<lparr>DropTable := Some \<lparr>dt_TableName = []\<rparr>\<rparr>\<rparr>) in
      andThen (expectText ''table'' p) (\<lambda>p.
      andThen (expect [TokenIdent] (p_next p)) (\<lambda>p.
        expectEOF (p_next (p\<lparr>query := (query p)\<lparr>DropTable :=
                                   Some \<lparr>dt_TableName = unquote (p_text p)\<rparr>\<rparr>\<rparr>)))))"

subsection \<open>parse\<close>

definition emptyQuery :: Query where
  "emptyQuery = \<lparr>Select = None, Insert = None, Update = None, Delete = None,
                 CreateTable = None, DropTable = None\<rparr>"

definition newParser :: "string \<Rightarrow> parser" where
  "newParser src =
     \<lparr>lexer = (New src)\<lparr>IgnoreWhiteSpace := True\<rparr>, query = emptyQuery,
      placeholderIndex = 0, lexemes = []\<rparr>"

text \<open>\<open>parser.parse\<close> after the first \<open>p.next()\<close>: the dispatch on the first token.\<close>

definition dispatch :: "(string \<Rightarrow> string) \<Rightarrow> parser \<Rightarrow> string + parser" where
  "dispatch unquote p =
     (let txt = ToLower (p_text p) in
      if txt = ''select'' \<or> txt = ''consistent'' then parseSelect unquote p
      else if txt = ''update'' then parseUpdate unquote p
      else if txt = ''insert'' then parseInsert unquote p
      else if txt = ''delete'' then parseDelete unquote p
      else if txt = ''create'' then parseCreateTable unquote p
      else if txt = ''drop'' then parseDropTable unquote p
      else if p_token p = TokenKeyword then Inl (''unexpected keyword '' @ Quote (p_text p))
      else Inl (''unrecognized query '' @ Quote (p_text p)))"

text \<open>\<open>parse.Parse\<close>: the recovered panic message becomes the error.\<close>

definition Parse :: "(string \<Rightarrow> string) \<Rightarrow> string \<Rightarrow> error + Query" where
  "Parse unquote src =
     (case dispatch unquote (p_next (newParser src)) of
        Inl msg \<Rightarrow> Inl (ErrorString msg)
      | Inr p \<Rightarrow> Inr (query p))"



section \<open>The placeholder ordinals of a statement\<close>

text \<open>The ordinals of the columns bound to a placeholder, in column order, and
  the ordinal of a key bound to a placeholder.\<close>

definition phOrds :: "Column list \<Rightarrow> int list" where
  "phOrds cols = map col_Ordinal (filter (\<lambda>c. col_Value c = None) cols)"

definition keyOrds :: "Key \<Rightarrow> int list" where
  "keyOrds key = (if key_Value key = None then [key_Ordinal key] else [])"

section \<open>The tail of a select, step by step\<close>

text \<open>
  The states that \<open>parseSelectWhereClause\<close> passes through: the state at the
  first token of the tail with white space no longer ignored, and the state
  after copying a token and moving to the next. The tail \<open>matches\<close> when the
  four tokens are \<open>where\<close>, an identifier that unquotes to \<open>id\<close>, \<open>=\<close>, a
  literal or a placeholder, and the end of the input follows; \<open>tailKey\<close> is
  the key that the fourth token stands for.
\<close>

definition tailStart :: "parser \<Rightarrow> parser" where
  "tailStart p = p\<lparr>lexer := (lexer p)\<lparr>IgnoreWhiteSpace := False\<rparr>\<rparr>"

definition tailStep :: "parser \<Rightarrow> parser" where
  "tailStep p = p_next (copyText p)"

definition tailKey :: "(string \<Rightarrow> string) \<Rightarrow> parser \<Rightarrow> Key" where
  "tailKey unquote p3 =
     (if p_token p3 = TokenLiteral
      then \<lparr>key_Ordinal = 0, key_Value = Some (unquote (p_text p3))\<rparr>
      else \<lparr>key_Ordinal = placeholderIndex p3, key_Value = None\<rparr>)"

definition tailMatches :: "(string \<Rightarrow> string) \<Rightarrow> parser \<Rightarrow> bool" where
  "tailMatches unquote p =
     (let p0 = tailStart p; p1 = tailStep p0; p2 = tailStep p1; p3 = tailStep p2; p4 = tailStep p3
      in ToLower (p_text p0) = ''where''
         \<and> p_token p1 = TokenIdent \<and> unquote (p_text p1) = ''id''
         \<and> p_text p2 = ''=''
         \<and> (p_token p3 = TokenLiteral \<or> p_token p3 = TokenPlaceholder)
         \<and> p_token p4 = TokenEOF)"

section \<open>Properties of delete, insert and update\<close>

lemma putDeleteColumns_put_length:
  "putDeleteColumns L cols args putInput deleteInput = Inr (p, d) \<Longrightarrow>
   length (put_Attributes putInput) \<le> length (put_Attributes p)"
proof (induction cols arbitrary: putInput deleteInput)
  case Nil
  then show ?case by simp
next
  case (Cons col cols)
  from Cons.prems show ?case
    by (auto simp: addPut_def addType_def addDelete_def
        split: sum.splits dvalue.splits if_splits
        dest!: Cons.IH)
qed

lemma putDeleteColumns_expected:
  "putDeleteColumns L cols args putInput deleteInput = Inr (p, d) \<Longrightarrow>
   put_Expected p = put_Expected putInput \<and> dai_Expected d = dai_Expected deleteInput
   \<and> put_ItemName p = put_ItemName putInput \<and> put_DomainName p = put_DomainName putInput
   \<and> dai_ItemName d = dai_ItemName deleteInput \<and> dai_DomainName d = dai_DomainName deleteInput"
proof (induction cols arbitrary: putInput deleteInput)
  case Nil
  then show ?case by simp
next
  case (Cons col cols)
  from Cons.prems show ?case
    by (auto simp: addPut_def addType_def addDelete_def
        split: sum.splits dvalue.splits if_splits
        dest!: Cons.IH)
qed

lemma newPutDeleteInputs_fields:
  assumes "newPutDeleteInputs L c tableName columns key args = Inr (p, d)"
  shows "put_Attributes p \<noteq> []"
    and "put_Expected p = None" and "dai_Expected d = None"
    and "\<exists>itemName. KeyString key args = Inr itemName
           \<and> put_ItemName p = Some itemName \<and> dai_ItemName d = Some itemName"
    and "put_DomainName p = Some (getDomainName c tableName)"
    and "dai_DomainName d = Some (getDomainName c tableName)"
  using assms
  by (auto simp: newPutDeleteInputs_def addPut_def split: sum.splits
      dest: putDeleteColumns_put_length putDeleteColumns_expected)

text \<open>Concrete collaborators for the examples: a connection with no schema and no
  synonyms, a store that accepts every request, and one that answers every
  request with a given error.\<close>

definition plainConn :: conn where
  "plainConn = \<lparr>Schema = [], Synonyms = Map.empty\<rparr>"

definition acceptingStore :: SimpleDBAPI where
  "acceptingStore = \<lparr>PutAttributes = (\<lambda>r. None), DeleteAttributes = (\<lambda>r. None)\<rparr>"

definition failingStore :: "error \<Rightarrow> SimpleDBAPI" where
  "failingStore e = \<lparr>PutAttributes = (\<lambda>r. Some e), DeleteAttributes = (\<lambda>r. Some e)\<rparr>"

definition noLib :: "(unit, unit) stdlib" where
  "noLib = \<lparr>FormatFloat = (\<lambda>f. []), ParseFloat = (\<lambda>s. ()), FloatZero = (),
            FormatTime = (\<lambda>t. []), ParseTime = (\<lambda>s. ()),
            EncodeToString = (\<lambda>b. []), DecodeString = (\<lambda>s. [])\<rparr>"

text \<open>
  C10. A delete statement whose store operation completes without error reports
  a rows-affected count of exactly 0, whatever the store held: every result of
  \<open>deleteRow\<close> has count 0, and \<open>deleteRow\<close> returns a result whenever the key
  resolves and the store's \<open>DeleteAttributes\<close> reports no error.
\<close>

theorem deleteRow_rows_affected_zero:
  "(\<forall>r. deleteRow sdb c q args = Inr r \<longrightarrow> rowsAffected r = 0) \<and>
   (\<forall>itemName.
      KeyString (del_Key q) args = Inr itemName \<and>
      DeleteAttributes sdb
        \<lparr>dai_DomainName = Some (getDomainName c (del_TableName q)),
         dai_ItemName = Some itemName, dai_Attributes = [], dai_Expected = None\<rparr> = None
      \<longrightarrow> deleteRow sdb c q args = Inr \<lparr>rowsAffected = 0\<rparr>)"
  by (auto simp: deleteRow_def newResult_def split: sum.splits option.splits)

theorem deleteRow_rows_affected_zero_witness:
  "KeyString \<lparr>key_Ordinal = 0, key_Value = None\<rparr> [VString ''ID1'' :: (unit, unit) dvalue]
     = Inr ''ID1'' \<and>
   deleteRow acceptingStore plainConn
     \<lparr>del_TableName = ''tbl'', del_Key = \<lparr>key_Ordinal = 0, key_Value = None\<rparr>\<rparr>
     [VString ''ID1'' :: (unit, unit) dvalue] = Inr \<lparr>rowsAffected = 0\<rparr>"
proof -
  have k: "KeyString \<lparr>key_Ordinal = 0, key_Value = None\<rparr> [VString ''ID1'' :: (unit, unit) dvalue]
             = Inr ''ID1''"
    by (simp add: KeyString_def)
  have s: "DeleteAttributes acceptingStore r = None" for r
    by (simp add: acceptingStore_def)
  from deleteRow_rows_affected_zero
         [of acceptingStore plainConn
             "\<lparr>del_TableName = ''tbl'', del_Key = \<lparr>key_Ordinal = 0, key_Value = None\<rparr>\<rparr>"
             "[VString ''ID1'' :: (unit, unit) dvalue]"]
  have "deleteRow acceptingStore plainConn
     \<lparr>del_TableName = ''tbl'', del_Key = \<lparr>key_Ordinal = 0, key_Value = None\<rparr>\<rparr>
     [VString ''ID1'' :: (unit, unit) dvalue] = Inr \<lparr>rowsAffected = 0\<rparr>"
    using k s by simp
  with k show ?thesis by simp
qed

text \<open>
  C3. The put request of an insert carries the precondition that \<open>sql:id\<close> does
  not exist. When the store answers with the code \<open>ConditionalCheckFailed\<close> the
  driver returns a duplicate-key error whose message names the domain and the
  item and whose \<open>DuplicateKey()\<close> is true; when the store reports no error the
  result is one affected row; any other store error is returned wrapped with the
  item name.
\<close>

theorem insertRow_outcomes:
  assumes "insertPutInput L c q args = Inr putInput"
  shows "put_Expected putInput
           = Some \<lparr>uc_Exists = Some False, uc_Name = Some ''sql:id'', uc_Value = None\<rparr> \<and>
         (\<exists>itemName. KeyString (ins_Key q) args = Inr itemName \<and>
           put_ItemName putInput = Some itemName \<and>
           put_DomainName putInput = Some (getDomainName c (ins_TableName q)) \<and>
           (\<forall>err. PutAttributes sdb putInput = Some err \<and> hasCode err conditionalCheckFailed \<longrightarrow>
              insertRow L sdb c q args
                = Inl (DuplicateKeyError
                        (''cannot insert duplicate key table='' @ Quote (getDomainName c (ins_TableName q))
                           @ '' itemName='' @ Quote itemName)) \<and>
              (\<exists>e. insertRow L sdb c q args = Inl e \<and> DuplicateKey e = Some True)) \<and>
           (\<forall>err. PutAttributes sdb putInput = Some err \<and> \<not> hasCode err conditionalCheckFailed \<longrightarrow>
              insertRow L sdb c q args
                = Inl (Wrapped err ''cannot put attributes'' [(''itemName'', itemName)]) \<and>
              DuplicateKey (Wrapped err ''cannot put attributes'' [(''itemName'', itemName)]) = None) \<and>
           (PutAttributes sdb putInput = None \<longrightarrow>
              insertRow L sdb c q args = Inr \<lparr>rowsAffected = 1\<rparr>))"
proof -
  from assms obtain p d where
    n: "newPutDeleteInputs L c (ins_TableName q) (ins_Columns q) (ins_Key q) args = Inr (p, d)"
    and pi: "putInput = p\<lparr>put_Expected :=
                 Some \<lparr>uc_Exists = Some False, uc_Name = Some ''sql:id'', uc_Value = None\<rparr>\<rparr>"
    by (auto simp: insertPutInput_def split: sum.splits)
  from newPutDeleteInputs_fields(4) [OF n] obtain itemName where
    k: "KeyString (ins_Key q) args = Inr itemName" and i: "put_ItemName p = Some itemName"
    by blast
  from newPutDeleteInputs_fields(5) [OF n]
  have dn: "put_DomainName p = Some (getDomainName c (ins_TableName q))" .
  have "KeyString (ins_Key q) args = Inr itemName \<and>
           put_ItemName putInput = Some itemName \<and>
           put_DomainName putInput = Some (getDomainName c (ins_TableName q)) \<and>
           (\<forall>err. PutAttributes sdb putInput = Some err \<and> hasCode err conditionalCheckFailed \<longrightarrow>
              insertRow L sdb c q args
                = Inl (DuplicateKeyError
                        (''cannot insert duplicate key table='' @ Quote (getDomainName c (ins_TableName q))
                           @ '' itemName='' @ Quote itemName)) \<and>
              (\<exists>e. insertRow L sdb c q args = Inl e \<and> DuplicateKey e = Some True)) \<and>
           (\<forall>err. PutAttributes sdb putInput = Some err \<and> \<not> hasCode err conditionalCheckFailed \<longrightarrow>
              insertRow L sdb c q args
                = Inl (Wrapped err ''cannot put attributes'' [(''itemName'', itemName)]) \<and>
              DuplicateKey (Wrapped err ''cannot put attributes'' [(''itemName'', itemName)]) = None) \<and>
           (PutAttributes sdb putInput = None \<longrightarrow>
              insertRow L sdb c q args = Inr \<lparr>rowsAffected = 1\<rparr>)"
    using k i dn assms pi
    by (simp add: insertRow_def derefString_def newResult_def)
  with pi show ?thesis by auto
qed

text \<open>The second insert of \<open>TestDuplicateInsert\<close>: the store answers
  \<open>ConditionalCheckFailed\<close>.\<close>

definition insertID1 :: InsertQuery where
  "insertID1 =
     \<lparr>ins_TableName = ''temp_test_table1'',
      ins_Columns = [\<lparr>ColumnName = ''a'', col_Ordinal = 1, col_Value = None\<rparr>,
                     \<lparr>ColumnName = ''b'', col_Ordinal = 2, col_Value = None\<rparr>],
      ins_Key = \<lparr>key_Ordinal = 0, key_Value = None\<rparr>\<rparr>"

lemma insertID1_putInput:
  "insertPutInput noLib plainConn insertID1 [VString ''ID1'', VString ''aaa'', VString ''bbb'']
     = Inr \<lparr>put_DomainName = Some ''temp_test_table1'', put_ItemName = Some ''ID1'',
            put_Attributes =
              [\<lparr>ra_Name = ''sql:id'', ra_Replace = True, ra_Value = ''string''\<rparr>,
               \<lparr>ra_Name = ''sql:a'', ra_Replace = True, ra_Value = ''string''\<rparr>,
               \<lparr>ra_Name = ''a'', ra_Replace = True, ra_Value = ''aaa''\<rparr>,
               \<lparr>ra_Name = ''sql:b'', ra_Replace = True, ra_Value = ''string''\<rparr>,
               \<lparr>ra_Name = ''b'', ra_Replace = True, ra_Value = ''bbb''\<rparr>],
            put_Expected =
              Some \<lparr>uc_Exists = Some False, uc_Name = Some ''sql:id'', uc_Value = None\<rparr>\<rparr>"
  by (simp add: insertPutInput_def insertID1_def newPutDeleteInputs_def KeyString_def
      GetValue_def addPut_def addType_def addDelete_def typeColumnName_def getDomainName_def
      plainConn_def)

theorem insertRow_outcomes_witness:
  "insertRow noLib (failingStore (AwsError ''ConditionalCheckFailed'' ''Conditional check failed''))
     plainConn insertID1 [VString ''ID1'', VString ''aaa'', VString ''bbb'']
   = Inl (DuplicateKeyError
            (''cannot insert duplicate key table='' @ Quote ''temp_test_table1''
               @ '' itemName='' @ Quote ''ID1'')) \<and>
   insertRow noLib acceptingStore plainConn insertID1
     [VString ''ID1'', VString ''aaa'', VString ''bbb''] = Inr \<lparr>rowsAffected = 1\<rparr>"
proof -
  have k: "KeyString (ins_Key insertID1)
             [VString ''ID1'', VString ''aaa'', VString ''bbb'' :: (unit, unit) dvalue] = Inr ''ID1''"
    by (simp add: KeyString_def insertID1_def)
  have t: "getDomainName plainConn (ins_TableName insertID1) = ''temp_test_table1''"
    by (simp add: getDomainName_def plainConn_def insertID1_def)
  have c: "hasCode (AwsError ''ConditionalCheckFailed'' ''Conditional check failed'')
             conditionalCheckFailed"
    by (simp add: conditionalCheckFailed_def)
  note w1 = insertRow_outcomes [OF insertID1_putInput,
      of "failingStore (AwsError ''ConditionalCheckFailed'' ''Conditional check failed'')"]
  note w2 = insertRow_outcomes [OF insertID1_putInput, of acceptingStore]
  from w1 k t c have
    "insertRow noLib (failingStore (AwsError ''ConditionalCheckFailed'' ''Conditional check failed''))
       plainConn insertID1 [VString ''ID1'', VString ''aaa'', VString ''bbb'']
     = Inl (DuplicateKeyError
            (''cannot insert duplicate key table='' @ Quote ''temp_test_table1''
               @ '' itemName='' @ Quote ''ID1''))"
    by (simp add: failingStore_def)
  moreover from w2 have
    "insertRow noLib acceptingStore plainConn insertID1
       [VString ''ID1'', VString ''aaa'', VString ''bbb''] = Inr \<lparr>rowsAffected = 1\<rparr>"
    by (simp add: acceptingStore_def)
  ultimately show ?thesis by simp
qed

lemma updateInputs_fields:
  assumes "updateInputs L c q args = Inr (putInput, deleteInput)"
  shows "put_Attributes putInput \<noteq> []"
    and "\<exists>itemName. KeyString (upd_Key q) args = Inr itemName
           \<and> put_ItemName putInput = Some itemName \<and> dai_ItemName deleteInput = Some itemName"
proof -
  from assms obtain p d where
    n: "newPutDeleteInputs L c (upd_TableName q) (upd_Columns q) (upd_Key q) args = Inr (p, d)"
    and a: "put_Attributes putInput = put_Attributes p"
    and i: "put_ItemName putInput = put_ItemName p" "dai_ItemName deleteInput = dai_ItemName d"
    by (auto simp: updateInputs_def Let_def split: sum.splits if_splits)
  from newPutDeleteInputs_fields(1) [OF n] a show "put_Attributes putInput \<noteq> []"
    by simp
  from newPutDeleteInputs_fields(4) [OF n] i
  show "\<exists>itemName. KeyString (upd_Key q) args = Inr itemName
           \<and> put_ItemName putInput = Some itemName \<and> dai_ItemName deleteInput = Some itemName"
    by simp
qed

text \<open>
  C2. In an executed update, a ``does not exist'' answer
  (\<open>AttributeDoesNotExist\<close>) from the put or the delete branch is not an error:
  when no branch fails otherwise, the row count is 1 if the put or the delete
  completed without error and 0 if every branch that ran got that answer. Any
  other failure of a branch is returned as the call's error, wrapped, and no
  row count is reported. The put branch always runs; the delete branch runs
  when it has attributes.
\<close>

theorem updateRow_row_count:
  assumes "updateInputs L c q args = Inr (putInput, deleteInput)"
  shows "(let pr = PutAttributes sdb putInput;
              dr = DeleteAttributes sdb deleteInput;
              delRuns = (dai_Attributes deleteInput \<noteq> [])
          in ((\<forall>e. pr = Some e \<longrightarrow> hasCode e attributeDoesNotExist) \<and>
              (delRuns \<longrightarrow> (\<forall>e. dr = Some e \<longrightarrow> hasCode e attributeDoesNotExist))
              \<longrightarrow> updateRow L sdb putFirst c q args
                    = Inr \<lparr>rowsAffected = (if pr = None \<or> (delRuns \<and> dr = None) then 1 else 0)\<rparr>) \<and>
             ((\<exists>e. pr = Some e \<and> \<not> hasCode e attributeDoesNotExist) \<or>
              (delRuns \<and> (\<exists>e. dr = Some e \<and> \<not> hasCode e attributeDoesNotExist))
              \<longrightarrow> (\<exists>e itemName. \<not> hasCode e attributeDoesNotExist \<and>
                     KeyString (upd_Key q) args = Inr itemName \<and>
                     ((pr = Some e \<and> updateRow L sdb putFirst c q args
                         = Inl (Wrapped e ''cannot put attributes'' [(''itemName'', itemName)])) \<or>
                      (delRuns \<and> dr = Some e \<and> updateRow L sdb putFirst c q args
                         = Inl (Wrapped e ''cannot delete attributes'' [(''itemName'', itemName)]))))))"
proof -
  from updateInputs_fields [OF assms] obtain itemName where
    ne: "put_Attributes putInput \<noteq> []"
    and k: "KeyString (upd_Key q) args = Inr itemName"
    and pn: "put_ItemName putInput = Some itemName"
    and dn: "dai_ItemName deleteInput = Some itemName"
    by blast
  show ?thesis
  proof (cases "dai_Attributes deleteInput = []")
    case True
    with assms ne k pn dn show ?thesis
      by (cases "PutAttributes sdb putInput")
        (auto simp: updateRow_def putBranch_def groupWait_def newResult_def derefString_def Let_def)
  next
    case False
    with assms ne k pn dn show ?thesis
      by (cases "PutAttributes sdb putInput"; cases "DeleteAttributes sdb deleteInput"; cases putFirst)
        (auto simp: updateRow_def putBranch_def deleteBranch_def groupWait_def newResult_def
          derefString_def Let_def)
  qed
qed

text \<open>The updates of \<open>TestUpdateRowCount\<close> that set column \<open>a\<close> to the empty
  string: a put of the type tag and a delete of the value, both conditional.\<close>

definition updateBlankA :: UpdateQuery where
  "updateBlankA =
     \<lparr>upd_TableName = ''temp_test_table1'',
      upd_Columns = [\<lparr>ColumnName = ''a'', col_Ordinal = 0, col_Value = Some []\<rparr>],
      upd_Key = \<lparr>key_Ordinal = 0, key_Value = None\<rparr>,
      upd_Upsert = False\<rparr>"

definition mustExist :: "UpdateCondition option" where
  "mustExist = Some \<lparr>uc_Exists = Some True, uc_Name = Some ''sql:id'', uc_Value = Some ''string''\<rparr>"

lemma updateBlankA_inputs:
  "updateInputs noLib plainConn updateBlankA [VString ''ID2'']
     = Inr (\<lparr>put_DomainName = Some ''temp_test_table1'', put_ItemName = Some ''ID2'',
             put_Attributes =
               [\<lparr>ra_Name = ''sql:id'', ra_Replace = True, ra_Value = ''string''\<rparr>,
                \<lparr>ra_Name = ''sql:a'', ra_Replace = True, ra_Value = ''string''\<rparr>],
             put_Expected = mustExist\<rparr>,
            \<lparr>dai_DomainName = Some ''temp_test_table1'', dai_ItemName = Some ''ID2'',
             dai_Attributes = [\<lparr>da_Name = ''a''\<rparr>], dai_Expected = mustExist\<rparr>)"
  by (simp add: updateInputs_def updateBlankA_def newPutDeleteInputs_def KeyString_def
      GetValue_def addPut_def addType_def addDelete_def typeColumnName_def getDomainName_def
      plainConn_def mustExist_def Let_def)

theorem updateRow_row_count_witness:
  "updateRow noLib (failingStore (AwsError ''AttributeDoesNotExist'' ''no such attribute''))
     True plainConn updateBlankA [VString ''ID2''] = Inr \<lparr>rowsAffected = 0\<rparr> \<and>
   updateRow noLib acceptingStore True plainConn updateBlankA [VString ''ID2'']
     = Inr \<lparr>rowsAffected = 1\<rparr> \<and>
   updateRow noLib \<lparr>PutAttributes = (\<lambda>r. Some (ClientError ''connection reset'')), DeleteAttributes = (\<lambda>r. None)\<rparr> True plainConn updateBlankA
     [VString ''ID2'']
     = Inl (Wrapped (ClientError ''connection reset'') ''cannot put attributes''
              [(''itemName'', ''ID2'')])"
proof -
  note w = updateRow_row_count [OF updateBlankA_inputs]
  have k: "KeyString (upd_Key updateBlankA) [VString ''ID2'' :: (unit, unit) dvalue] = Inr ''ID2''"
    by (simp add: KeyString_def updateBlankA_def)
  from w [of "failingStore (AwsError ''AttributeDoesNotExist'' ''no such attribute'')" True]
  have "updateRow noLib (failingStore (AwsError ''AttributeDoesNotExist'' ''no such attribute''))
     True plainConn updateBlankA [VString ''ID2''] = Inr \<lparr>rowsAffected = 0\<rparr>"
    by (simp add: failingStore_def attributeDoesNotExist_def Let_def)
  moreover from w [of acceptingStore True]
  have "updateRow noLib acceptingStore True plainConn updateBlankA [VString ''ID2'']
     = Inr \<lparr>rowsAffected = 1\<rparr>"
    by (simp add: acceptingStore_def Let_def)
  moreover from w [of "\<lparr>PutAttributes = (\<lambda>r. Some (ClientError ''connection reset'')), DeleteAttributes = (\<lambda>r. None)\<rparr>" True] k
  have "updateRow noLib \<lparr>PutAttributes = (\<lambda>r. Some (ClientError ''connection reset'')), DeleteAttributes = (\<lambda>r. None)\<rparr> True plainConn updateBlankA
     [VString ''ID2'']
     = Inl (Wrapped (ClientError ''connection reset'') ''cannot put attributes''
              [(''itemName'', ''ID2'')])"
    by (simp add: failingStore_def Let_def)
  ultimately show ?thesis by simp
qed

section \<open>Properties of the select expression\<close>

lemma getArg_stringOf:
  "getArg args k =
     (if k \<ge> length args then Inl (ErrorString ''not enough args for select query'')
      else case stringOf (args ! k) of
             Some s \<Rightarrow> Inr s
           | None \<Rightarrow> Inl (ErrorString ''all args to a select query must be strings''))"
  by (cases "args ! k") (simp_all add: getArg_def)

lemma placeholderOrdinal_Cons:
  "placeholderOrdinal (l # ls) (Suc i) = (if l = ''?'' then 1 else 0) + placeholderOrdinal ls i"
  by (simp add: placeholderOrdinal_def)

lemma placeholderOrdinal_0: "placeholderOrdinal ls 0 = 0"
  by (simp add: placeholderOrdinal_def)

lemma replayed_Cons:
  "replayed args a (l # ls) (Suc i) = replayed args (a + (if l = ''?'' then 1 else 0)) ls i"
  by (simp add: replayed_def placeholderOrdinal_Cons Let_def)

lemma replayLexemes_success:
  "(\<forall>k < placeholderOrdinal ls (length ls).
      a + k < length args \<and> stringOf (args ! (a + k)) \<noteq> None) \<Longrightarrow>
   replayLexemes args ls a sb = Inr (sb @ concat (map (replayed args a ls) [0..<length ls]))"
proof (induction ls arbitrary: a sb)
  case Nil
  then show ?case by simp
next
  case (Cons l ls)
  show ?case
  proof (cases "l = ''?''")
    case True
    from Cons.prems True have h0: "a < length args" "stringOf (args ! a) \<noteq> None"
      using placeholderOrdinal_Cons [of l ls "length ls"] 
      by (auto dest: spec [of _ 0])
    then obtain s where s: "stringOf (args ! a) = Some s" by auto
    have rest: "\<forall>k < placeholderOrdinal ls (length ls).
      Suc a + k < length args \<and> stringOf (args ! (Suc a + k)) \<noteq> None"
    proof (intro allI impI)
      fix k assume "k < placeholderOrdinal ls (length ls)"
      then have "Suc k < placeholderOrdinal (l # ls) (length (l # ls))"
        using True by (simp add: placeholderOrdinal_Cons)
      with Cons.prems show "Suc a + k < length args \<and> stringOf (args ! (Suc a + k)) \<noteq> None"
        by (metis add_Suc_shift)
    qed
    from Cons.IH [OF rest] True h0 s show ?thesis
      by (simp add: getArg_stringOf map_upt_Suc replayed_Cons del: upt_Suc)
        (simp add: replayed_def placeholderOrdinal_0)
  next
    case False
    from Cons.prems False have rest: "\<forall>k < placeholderOrdinal ls (length ls).
      a + k < length args \<and> stringOf (args ! (a + k)) \<noteq> None"
      by (simp add: placeholderOrdinal_Cons)
    from Cons.IH [OF rest] False show ?thesis
      by (simp add: map_upt_Suc replayed_Cons del: upt_Suc)
        (auto simp add: replayed_def placeholderOrdinal_0)
  qed
qed

lemma replayLexemes_failure:
  "k < placeholderOrdinal ls (length ls) \<Longrightarrow>
   a + k \<ge> length args \<or> stringOf (args ! (a + k)) = None \<Longrightarrow>
   (\<forall>j < k. a + j < length args \<and> stringOf (args ! (a + j)) \<noteq> None) \<Longrightarrow>
   replayLexemes args ls a sb =
     Inl (ErrorString (if a + k \<ge> length args then ''not enough args for select query''
                       else ''all args to a select query must be strings''))"
proof (induction ls arbitrary: a sb k)
  case Nil
  then show ?case by (simp add: placeholderOrdinal_def)
next
  case (Cons l ls)
  show ?case
  proof (cases "l = ''?''")
    case False
    with Cons.prems(1) have "k < placeholderOrdinal ls (length ls)"
      by (simp add: placeholderOrdinal_Cons)
    from Cons.IH [OF this Cons.prems(2) Cons.prems(3)] False show ?thesis
      by simp
  next
    case True
    show ?thesis
    proof (cases k)
      case 0
      with Cons.prems(2) True show ?thesis
        by (auto simp: getArg_stringOf)
    next
      case (Suc k')
      with Cons.prems(3) have a: "a < length args" "stringOf (args ! a) \<noteq> None"
        by (auto dest: spec [of _ 0])
      then obtain s where s: "stringOf (args ! a) = Some s" by auto
      from Cons.prems(1) True Suc have 1: "k' < placeholderOrdinal ls (length ls)"
        by (simp add: placeholderOrdinal_Cons)
      from Cons.prems(2) Suc
      have 2: "Suc a + k' \<ge> length args \<or> stringOf (args ! (Suc a + k')) = None"
        by simp
      have 3: "\<forall>j < k'. Suc a + j < length args \<and> stringOf (args ! (Suc a + j)) \<noteq> None"
      proof (intro allI impI)
        fix j assume "j < k'"
        then have "Suc j < k" using Suc by simp
        with Cons.prems(3) show "Suc a + j < length args \<and> stringOf (args ! (Suc a + j)) \<noteq> None"
          by (metis add_Suc_shift)
      qed
      from Cons.IH [OF 1 2 3, of "sb @ quoteString s"] True a s Suc show ?thesis
        by (simp add: getArg_stringOf)
    qed
  qed
qed

text \<open>
  C8 (as amended). For every general-form select the select expression is the
  head (projection and domain) followed by the tail replayed lexeme by lexeme:
  a lexeme that is exactly \<open>id\<close> or \<open>id\<close> in backquotes becomes
  \<open>itemName()\<close>, the k-th placeholder becomes the k-th argument as a
  single-quoted literal with quotes doubled, and every other lexeme is copied.
  This is the result when every placeholder has an argument of string type or
  kind; otherwise the result is the binding error of the first placeholder
  whose argument is missing or is not a string.
\<close>

theorem makeSelectExpression_replay:
  "(let ls = sel_WhereClause q; n = placeholderOrdinal ls (length ls) in
    ((\<forall>k < n. k < length args \<and> stringOf (args ! k) \<noteq> None) \<longrightarrow>
       makeSelectExpression unquote c q args
         = Inr (selectHead unquote c q @ concat (map (replayed args 0 ls) [0..<length ls]))) \<and>
    (\<forall>k < n. (\<forall>j < k. j < length args \<and> stringOf (args ! j) \<noteq> None) \<and>
              (k \<ge> length args \<or> stringOf (args ! k) = None) \<longrightarrow>
       makeSelectExpression unquote c q args
         = Inl (ErrorString (if k \<ge> length args then ''not enough args for select query''
                             else ''all args to a select query must be strings''))))"
proof -
  have ok: "(\<forall>k < placeholderOrdinal (sel_WhereClause q) (length (sel_WhereClause q)).
               k < length args \<and> stringOf (args ! k) \<noteq> None) \<Longrightarrow>
       makeSelectExpression unquote c q args
         = Inr (selectHead unquote c q
                  @ concat (map (replayed args 0 (sel_WhereClause q)) [0..<length (sel_WhereClause q)]))"
    using replayLexemes_success [where ls = "sel_WhereClause q" and a = 0 and args = args]
    by (simp add: makeSelectExpression_def selectHead_def)
  have bad: "k < placeholderOrdinal (sel_WhereClause q) (length (sel_WhereClause q)) \<Longrightarrow>
       (\<forall>j < k. j < length args \<and> stringOf (args ! j) \<noteq> None) \<Longrightarrow>
       k \<ge> length args \<or> stringOf (args ! k) = None \<Longrightarrow>
       makeSelectExpression unquote c q args
         = Inl (ErrorString (if k \<ge> length args then ''not enough args for select query''
                             else ''all args to a select query must be strings''))" for k
    using replayLexemes_failure [where k = k and ls = "sel_WhereClause q" and a = 0 and args = args]
    by (simp add: makeSelectExpression_def)
  from ok bad show ?thesis
    unfolding Let_def by blast
qed

text \<open>The queries of \<open>TestMakeSelectExpression\<close>, and one whose tail names the
  id column in double quotes.\<close>

definition selectTwoArgs :: SelectQuery where
  "selectTwoArgs =
     \<lparr>sel_ConsistentRead = False, sel_ColumnNames = [''a'', ''b'', ''c''], sel_TableName = ''tbl'',
      sel_WhereClause = [''where'', '' '', ''id'', '' '', ''='', '' '', ''?'', '' '', ''and'', '' '',
                         ''d'', '' '', ''<'', '' '', ''?''],
      sel_Key = None\<rparr>"

definition selectQuotedId :: SelectQuery where
  "selectQuotedId =
     \<lparr>sel_ConsistentRead = False, sel_ColumnNames = [''a''], sel_TableName = ''tbl'',
      sel_WhereClause = [''where'', '' '', [CHR 0x22, CHR ''i'', CHR ''d'', CHR 0x22], '' '',
                         ''>'', '' '', ''?''],
      sel_Key = None\<rparr>"

lemma selectTwoArgs_ordinals:
  "placeholderOrdinal (sel_WhereClause selectTwoArgs) (length (sel_WhereClause selectTwoArgs)) = 2"
  by (simp add: placeholderOrdinal_def selectTwoArgs_def)

theorem makeSelectExpression_replay_witness:
  "makeSelectExpression Unquote plainConn selectTwoArgs
     [VString ''X'', VString ''zz'' :: (unit, unit) dvalue]
   = Inr (selectHead Unquote plainConn selectTwoArgs
            @ concat (map (replayed [VString ''X'', VString ''zz'' :: (unit, unit) dvalue] 0
                             (sel_WhereClause selectTwoArgs))
                          [0..<length (sel_WhereClause selectTwoArgs)])) \<and>
   makeSelectExpression Unquote plainConn selectTwoArgs [VString ''X'' :: (unit, unit) dvalue]
   = Inl (ErrorString ''not enough args for select query'') \<and>
   makeSelectExpression Unquote plainConn selectTwoArgs
     [VString ''X'', VInt64 5 :: (unit, unit) dvalue]
   = Inl (ErrorString ''all args to a select query must be strings'')"
proof -
  note w = makeSelectExpression_replay [of selectTwoArgs _ Unquote plainConn, unfolded Let_def]
  have less2: "k < (2::nat) \<longleftrightarrow> k = 0 \<or> k = 1" for k by auto
  from w [of "[VString ''X'', VString ''zz'']"]
  have 1: "makeSelectExpression Unquote plainConn selectTwoArgs
     [VString ''X'', VString ''zz'' :: (unit, unit) dvalue]
   = Inr (selectHead Unquote plainConn selectTwoArgs
            @ concat (map (replayed [VString ''X'', VString ''zz'' :: (unit, unit) dvalue] 0
                             (sel_WhereClause selectTwoArgs))
                          [0..<length (sel_WhereClause selectTwoArgs)]))"
    by (simp add: selectTwoArgs_ordinals less2)
  from w [of "[VString ''X'']", THEN conjunct2, THEN spec [of _ 1]]
  have 2: "makeSelectExpression Unquote plainConn selectTwoArgs [VString ''X'' :: (unit, unit) dvalue]
   = Inl (ErrorString ''not enough args for select query'')"
    by (simp add: selectTwoArgs_ordinals)
  from w [of "[VString ''X'', VInt64 5]", THEN conjunct2, THEN spec [of _ 1]]
  have 3: "makeSelectExpression Unquote plainConn selectTwoArgs
     [VString ''X'', VInt64 5 :: (unit, unit) dvalue]
   = Inl (ErrorString ''all args to a select query must be strings'')"
    by (simp add: selectTwoArgs_ordinals)
  from 1 2 3 show ?thesis by simp
qed

lemma makeSelectExpression_twoArgs:
  "makeSelectExpression Unquote plainConn selectTwoArgs
     [VString ''X'', VString ''zz'' :: (unit, unit) dvalue]
   = Inr (''select `sql:id`, `a`, `sql:a`, `b`, `sql:b`, `c`, `sql:c`''
            @ '' from `tbl` where itemName() = '' @ [CHR 0x27, CHR ''X'', CHR 0x27]
            @ '' and d < '' @ [CHR 0x27, CHR ''z'', CHR ''z'', CHR 0x27])"
  by (simp add: makeSelectExpression_def selectTwoArgs_def selectColumnNames_def IsID_def
      EqualFold_def Unquote_def closingDelimiter_def toLowerRune_def quoteIdentifier_def
      ReplaceRune_def getDomainName_def plainConn_def getArg_def quoteString_def)

text \<open>C8 as stated fails: an id identifier quoted with double quotes (an identifier
  for the scanner, and the id column for \<open>IsID\<close>) is replayed unchanged.\<close>

theorem makeSelectExpression_quoted_id_counterexample:
  "IsID Unquote [CHR 0x22, CHR ''i'', CHR ''d'', CHR 0x22] \<and>
   makeSelectExpression Unquote plainConn selectQuotedId [VString ''X'' :: (unit, unit) dvalue]
   = Inr (''select `sql:id`, `a`, `sql:a` from `tbl` where ''
            @ [CHR 0x22, CHR ''i'', CHR ''d'', CHR 0x22] @ '' > '' @ [CHR 0x27, CHR ''X'', CHR 0x27])"
  by (simp add: makeSelectExpression_def selectQuotedId_def selectColumnNames_def IsID_def
      EqualFold_def Unquote_def closingDelimiter_def toLowerRune_def quoteIdentifier_def
      ReplaceRune_def getDomainName_def plainConn_def getArg_def quoteString_def)

section \<open>Binding with too few arguments\<close>

text \<open>Too few arguments never panic: each of the three resolutions returns an
  error value.\<close>

lemma short_args_no_panic:
  "key_Value key = None \<Longrightarrow> key_Ordinal key \<ge> int (length args) \<Longrightarrow>
     KeyString key args = Inl (ErrorString ''not enough args supplied'')"
  "col_Value col = None \<Longrightarrow> col_Ordinal col \<ge> int (length args) \<Longrightarrow>
     GetValue col args
       = Inl (ErrorString (''internal error: ordinal='' @ FormatInt (col_Ordinal col)
                @ '', value len='' @ FormatInt (int (length args))))"
  "index \<ge> length args \<Longrightarrow>
     getArg args index = Inl (ErrorString ''not enough args for select query'')"
  by (simp_all add: KeyString_def GetValue_def getArg_def)

text \<open>
  C7. With fewer arguments than the highest placeholder ordinal, key resolution
  and the general select answer \<open>not enough args ...\<close>, but column value
  resolution answers \<open>internal error: ordinal=1, value len=1\<close>: here for
  \<open>insert into tbl(id, a) values(?, ?)\<close> bound to the single argument
  \<open>"ID1"\<close>.
\<close>

theorem GetValue_short_args_internal_error:
  "GetValue \<lparr>ColumnName = ''a'', col_Ordinal = 1, col_Value = None\<rparr>
     [VString ''ID1'' :: (unit, unit) dvalue]
     = Inl (ErrorString ''internal error: ordinal=1, value len=1'') \<and>
   insertRow noLib acceptingStore plainConn insertIdA [VString ''ID1'']
     = Inl (ErrorString ''internal error: ordinal=1, value len=1'') \<and>
   KeyString \<lparr>key_Ordinal = 1, key_Value = None\<rparr> [VString ''ID1'' :: (unit, unit) dvalue]
     = Inl (ErrorString ''not enough args supplied'')"
  by (simp add: GetValue_def KeyString_def insertRow_def insertPutInput_def insertIdA_def
      newPutDeleteInputs_def FormatInt_def showNat.simps digitChar_def char_of_def bit_0)

section \<open>Upsert\<close>


section \<open>What each parsing step leaves unchanged\<close>

lemma query_skipLoop [simp]: "query (skipLoop p) = query p"
proof (induction p rule: skipLoop.induct)
  case (1 p)
  show ?case
  proof (cases "p_token p = TokenComment")
    case True
    with "1.IH"(1) show ?thesis by (subst skipLoop.simps) simp
  next
    case False
    note nc = this
    show ?thesis
    proof (cases "p_token p = TokenWhiteSpace")
      case True
      with "1.IH"(2) [OF nc True] nc show ?thesis by (subst skipLoop.simps) simp
    next
      case False
      with nc show ?thesis by (subst skipLoop.simps) simp
    qed
  qed
qed

lemma placeholderIndex_skipLoop [simp]: "placeholderIndex (skipLoop p) = placeholderIndex p"
proof (induction p rule: skipLoop.induct)
  case (1 p)
  show ?case
  proof (cases "p_token p = TokenComment")
    case True
    with "1.IH"(1) show ?thesis by (subst skipLoop.simps) simp
  next
    case False
    note nc = this
    show ?thesis
    proof (cases "p_token p = TokenWhiteSpace")
      case True
      with "1.IH"(2) [OF nc True] nc show ?thesis by (subst skipLoop.simps) simp
    next
      case False
      with nc show ?thesis by (subst skipLoop.simps) simp
    qed
  qed
qed

lemma query_p_next [simp]: "query (p_next p) = query p"
  by (simp add: p_next_def)

lemma placeholderIndex_p_next:
  "placeholderIndex (p_next p)
     = placeholderIndex p + (if p_token p = TokenPlaceholder then 1 else 0)"
  by (simp add: p_next_def)

lemma query_on [simp]:
  "query (onSelect fs p) = (query p)\<lparr>Select := map_option fs (Select (query p))\<rparr>"
  "query (onInsert fi p) = (query p)\<lparr>Insert := map_option fi (Insert (query p))\<rparr>"
  "query (onUpdate fu p) = (query p)\<lparr>Update := map_option fu (Update (query p))\<rparr>"
  "query (onDelete fd p) = (query p)\<lparr>Delete := map_option fd (Delete (query p))\<rparr>"
  "query (copyText p) = query p"
  by (simp_all add: onSelect_def onInsert_def onUpdate_def onDelete_def copyText_def)

lemma placeholderIndex_on [simp]:
  "placeholderIndex (onSelect fs p) = placeholderIndex p"
  "placeholderIndex (onInsert fi p) = placeholderIndex p"
  "placeholderIndex (onUpdate fu p) = placeholderIndex p"
  "placeholderIndex (onDelete fd p) = placeholderIndex p"
  "placeholderIndex (copyText p) = placeholderIndex p"
  by (simp_all add: onSelect_def onInsert_def onUpdate_def onDelete_def copyText_def)

lemma query_copyLoop [simp]: "query (copyLoop p) = query p"
proof (induction p rule: copyLoop.induct)
  case (1 p)
  then show ?case by (subst copyLoop.simps) simp
qed

lemma selectColumnLoop_frame:
  "selectColumnLoop unquote p = Inr p' \<Longrightarrow>
   (query p')\<lparr>Select := None\<rparr> = (query p)\<lparr>Select := None\<rparr>"
proof (induction unquote p rule: selectColumnLoop.induct)
  case (1 unquote p)
  show ?case
  proof (cases "p_text p = '',''")
    case True
    with "1.prems" obtain p1 where
      s: "selectExpectIdent unquote (p_next p) = Inr p1" and l: "selectColumnLoop unquote p1 = Inr p'"
      by (subst (asm) selectColumnLoop.simps) (auto split: sum.splits)
    from s have "(query p1)\<lparr>Select := None\<rparr> = (query p)\<lparr>Select := None\<rparr>"
      by (auto simp: selectExpectIdent_def)
    with "1.IH" [OF True s l] show ?thesis by simp
  next
    case False
    with "1.prems" show ?thesis by (subst (asm) selectColumnLoop.simps) simp
  qed
qed

lemma parseSelect_frame:
  assumes "parseSelect unquote p = Inr p'"
  shows "(query p')\<lparr>Select := None\<rparr> = (query p)\<lparr>Select := None\<rparr>"
proof -
  let ?p0 = "p\<lparr>query := (query p)\<lparr>Select := Some emptySelect\<rparr>\<rparr>"
  from assms obtain p1 p2 p3 where
    1: "(if p_text ?p0 = ''consistent''
         then expectText ''select'' (p_next (onSelect (\<lambda>s. s\<lparr>sel_ConsistentRead := True\<rparr>) ?p0))
         else Inr ?p0) = Inr p1"
    and 2: "parseSelectColumnList unquote (p_next p1) = Inr p2"
    and 3: "parseSelectFromClause unquote p2 = Inr p3"
    and 4: "p' = parseSelectWhereClause unquote p3"
    by (auto simp: parseSelect_def Let_def)
  from 1 have f1: "(query p1)\<lparr>Select := None\<rparr> = (query p)\<lparr>Select := None\<rparr>"
    by (auto split: if_splits)
  from 2 obtain p1' where a: "selectExpectIdent unquote (p_next p1) = Inr p1'"
    and b: "selectColumnLoop unquote p1' = Inr p2"
    by (auto simp: parseSelectColumnList_def)
  from a have "(query p1')\<lparr>Select := None\<rparr> = (query p1)\<lparr>Select := None\<rparr>"
    by (auto simp: selectExpectIdent_def)
  with selectColumnLoop_frame [OF b] f1
  have f2: "(query p2)\<lparr>Select := None\<rparr> = (query p)\<lparr>Select := None\<rparr>" by simp
  from 3 have "(query p3)\<lparr>Select := None\<rparr> = (query p2)\<lparr>Select := None\<rparr>"
    by (auto simp: parseSelectFromClause_def)
  with f2 have f3: "(query p3)\<lparr>Select := None\<rparr> = (query p)\<lparr>Select := None\<rparr>" by simp
  have "(query (parseSelectWhereClause unquote p3))\<lparr>Select := None\<rparr>
          = (query p3)\<lparr>Select := None\<rparr>"
    by (simp add: parseSelectWhereClause_def copyRemaining_def Let_def)
  with f3 4 show ?thesis by simp
qed

lemma updateColumnLoop_frame:
  "updateColumnLoop unquote p = Inr p' \<Longrightarrow>
   (query p')\<lparr>Update := None\<rparr> = (query p)\<lparr>Update := None\<rparr>"
proof (induction unquote p rule: updateColumnLoop.induct)
  case (1 unquote p)
  show ?case
  proof (cases "p_text p = '',''")
    case True
    with "1.prems" obtain p1 where
      s: "parseUpdateColumn unquote (p_next p) = Inr p1" and l: "updateColumnLoop unquote p1 = Inr p'"
      by (subst (asm) updateColumnLoop.simps) (auto split: sum.splits)
    from s have "(query p1)\<lparr>Update := None\<rparr> = (query p)\<lparr>Update := None\<rparr>"
      by (auto simp: parseUpdateColumn_def Let_def)
    with "1.IH" [OF True s l] show ?thesis by simp
  next
    case False
    with "1.prems" show ?thesis by (subst (asm) updateColumnLoop.simps) simp
  qed
qed

lemma parseUpdate_frame:
  assumes "parseUpdate unquote p = Inr p'"
  shows "(query p')\<lparr>Update := None\<rparr> = (query p)\<lparr>Update := None\<rparr>"
proof -
  let ?p0 = "p\<lparr>query := (query p)\<lparr>Update := Some emptyUpdate\<rparr>\<rparr>"
  from assms obtain p1 p2 p3 where
    1: "expectText ''set''
          (p_next (onUpdate (\<lambda>u. u\<lparr>upd_TableName := unquote (p_text (p_next ?p0))\<rparr>) (p_next ?p0)))
          = Inr p1"
    and 2: "parseUpdateColumns unquote (p_next p1) = Inr p2"
    and 3: "parseUpdateWhere unquote p2 = Inr p3"
    and 4: "expectEOF p3 = Inr p'"
    by (auto simp: parseUpdate_def Let_def)
  from 1 have f1: "(query p1)\<lparr>Update := None\<rparr> = (query p)\<lparr>Update := None\<rparr>"
    by auto
  from 2 obtain p1' where a: "parseUpdateColumn unquote (p_next p1) = Inr p1'"
    and b: "updateColumnLoop unquote p1' = Inr p2"
    by (auto simp: parseUpdateColumns_def)
  from a have "(query p1')\<lparr>Update := None\<rparr> = (query p1)\<lparr>Update := None\<rparr>"
    by (auto simp: parseUpdateColumn_def Let_def)
  with updateColumnLoop_frame [OF b] f1
  have f2: "(query p2)\<lparr>Update := None\<rparr> = (query p)\<lparr>Update := None\<rparr>" by simp
  from 3 have "(query p3)\<lparr>Update := None\<rparr> = (query p2)\<lparr>Update := None\<rparr>"
    by (auto simp: parseUpdateWhere_def)
  with f2 4 show ?thesis by auto
qed

lemma parseDelete_frame:
  assumes "parseDelete unquote p = Inr p'"
  shows "(query p')\<lparr>Delete := None\<rparr> = (query p)\<lparr>Delete := None\<rparr>"
  using assms
  by (auto simp: parseDelete_def parseDeleteWhere_def Let_def split: if_splits)

lemma parseCreateTable_frame:
  assumes "parseCreateTable unquote p = Inr p'"
  shows "(query p')\<lparr>CreateTable := None\<rparr> = (query p)\<lparr>CreateTable := None\<rparr>"
  using assms by (auto simp: parseCreateTable_def Let_def)

lemma parseDropTable_frame:
  assumes "parseDropTable unquote p = Inr p'"
  shows "(query p')\<lparr>DropTable := None\<rparr> = (query p)\<lparr>DropTable := None\<rparr>"
  using assms by (auto simp: parseDropTable_def Let_def)
lemma insertColumnLoop_frame:
  "insertColumnLoop unquote columns p = Inr (columns', p') \<Longrightarrow> query p' = query p"
proof (induction unquote columns p rule: insertColumnLoop.induct)
  case (1 unquote columns p)
  show ?case
  proof (cases "p_text p = '',''")
    case True
    with "1.prems" obtain c1 p1 where
      s: "insertExpectIdent unquote columns (p_next p) = Inr (c1, p1)"
      and l: "insertColumnLoop unquote c1 p1 = Inr (columns', p')"
      by (subst (asm) insertColumnLoop.simps) (auto split: sum.splits)
    from s have "query p1 = query p"
      by (auto simp: insertExpectIdent_def split: sum.splits)
    with "1.IH" [OF True s refl l] show ?thesis by simp
  next
    case False
    with "1.prems" show ?thesis by (subst (asm) insertColumnLoop.simps) simp
  qed
qed

lemma insertValueLoop_frame:
  "insertValueLoop unquote i cols done p = Inr (valued, p') \<Longrightarrow> query p' = query p"
proof (induction cols arbitrary: i "done" p)
  case Nil
  then show ?case by simp
next
  case (Cons col cols)
  from Cons.prems obtain p1 p2 where
    1: "(if i > 0 then andThen (expectText '','' p) (\<lambda>p. Inr (p_next p)) else Inr p) = Inr p1"
    and 2: "expect [TokenPlaceholder, TokenLiteral] p1 = Inr p2"
    and 3: "insertValueLoop unquote (i + 1) cols (done @ [columnOfToken unquote col p2]) (p_next p2)
              = Inr (valued, p')"
    by (auto split: sum.splits)
  from 1 have "query p1 = query p" by (auto split: if_splits)
  moreover from 2 have "p2 = p1" by simp
  moreover from Cons.IH [OF 3] have "query p' = query p2" by simp
  ultimately show ?case by simp
qed

text \<open>What the second loop of \<open>parseInsertValueList\<close> computes, by the number of
  id columns in the list.\<close>

lemma stripIdColumn_result:
  "stripIdColumn unquote cols key haveKey columns =
     (let ids = filter (\<lambda>c. IsID unquote (ColumnName c)) cols in
      if (haveKey \<and> length ids \<ge> 1) \<or> length ids \<ge> 2
      then Inl ''duplicate id column in insert statement''
      else Inr (case ids of
                  [] \<Rightarrow> key
                | c # cs \<Rightarrow> \<lparr>key_Ordinal = col_Ordinal c, key_Value = col_Value c\<rparr>,
                haveKey \<or> length ids = 1,
                columns @ filter (\<lambda>c. \<not> IsID unquote (ColumnName c)) cols))"
proof (induction cols arbitrary: key haveKey columns)
  case Nil
  then show ?case by simp
next
  case (Cons col cols)
  show ?case
  proof (cases "IsID unquote (ColumnName col)")
    case True
    then show ?thesis
      by (cases haveKey) (auto simp: Cons.IH Let_def split: list.splits)
  next
    case False
    then show ?thesis
      by (simp add: Cons.IH Let_def)
  qed
qed

lemma parseInsertValueList_result:
  assumes "Insert (query p) = Some ins"
    and "insertValueLoop unquote 0 (ins_Columns ins) [] p = Inr (valued, p')"
  shows "parseInsertValueList unquote p =
     (case filter (\<lambda>c. IsID unquote (ColumnName c)) valued of
        [] \<Rightarrow> Inl ''missing id column in insert statement''
      | [c] \<Rightarrow> Inr (onInsert (\<lambda>i. i\<lparr>ins_Columns := filter (\<lambda>c. \<not> IsID unquote (ColumnName c)) valued,
                                    ins_Key := \<lparr>key_Ordinal = col_Ordinal c, key_Value = col_Value c\<rparr>\<rparr>) p')
      | c # d # cs \<Rightarrow> Inl ''duplicate id column in insert statement'')"
  using assms
  by (simp add: parseInsertValueList_def stripIdColumn_result Let_def split: list.splits)

lemma parseInsertValueList_no_id:
  assumes "parseInsertValueList unquote p = Inr p'" and "Insert (query p) \<noteq> None"
  shows "\<exists>ins. Insert (query p') = Some ins \<and>
           (\<forall>col \<in> set (ins_Columns ins). \<not> IsID unquote (ColumnName col))"
proof -
  from assms(2) obtain ins where i: "Insert (query p) = Some ins" by auto
  with assms(1) obtain valued p1 where
    v: "insertValueLoop unquote 0 (ins_Columns ins) [] p = Inr (valued, p1)"
    by (auto simp: parseInsertValueList_def split: sum.splits)
  from insertValueLoop_frame [OF v] i have i1: "Insert (query p1) = Some ins" by simp
  from parseInsertValueList_result [OF i v] assms(1) i1 show ?thesis
    by (auto split: list.splits)
qed

lemma parseInsert_no_id:
  assumes "parseInsert unquote p = Inr p'"
  shows "(query p')\<lparr>Insert := None\<rparr> = (query p)\<lparr>Insert := None\<rparr> \<and>
         (\<exists>ins. Insert (query p') = Some ins \<and>
           (\<forall>col \<in> set (ins_Columns ins). \<not> IsID unquote (ColumnName col)))"
proof -
  let ?p0 = "p_next (p\<lparr>query := (query p)\<lparr>Insert := Some emptyInsert\<rparr>\<rparr>)"
  let ?p1 = "if EqualFold (p_text ?p0) ''into'' then p_next ?p0 else ?p0"
  from assms obtain p2 p3 p4 p5 where
    2: "expectText ''('' (p_next (onInsert (\<lambda>i. i\<lparr>ins_TableName := unquote (p_text ?p1)\<rparr>) ?p1))
          = Inr p2"
    and 3: "parseInsertColumnList unquote (p_next p2) = Inr p3"
    and 4: "expectText ''('' (p_next (p_next p3)) = Inr p4"
    and 5: "parseInsertValueList unquote (p_next p4) = Inr p5"
    and 6: "expectEOF (p_next p5) = Inr p'"
    by (auto simp: parseInsert_def Let_def)
  have q1: "query ?p1 = (query p)\<lparr>Insert := Some emptyInsert\<rparr>" by simp
  from 2 q1 have q2: "(query p2)\<lparr>Insert := None\<rparr> = (query p)\<lparr>Insert := None\<rparr>"
    and s2: "Insert (query p2) \<noteq> None"
    by auto
  from 3 have q3: "(query p3)\<lparr>Insert := None\<rparr> = (query p2)\<lparr>Insert := None\<rparr>"
    and s3: "Insert (query p2) \<noteq> None \<Longrightarrow> Insert (query p3) \<noteq> None"
    by (auto simp: parseInsertColumnList_def insertExpectIdent_def
        split: sum.splits dest!: insertColumnLoop_frame)
  from 4 have q4: "query p4 = query p3" by auto
  from s2 s3 q4 have s4: "Insert (query (p_next p4)) \<noteq> None" by simp
  from parseInsertValueList_no_id [OF 5 s4] obtain ins where
    i: "Insert (query p5) = Some ins"
    and n: "\<forall>col \<in> set (ins_Columns ins). \<not> IsID unquote (ColumnName col)"
    by blast
  from 5 have q5: "(query p5)\<lparr>Insert := None\<rparr> = (query p4)\<lparr>Insert := None\<rparr>"
    by (auto simp: parseInsertValueList_def split: option.splits sum.splits if_splits
        dest!: insertValueLoop_frame)
  from 6 have q6: "query p' = query p5" by auto
  from q2 q3 q4 q5 q6 i n show ?thesis by simp
qed

lemma dispatch_cases:
  assumes "dispatch unquote p = Inr p'"
  obtains (select) "parseSelect unquote p = Inr p'"
    | (update) "parseUpdate unquote p = Inr p'"
    | (insert) "parseInsert unquote p = Inr p'"
    | (delete) "parseDelete unquote p = Inr p'"
    | (create) "parseCreateTable unquote p = Inr p'"
    | (drop) "parseDropTable unquote p = Inr p'"
  using assms by (auto simp: dispatch_def Let_def split: if_splits)

lemma Parse_dispatch:
  assumes "Parse unquote src = Inr q"
  obtains p' where "dispatch unquote (p_next (newParser src)) = Inr p'" and "q = query p'"
  using assms by (auto simp: Parse_def split: sum.splits)

lemma query_newParser [simp]: "query (newParser src) = emptyQuery"
  by (simp add: newParser_def)

lemma Parse_Insert:
  assumes "Parse unquote src = Inr q" and "Insert q = Some ins"
  shows "\<exists>p'. parseInsert unquote (p_next (newParser src)) = Inr p' \<and> query p' = q"
proof -
  let ?p = "p_next (newParser src)"
  from assms(1) obtain p' where d: "dispatch unquote ?p = Inr p'" and q: "q = query p'"
    by (rule Parse_dispatch)
  from d show ?thesis
  proof (cases rule: dispatch_cases)
    case select
    from parseSelect_frame [OF select, THEN arg_cong [where f = Insert]] assms(2) q
    show ?thesis by (simp add: emptyQuery_def)
  next
    case update
    from parseUpdate_frame [OF update, THEN arg_cong [where f = Insert]] assms(2) q
    show ?thesis by (simp add: emptyQuery_def)
  next
    case insert
    with q show ?thesis by simp
  next
    case delete
    from parseDelete_frame [OF delete, THEN arg_cong [where f = Insert]] assms(2) q
    show ?thesis by (simp add: emptyQuery_def)
  next
    case create
    from parseCreateTable_frame [OF create, THEN arg_cong [where f = Insert]] assms(2) q
    show ?thesis by (simp add: emptyQuery_def)
  next
    case drop
    from parseDropTable_frame [OF drop, THEN arg_cong [where f = Insert]] assms(2) q
    show ?thesis by (simp add: emptyQuery_def)
  qed
qed

section \<open>The id column of an insert\<close>

text \<open>
  C5. An insert statement that parses has no id column in its column list: the
  one id column of the parsed list has been moved into the key. In
  \<open>parseInsertValueList\<close>, once every column has its value source, the
  outcome depends on the number of id columns only: none is the panic
  \<open>missing id column in insert statement\<close>, two or more the panic
  \<open>duplicate id column in insert statement\<close>, and exactly one gives the key
  from that column and the list of the other columns, in order.
\<close>

theorem insert_id_column:
  "(\<forall>q ins. Parse unquote src = Inr q \<and> Insert q = Some ins \<longrightarrow>
      (\<forall>col \<in> set (ins_Columns ins). \<not> IsID unquote (ColumnName col))) \<and>
   (\<forall>ins valued p'.
      Insert (query p) = Some ins \<and>
      insertValueLoop unquote 0 (ins_Columns ins) [] p = Inr (valued, p') \<longrightarrow>
      parseInsertValueList unquote p =
        (case filter (\<lambda>c. IsID unquote (ColumnName c)) valued of
           [] \<Rightarrow> Inl ''missing id column in insert statement''
         | [c] \<Rightarrow> Inr (onInsert (\<lambda>i. i\<lparr>ins_Columns :=
                                        filter (\<lambda>c. \<not> IsID unquote (ColumnName c)) valued,
                                      ins_Key := \<lparr>key_Ordinal = col_Ordinal c,
                                                  key_Value = col_Value c\<rparr>\<rparr>) p')
         | c # d # cs \<Rightarrow> Inl ''duplicate id column in insert statement''))"
proof (intro conjI allI impI)
  fix q ins
  assume a: "Parse unquote src = Inr q \<and> Insert q = Some ins"
  then obtain p' where "parseInsert unquote (p_next (newParser src)) = Inr p'" "query p' = q"
    using Parse_Insert by blast
  with parseInsert_no_id [of unquote "p_next (newParser src)" p'] a
  show "\<forall>col \<in> set (ins_Columns ins). \<not> IsID unquote (ColumnName col)"
    by auto
next
  fix ins valued p'
  assume "Insert (query p) = Some ins \<and>
      insertValueLoop unquote 0 (ins_Columns ins) [] p = Inr (valued, p')"
  then show "parseInsertValueList unquote p =
        (case filter (\<lambda>c. IsID unquote (ColumnName c)) valued of
           [] \<Rightarrow> Inl ''missing id column in insert statement''
         | [c] \<Rightarrow> Inr (onInsert (\<lambda>i. i\<lparr>ins_Columns :=
                                        filter (\<lambda>c. \<not> IsID unquote (ColumnName c)) valued,
                                      ins_Key := \<lparr>key_Ordinal = col_Ordinal c,
                                                  key_Value = col_Value c\<rparr>\<rparr>) p')
         | c # d # cs \<Rightarrow> Inl ''duplicate id column in insert statement'')"
    using parseInsertValueList_result by blast
qed

lemma Parse_insert_examples:
  "Parse Unquote ''insert into tbl(id, a, b) values(?,?,?)''
     = Inr (emptyQuery\<lparr>Insert := Some
              \<lparr>ins_TableName = ''tbl'',
               ins_Columns = [\<lparr>ColumnName = ''a'', col_Ordinal = 1, col_Value = None\<rparr>,
                              \<lparr>ColumnName = ''b'', col_Ordinal = 2, col_Value = None\<rparr>],
               ins_Key = \<lparr>key_Ordinal = 0, key_Value = None\<rparr>\<rparr>\<rparr>)"
  "Parse Unquote ''insert into tbl(a, b) values(?, ?)''
     = Inl (ErrorString ''missing id column in insert statement'')"
  "Parse Unquote ''insert into tbl(id, a, b, id) values(?,?,?,?)''
     = Inl (ErrorString ''duplicate id column in insert statement'')"
  by code_simp+

theorem insert_id_column_witness:
  "Parse Unquote ''insert into tbl(id, a, b) values(?,?,?)''
     = Inr (emptyQuery\<lparr>Insert := Some
              \<lparr>ins_TableName = ''tbl'',
               ins_Columns = [\<lparr>ColumnName = ''a'', col_Ordinal = 1, col_Value = None\<rparr>,
                              \<lparr>ColumnName = ''b'', col_Ordinal = 2, col_Value = None\<rparr>],
               ins_Key = \<lparr>key_Ordinal = 0, key_Value = None\<rparr>\<rparr>\<rparr>) \<and>
   \<not> IsID Unquote ''a'' \<and> \<not> IsID Unquote ''b'' \<and>
   Parse Unquote ''insert into tbl(a, b) values(?, ?)''
     = Inl (ErrorString ''missing id column in insert statement'') \<and>
   Parse Unquote ''insert into tbl(id, a, b, id) values(?,?,?,?)''
     = Inl (ErrorString ''duplicate id column in insert statement'')"
proof -
  from insert_id_column [of Unquote "''insert into tbl(id, a, b) values(?,?,?)''", THEN conjunct1]
    Parse_insert_examples(1)
  have "\<not> IsID Unquote ''a'' \<and> \<not> IsID Unquote ''b''"
    by (simp add: emptyQuery_def)
  with Parse_insert_examples show ?thesis by simp
qed

section \<open>Statements that start with upsert\<close>










lemma Parse_plain_update:
  "Parse Unquote ''update temp_test_table1 set a = ? where id = ?''
     = Inr (emptyQuery\<lparr>Update := Some
              \<lparr>upd_TableName = ''temp_test_table1'',
               upd_Columns = [\<lparr>ColumnName = ''a'', col_Ordinal = 0, col_Value = None\<rparr>],
               upd_Key = \<lparr>key_Ordinal = 1, key_Value = None\<rparr>,
               upd_Upsert = False\<rparr>\<rparr>)"
  by code_simp


section \<open>Placeholder tokens and the placeholder index\<close>

text \<open>Only the rune \<open>?\<close> is scanned as a placeholder, and the end of the input has
  the empty text.\<close>

lemma scanDelimitedIdentifier_token:
  "fst (scanDelimitedIdentifier e buf inp) = TokenIllegal
   \<or> fst (scanDelimitedIdentifier e buf inp) = TokenIdent"
  by (induction e buf inp rule: scanDelimitedIdentifier.induct) (auto split: list.splits)

lemma scanQuote_token:
  "fst (scanQuote e buf inp) = TokenIllegal \<or> fst (scanQuote e buf inp) = TokenLiteral"
  by (induction e buf inp rule: scanQuote.induct) (auto split: list.splits)

lemma scanIdentifier_token:
  "fst (scanIdentifier ch inp) = TokenKeyword \<or> fst (scanIdentifier ch inp) = TokenIdent"
  by (simp add: scanIdentifier_def case_prod_beta)

lemma scanNumber_token: "fst (scanNumber ch inp) = TokenLiteral"
  by (simp add: scanNumber_def case_prod_beta)

lemma scanToken_placeholder:
  "fst (scanToken ch rest) = TokenPlaceholder \<longleftrightarrow> ch = CHR ''?''"
proof -
  have d: "fst (scanDelimitedIdentifier e b i) \<noteq> TokenPlaceholder" for e b i
    using scanDelimitedIdentifier_token [of e b i] by auto
  have q: "fst (scanQuote e b i) \<noteq> TokenPlaceholder" for e b i
    using scanQuote_token [of e b i] by auto
  have i: "fst (scanIdentifier e i) \<noteq> TokenPlaceholder" for e i
    using scanIdentifier_token [of e i] by auto
  have w: "\<not> isWhitespace (CHR ''?'')" "\<not> isStartIdent (CHR ''?'')" "\<not> isDigit (CHR ''?'')"
    by (simp_all add: isWhitespace_def isStartIdent_def isLetter_def isDigit_def)
  show ?thesis
    unfolding scanToken_def
    by (simp add: case_prod_beta d q i w scanNumber_token split: list.split)
qed

lemma scanToken_placeholder_text:
  "fst (scanToken (CHR ''?'') rest) = TokenPlaceholder \<and> fst (snd (scanToken (CHR ''?'') rest)) = ''?''"
  by (simp add: scanToken_def isWhitespace_def isStartIdent_def isLetter_def isDigit_def)

lemma Scan_placeholder: "token (Scan s) = TokenPlaceholder \<Longrightarrow> lexeme (Scan s) = ''?''"
proof (cases "scanInput s")
  case Nil
  assume "token (Scan s) = TokenPlaceholder"
  with Nil show ?thesis by (simp add: Scan_at_end setToken_def)
next
  case (Cons ch rest)
  note inp = this
  assume a: "token (Scan s) = TokenPlaceholder"
  show ?thesis
  proof (cases "ch = eof")
    case True
    with inp a show ?thesis by (simp add: Scan_at_nul setToken_def)
  next
    case False
    obtain tok lx rest' where t: "scanToken ch rest = (tok, lx, rest')"
      by (cases "scanToken ch rest") auto
    from a have "tok = TokenPlaceholder"
      by (simp add: Scan_at_token [OF inp False t] setToken_def)
    with t scanToken_placeholder [of ch rest] have "ch = CHR ''?''" by simp
    with t scanToken_placeholder_text [of rest] have "lx = ''?''" by simp
    then show ?thesis
      by (simp add: Scan_at_token [OF inp False t] setToken_def)
  qed
qed

text \<open>A parser state whose token, if it is a placeholder, has the text \<open>?\<close>:
  every state that \<open>next\<close> returns.\<close>

definition tokenOK :: "parser \<Rightarrow> bool" where
  "tokenOK p = (p_token p = TokenPlaceholder \<longrightarrow> p_text p = ''?'')"

lemma tokenOK_lexerScan [simp]: "tokenOK (lexerScan p)"
  by (simp add: tokenOK_def lexerScan_def p_token_def p_text_def Scan_placeholder)

lemma tokenOK_skipLoop: "tokenOK p \<Longrightarrow> tokenOK (skipLoop p)"
proof (induction p rule: skipLoop.induct)
  case (1 p)
  show ?case
  proof (cases "p_token p = TokenComment")
    case True
    with "1.IH"(1) show ?thesis by (subst skipLoop.simps) simp
  next
    case False
    note nc = this
    show ?thesis
    proof (cases "p_token p = TokenWhiteSpace")
      case True
      with "1.IH"(2) [OF nc True] nc show ?thesis by (subst skipLoop.simps) simp
    next
      case False
      with nc "1.prems" show ?thesis by (subst skipLoop.simps) simp
    qed
  qed
qed

lemma tokenOK_p_next [simp]: "tokenOK (p_next p)"
  by (simp add: p_next_def tokenOK_skipLoop)

lemma tokenOK_on [simp]:
  "tokenOK (onSelect fs p) = tokenOK p"
  "tokenOK (onInsert fi p) = tokenOK p"
  "tokenOK (onUpdate fu p) = tokenOK p"
  "tokenOK (onDelete fd p) = tokenOK p"
  "tokenOK (copyText p) = tokenOK p"
  "tokenOK (p\<lparr>query := q\<rparr>) = tokenOK p"
  by (simp_all add: tokenOK_def)

lemma EqualFold_question:
  "\<not> EqualFold ''?'' ''=''" "\<not> EqualFold ''?'' ''(''" "\<not> EqualFold ''?'' '')''"
  "\<not> EqualFold ''?'' ''set''" "\<not> EqualFold ''?'' ''where''" "\<not> EqualFold ''?'' ''id''"
  "\<not> EqualFold ''?'' ''values''" "\<not> EqualFold ''?'' ''from''" "\<not> EqualFold ''?'' ''select''"
  "\<not> EqualFold ''?'' ''into''" "\<not> EqualFold ''?'' ''table''" "\<not> EqualFold ''?'' '',''"
  by (simp_all add: EqualFold_def toLowerRune_def)

text \<open>\<open>next\<close> leaves the placeholder index as it is when the token it leaves
  behind is not a placeholder.\<close>

lemma index_p_next_text:
  "tokenOK p \<Longrightarrow> p_text p \<noteq> ''?'' \<Longrightarrow> placeholderIndex (p_next p) = placeholderIndex p"
  by (auto simp: placeholderIndex_p_next tokenOK_def)

lemma index_p_next_fold:
  "tokenOK p \<Longrightarrow> EqualFold (p_text p) t \<Longrightarrow> \<not> EqualFold ''?'' t \<Longrightarrow>
   placeholderIndex (p_next p) = placeholderIndex p"
  by (auto simp: placeholderIndex_p_next tokenOK_def)

lemma index_p_next_token:
  "p_token p \<noteq> TokenPlaceholder \<Longrightarrow> placeholderIndex (p_next p) = placeholderIndex p"
  by (simp add: placeholderIndex_p_next)

lemma dispatch_first_text: "dispatch unquote p = Inr p' \<Longrightarrow> p_text p \<noteq> ''?''"
  by (auto simp: dispatch_def Let_def ToLower_def toLowerRune_def split: if_splits)

lemma index_first [simp]: "placeholderIndex (p_next (newParser src)) = 0"
  by (simp add: placeholderIndex_p_next newParser_def p_token_def New_def)

subsection \<open>Update\<close>

definition updateInv :: "parser \<Rightarrow> bool" where
  "updateInv p =
     (tokenOK p \<and>
      (\<exists>u n. Update (query p) = Some u \<and> phOrds (upd_Columns u) = map int [0..<n]
             \<and> placeholderIndex p = int n))"

lemma phOrds_snoc:
  "phOrds (cols @ [col]) = phOrds cols @ (if col_Value col = None then [col_Ordinal col] else [])"
  by (simp add: phOrds_def)

lemma parseUpdateColumn_inv:
  assumes "parseUpdateColumn unquote p = Inr p'"
    and "Update (query p) = Some u" and "phOrds (upd_Columns u) = map int [0..<n]"
    and "placeholderIndex p = int n"
  shows "updateInv p'"
proof -
  let ?col = "\<lparr>ColumnName = unquote (p_text p), col_Ordinal = 0, col_Value = None\<rparr>"
  let ?p1 = "p_next p"
  let ?p2 = "p_next ?p1"
  from assms(1) have t0: "p_token p = TokenIdent"
    and t1: "EqualFold (p_text ?p1) ''=''"
    and t2: "p_token ?p2 = TokenPlaceholder \<or> p_token ?p2 = TokenLiteral"
    and p': "p' = p_next (onUpdate (\<lambda>u. u\<lparr>upd_Columns :=
                                upd_Columns u @ [columnOfToken unquote ?col ?p2]\<rparr>) ?p2)"
    by (auto simp: parseUpdateColumn_def Let_def)
  from t0 assms(4) have i1: "placeholderIndex ?p1 = int n"
    by (simp add: index_p_next_token)
  from t1 i1 have i2: "placeholderIndex ?p2 = int n"
    by (simp add: index_p_next_fold [where t = "''=''"] EqualFold_question)
  show ?thesis
  proof (cases "p_token ?p2 = TokenPlaceholder")
    case True
    with assms(2,3) i2 p' show ?thesis
      by (auto simp: updateInv_def phOrds_snoc columnOfToken_def placeholderIndex_p_next
          intro!: exI [of _ "Suc n"])
  next
    case False
    with assms(2,3) i2 p' show ?thesis
      by (auto simp: updateInv_def phOrds_snoc columnOfToken_def placeholderIndex_p_next
          intro!: exI [of _ n])
  qed
qed

lemma updateColumnLoop_inv:
  "updateColumnLoop unquote p = Inr p' \<Longrightarrow> updateInv p \<Longrightarrow> updateInv p'"
proof (induction unquote p rule: updateColumnLoop.induct)
  case (1 unquote p)
  show ?case
  proof (cases "p_text p = '',''")
    case True
    with "1.prems"(1) obtain p1 where
      s: "parseUpdateColumn unquote (p_next p) = Inr p1" and l: "updateColumnLoop unquote p1 = Inr p'"
      by (subst (asm) updateColumnLoop.simps) (auto split: sum.splits)
    from "1.prems"(2) obtain u n where
      u: "Update (query p) = Some u" "phOrds (upd_Columns u) = map int [0..<n]"
         "placeholderIndex p = int n" and ok: "tokenOK p"
      by (auto simp: updateInv_def)
    from ok True u(3) have "placeholderIndex (p_next p) = int n"
      by (simp add: index_p_next_text)
    with parseUpdateColumn_inv [OF s, of u n] u have "updateInv p1" by simp
    with "1.IH" [OF True s l] show ?thesis by simp
  next
    case False
    with "1.prems" show ?thesis by (subst (asm) updateColumnLoop.simps) simp
  qed
qed

lemma parseUpdateWhere_ords:
  assumes "parseUpdateWhere unquote p = Inr p'" and "updateInv p"
  shows "\<exists>u. Update (query p') = Some u \<and>
           phOrds (upd_Columns u) @ keyOrds (upd_Key u)
             = map int [0..<length (phOrds (upd_Columns u) @ keyOrds (upd_Key u))]"
proof -
  let ?p1 = "p_next p"
  let ?p2 = "p_next ?p1"
  let ?p3 = "p_next ?p2"
  from assms(1) have t0: "EqualFold (p_text p) ''where''"
    and t1: "EqualFold (p_text ?p1) ''id''"
    and t2: "EqualFold (p_text ?p2) ''=''"
    and p': "p' = p_next (onUpdate (\<lambda>u. u\<lparr>upd_Key := keyOfToken unquote ?p3\<rparr>) ?p3)"
    by (auto simp: parseUpdateWhere_def)
  from assms(2) obtain u n where
    u: "Update (query p) = Some u" "phOrds (upd_Columns u) = map int [0..<n]"
       "placeholderIndex p = int n" and ok: "tokenOK p"
    by (auto simp: updateInv_def)
  from t0 ok u(3) have "placeholderIndex ?p1 = int n"
    by (simp add: index_p_next_fold [where t = "''where''"] EqualFold_question)
  with t1 have "placeholderIndex ?p2 = int n"
    by (simp add: index_p_next_fold [where t = "''id''"] EqualFold_question)
  with t2 have i3: "placeholderIndex ?p3 = int n"
    by (simp add: index_p_next_fold [where t = "''=''"] EqualFold_question)
  from u(1) p' have q: "Update (query p') = Some (u\<lparr>upd_Key := keyOfToken unquote ?p3\<rparr>)"
    by simp
  from u(2) i3 have "phOrds (upd_Columns u) @ keyOrds (keyOfToken unquote ?p3)
             = map int [0..<length (phOrds (upd_Columns u) @ keyOrds (keyOfToken unquote ?p3))]"
    by (simp add: keyOrds_def keyOfToken_def)
  with q show ?thesis by simp
qed

lemma parseUpdate_ords:
  assumes "parseUpdate unquote p = Inr p'"
    and "tokenOK p" and "p_text p \<noteq> ''?''" and "placeholderIndex p = 0"
  shows "\<exists>u. Update (query p') = Some u \<and>
           phOrds (upd_Columns u) @ keyOrds (upd_Key u)
             = map int [0..<length (phOrds (upd_Columns u) @ keyOrds (upd_Key u))]"
proof -
  let ?p0 = "p\<lparr>query := (query p)\<lparr>Update := Some emptyUpdate\<rparr>\<rparr>"
  let ?p1 = "p_next ?p0"
  let ?p2 = "p_next (onUpdate (\<lambda>u. u\<lparr>upd_TableName := unquote (p_text ?p1)\<rparr>) ?p1)"
  from assms(1) obtain p3 p4 where
    t1: "p_token ?p1 = TokenIdent"
    and t2: "EqualFold (p_text ?p2) ''set''"
    and 2: "parseUpdateColumns unquote (p_next ?p2) = Inr p3"
    and 3: "parseUpdateWhere unquote p3 = Inr p4"
    and 4: "expectEOF p4 = Inr p'"
    by (auto simp: parseUpdate_def Let_def)
  from assms(2,3,4) have "placeholderIndex ?p1 = 0"
    by (simp add: placeholderIndex_p_next tokenOK_def)
  with t1 have "placeholderIndex ?p2 = 0"
    by (simp add: placeholderIndex_p_next)
  with t2 have i3: "placeholderIndex (p_next ?p2) = int 0"
    by (simp add: index_p_next_fold [where t = "''set''"] EqualFold_question)
  have q3: "Update (query (p_next ?p2))
              = Some (emptyUpdate\<lparr>upd_TableName := unquote (p_text ?p1)\<rparr>)"
    by simp
  from 2 obtain p2' where a: "parseUpdateColumn unquote (p_next ?p2) = Inr p2'"
    and b: "updateColumnLoop unquote p2' = Inr p3"
    by (auto simp: parseUpdateColumns_def)
  have "phOrds (upd_Columns (emptyUpdate\<lparr>upd_TableName := unquote (p_text ?p1)\<rparr>))
          = map int [0..<0]"
    by (simp add: phOrds_def emptyUpdate_def)
  from parseUpdateColumn_inv [OF a q3 this i3] have "updateInv p2'" .
  from updateColumnLoop_inv [OF b this] have "updateInv p3" .
  from parseUpdateWhere_ords [OF 3 this] 4 show ?thesis by auto
qed

subsection \<open>Delete\<close>

lemma andThen_expect:
  "andThen (expect toks p) f
     = (if p_token p \<in> set toks then f p else Inl (''unexpected '' @ Quote (p_text p)))"
  "andThen (expectText txt p) f
     = (if EqualFold (p_text p) txt then f p
        else Inl (''expected '' @ Quote txt @ '', found '' @ Quote (p_text p)))"
  by (simp_all add: expect_def expectText_def)

lemma parseDeleteWhere_ords:
  assumes "parseDeleteWhere unquote p = Inr p'"
    and "tokenOK p" and "placeholderIndex p = 0" and "Delete (query p) = Some d"
  shows "\<exists>d. Delete (query p') = Some d \<and>
           (key_Value (del_Key d) = None \<longrightarrow> key_Ordinal (del_Key d) = 0)"
proof -
  define p1 where "p1 = p_next p"
  define p2 where "p2 = p_next p1"
  define p3 where "p3 = p_next p2"
  have eq: "parseDeleteWhere unquote p =
     andThen (expectText ''where'' p) (\<lambda>_.
     andThen (expectText ''id'' p1) (\<lambda>_.
     andThen (expectText ''='' p2) (\<lambda>_.
     andThen (expect [TokenPlaceholder, TokenLiteral] p3) (\<lambda>_.
       Inr (p_next (onDelete (\<lambda>d. d\<lparr>del_Key := keyOfToken unquote p3\<rparr>) p3))))))"
    unfolding parseDeleteWhere_def p1_def p2_def p3_def andThen_expect by simp
  from assms(1) have t0: "EqualFold (p_text p) ''where''"
    and t1: "EqualFold (p_text p1) ''id''"
    and t2: "EqualFold (p_text p2) ''=''"
    and p': "p' = p_next (onDelete (\<lambda>d. d\<lparr>del_Key := keyOfToken unquote p3\<rparr>) p3)"
    unfolding eq by (simp_all add: andThen_expect split: if_splits)
  have ok: "tokenOK p1" "tokenOK p2" by (simp_all add: p1_def p2_def)
  from t0 assms(2,3) have "placeholderIndex p1 = 0"
    unfolding p1_def by (simp add: index_p_next_fold [where t = "''where''"] EqualFold_question)
  with t1 ok have "placeholderIndex p2 = 0"
    unfolding p2_def by (simp add: index_p_next_fold [where t = "''id''"] EqualFold_question)
  with t2 ok have i3: "placeholderIndex p3 = 0"
    unfolding p3_def by (simp add: index_p_next_fold [where t = "''=''"] EqualFold_question)
  have "query p3 = query p" by (simp add: p1_def p2_def p3_def)
  with assms(4) p' have "Delete (query p') = Some (d\<lparr>del_Key := keyOfToken unquote p3\<rparr>)"
    by simp
  moreover from i3 have "key_Value (keyOfToken unquote p3) = None \<longrightarrow>
                         key_Ordinal (keyOfToken unquote p3) = 0"
    by (simp add: keyOfToken_def)
  ultimately show ?thesis by simp
qed

lemma parseDelete_ords:
  assumes "parseDelete unquote p = Inr p'"
    and "tokenOK p" and "p_text p \<noteq> ''?''" and "placeholderIndex p = 0"
  shows "\<exists>d. Delete (query p') = Some d \<and>
           (key_Value (del_Key d) = None \<longrightarrow> key_Ordinal (del_Key d) = 0)"
proof -
  define p0 where "p0 = p_next (p\<lparr>query := (query p)\<lparr>Delete := Some emptyDelete\<rparr>\<rparr>)"
  define p1 where "p1 = (if ToLower (p_text p0) = ''from'' then p_next p0 else p0)"
  define p2 where "p2 = p_next (onDelete (\<lambda>d. d\<lparr>del_TableName := unquote (p_text p1)\<rparr>) p1)"
  have eq: "parseDelete unquote p =
      andThen (expect [TokenIdent] p1) (\<lambda>_. andThen (parseDeleteWhere unquote p2) expectEOF)"
    unfolding parseDelete_def Let_def p0_def p1_def p2_def andThen_expect by simp
  from assms(1) obtain p3 where t1: "p_token p1 = TokenIdent"
    and w: "parseDeleteWhere unquote p2 = Inr p3" and e: "expectEOF p3 = Inr p'"
    unfolding eq by (auto simp: andThen_expect split: if_splits)
  from assms(2,3,4) have i0: "placeholderIndex p0 = 0"
    by (simp add: p0_def placeholderIndex_p_next tokenOK_def)
  have ok0: "tokenOK p0" by (simp add: p0_def)
  have q0: "Delete (query p0) = Some emptyDelete" by (simp add: p0_def)
  have i1: "placeholderIndex p1 = 0 \<and> Delete (query p1) = Some emptyDelete"
  proof (cases "ToLower (p_text p0) = ''from''")
    case True
    then have "p_text p0 \<noteq> ''?''" by (auto simp: ToLower_def toLowerRune_def)
    with ok0 i0 True q0 show ?thesis by (simp add: p1_def index_p_next_text)
  next
    case False
    with i0 q0 show ?thesis by (simp add: p1_def)
  qed
  with t1 have i2: "placeholderIndex p2 = 0" by (simp add: p2_def placeholderIndex_p_next)
  have ok2: "tokenOK p2" by (simp add: p2_def)
  from i1 have q2: "Delete (query p2)
                      = Some (emptyDelete\<lparr>del_TableName := unquote (p_text p1)\<rparr>)"
    by (simp add: p2_def)
  from parseDeleteWhere_ords [OF w ok2 i2 q2] e show ?thesis by auto
qed
subsection \<open>Select by key\<close>

lemma parseSelectWhereClause_steps:
  "parseSelectWhereClause unquote p =
     (if ToLower (p_text (tailStart p)) \<noteq> ''where'' then copyRemaining (tailStart p)
      else if p_token (tailStep (tailStart p)) \<noteq> TokenIdent
              \<or> unquote (p_text (tailStep (tailStart p))) \<noteq> ''id''
      then copyRemaining (tailStep (tailStart p))
      else if p_text (tailStep (tailStep (tailStart p))) \<noteq> ''=''
      then copyRemaining (tailStep (tailStep (tailStart p)))
      else if p_token (tailStep (tailStep (tailStep (tailStart p)))) \<noteq> TokenLiteral
              \<and> p_token (tailStep (tailStep (tailStep (tailStart p)))) \<noteq> TokenPlaceholder
      then copyRemaining (tailStep (tailStep (tailStep (tailStart p))))
      else if p_token (tailStep (tailStep (tailStep (tailStep (tailStart p))))) \<noteq> TokenEOF
      then copyRemaining (tailStep (tailStep (tailStep (tailStep (tailStart p)))))
      else onSelect (\<lambda>s. s\<lparr>sel_Key := Some (tailKey unquote (tailStep (tailStep (tailStep (tailStart p)))))\<rparr>)
             (tailStep (tailStep (tailStep (tailStep (tailStart p))))))"
  unfolding parseSelectWhereClause_def Let_def tailStart_def tailStep_def tailKey_def
  by (rule refl)

lemma parseSelectWhereClause_matched:
  assumes "tailMatches unquote p"
  shows "parseSelectWhereClause unquote p =
           onSelect (\<lambda>s. s\<lparr>sel_Key := Some (tailKey unquote (tailStep (tailStep (tailStep (tailStart p)))))\<rparr>)
             (tailStep (tailStep (tailStep (tailStep (tailStart p)))))"
  using assms unfolding parseSelectWhereClause_steps tailMatches_def Let_def
  by auto

lemma parseSelectWhereClause_unmatched:
  assumes "\<not> tailMatches unquote p"
  shows "\<exists>r. parseSelectWhereClause unquote p = copyRemaining r \<and> query r = query p"
proof -
  have q: "query (tailStart p) = query p" "query (tailStep r) = query r" for r
    by (simp_all add: tailStart_def tailStep_def)
  from assms show ?thesis
    unfolding parseSelectWhereClause_steps tailMatches_def Let_def
    by (auto simp: q)
qed

definition selectInv :: "parser \<Rightarrow> bool" where
  "selectInv p =
     (tokenOK p \<and> placeholderIndex p = 0 \<and>
      (\<exists>s. Select (query p) = Some s \<and> sel_Key s = None \<and> sel_WhereClause s = []))"

lemma selectExpectIdent_inv:
  assumes "selectExpectIdent unquote p = Inr p'" and "selectInv p"
  shows "selectInv p'"
  using assms
  by (auto simp: selectExpectIdent_def selectInv_def placeholderIndex_p_next)

lemma selectColumnLoop_inv:
  "selectColumnLoop unquote p = Inr p' \<Longrightarrow> selectInv p \<Longrightarrow> selectInv p'"
proof (induction unquote p rule: selectColumnLoop.induct)
  case (1 unquote p)
  show ?case
  proof (cases "p_text p = '',''")
    case True
    with "1.prems"(1) obtain p1 where
      s: "selectExpectIdent unquote (p_next p) = Inr p1" and l: "selectColumnLoop unquote p1 = Inr p'"
      by (subst (asm) selectColumnLoop.simps) (auto split: sum.splits)
    from "1.prems"(2) True have "selectInv (p_next p)"
      by (auto simp: selectInv_def index_p_next_text)
    from selectExpectIdent_inv [OF s this] "1.IH" [OF True s l] show ?thesis by simp
  next
    case False
    with "1.prems" show ?thesis by (subst (asm) selectColumnLoop.simps) simp
  qed
qed

lemma copyRemaining_Key:
  "map_option sel_Key (Select (query (copyRemaining p))) = map_option sel_Key (Select (query p))"
  by (simp add: copyRemaining_def Let_def option.map_comp comp_def)

text \<open>A matching tail leaves the placeholder index where it was up to the fourth
  token.\<close>

lemma tailMatches_index:
  assumes "tailMatches unquote p" and "tokenOK p"
  shows "placeholderIndex (tailStep (tailStep (tailStep (tailStart p)))) = placeholderIndex p"
proof -
  define p0 where "p0 = tailStart p"
  define p1 where "p1 = tailStep p0"
  define p2 where "p2 = tailStep p1"
  from assms(1) have w: "ToLower (p_text p0) = ''where''" and t1: "p_token p1 = TokenIdent"
    and t2: "p_text p2 = ''=''"
    unfolding tailMatches_def Let_def p0_def p1_def p2_def by simp_all
  have ok0: "tokenOK p0" using assms(2)
    by (simp add: p0_def tailStart_def tokenOK_def p_token_def p_text_def)
  have i0: "placeholderIndex p0 = placeholderIndex p" by (simp add: p0_def tailStart_def)
  from w have "p_text p0 \<noteq> ''?''" by (auto simp: ToLower_def toLowerRune_def)
  with ok0 i0 have i1: "placeholderIndex p1 = placeholderIndex p"
    by (simp add: p1_def tailStep_def index_p_next_text)
  from t1 i1 have i2: "placeholderIndex p2 = placeholderIndex p"
    by (simp add: p2_def tailStep_def placeholderIndex_p_next)
  have "tokenOK p2" by (simp add: p2_def tailStep_def)
  with t2 i2 have "placeholderIndex (tailStep p2) = placeholderIndex p"
    by (simp add: tailStep_def index_p_next_text)
  then show ?thesis by (simp add: p0_def p1_def p2_def)
qed

lemma parseSelectWhereClause_key:
  assumes "selectInv p" and "Select (query (parseSelectWhereClause unquote p)) = Some s"
    and "sel_Key s = Some k"
  shows "sel_WhereClause s = [] \<and> (key_Value k = None \<longrightarrow> key_Ordinal k = 0)"
proof -
  from assms(1) obtain s0 where s0: "Select (query p) = Some s0" "sel_Key s0 = None"
    "sel_WhereClause s0 = []"
    and i: "placeholderIndex p = 0" and ok: "tokenOK p"
    by (auto simp: selectInv_def)
  have m: "tailMatches unquote p"
  proof (rule ccontr)
    assume "\<not> tailMatches unquote p"
    from parseSelectWhereClause_unmatched [OF this] obtain r where
      r: "parseSelectWhereClause unquote p = copyRemaining r" "query r = query p"
      by blast
    with copyRemaining_Key [of r] s0 assms(2,3) show False by simp
  qed
  define p3 where "p3 = tailStep (tailStep (tailStep (tailStart p)))"
  have q4: "query (tailStep p3) = query p"
    by (simp add: p3_def tailStep_def tailStart_def)
  from parseSelectWhereClause_matched [OF m] s0 assms(2) q4
  have s: "s = s0\<lparr>sel_Key := Some (tailKey unquote p3)\<rparr>"
    by (simp add: p3_def)
  from tailMatches_index [OF m ok] i have "placeholderIndex p3 = 0" by (simp add: p3_def)
  with s assms(3) s0 show ?thesis
    by (auto simp: tailKey_def split: if_splits)
qed

lemma parseSelect_key:
  assumes "parseSelect unquote p = Inr p'"
    and "tokenOK p" and "p_text p \<noteq> ''?''" and "placeholderIndex p = 0"
    and "Select (query p') = Some s" and "sel_Key s = Some k"
  shows "sel_WhereClause s = [] \<and> (key_Value k = None \<longrightarrow> key_Ordinal k = 0)"
proof -
  define p0 where "p0 = p\<lparr>query := (query p)\<lparr>Select := Some emptySelect\<rparr>\<rparr>"
  define pc where "pc = p_next (onSelect (\<lambda>s. s\<lparr>sel_ConsistentRead := True\<rparr>) p0)"
  have eq: "parseSelect unquote p =
      andThen (if p_text p0 = ''consistent'' then expectText ''select'' pc else Inr p0) (\<lambda>p.
      andThen (parseSelectColumnList unquote (p_next p)) (\<lambda>p.
      andThen (parseSelectFromClause unquote p) (\<lambda>p.
        Inr (parseSelectWhereClause unquote p))))"
    unfolding parseSelect_def Let_def p0_def pc_def by (rule refl)
  from assms(1) obtain p1 p2 p3 where
    1: "(if p_text p0 = ''consistent'' then expectText ''select'' pc else Inr p0) = Inr p1"
    and 2: "parseSelectColumnList unquote (p_next p1) = Inr p2"
    and 3: "parseSelectFromClause unquote p2 = Inr p3"
    and 4: "p' = parseSelectWhereClause unquote p3"
    unfolding eq by auto
  have inv0: "selectInv p0" "p_text p0 \<noteq> ''?''"
    using assms(2,3,4) by (simp_all add: p0_def selectInv_def tokenOK_def emptySelect_def)
  have inv1: "selectInv (p_next p1)"
  proof (cases "p_text p0 = ''consistent''")
    case True
    with 1 have e: "p1 = pc" and f: "EqualFold (p_text pc) ''select''"
      by auto
    from inv0 have "selectInv pc"
      unfolding pc_def by (auto simp: selectInv_def index_p_next_text)
    with f e show ?thesis
      by (auto simp: selectInv_def index_p_next_fold [where t = "''select''"] EqualFold_question)
  next
    case False
    with 1 have "p1 = p0" by simp
    with inv0 show ?thesis
      by (auto simp: selectInv_def index_p_next_text)
  qed
  from 2 obtain p1' where a: "selectExpectIdent unquote (p_next p1) = Inr p1'"
    and b: "selectColumnLoop unquote p1' = Inr p2"
    by (auto simp: parseSelectColumnList_def)
  from selectColumnLoop_inv [OF b selectExpectIdent_inv [OF a inv1]] have inv2: "selectInv p2" .
  from 3 have f: "EqualFold (p_text p2) ''from''" and ti: "p_token (p_next p2) = TokenIdent"
    and p3: "p3 = p_next (onSelect (\<lambda>s. s\<lparr>sel_TableName := unquote (p_text (p_next p2))\<rparr>)
                           (p_next p2))"
    by (auto simp: parseSelectFromClause_def)
  from inv2 f have "placeholderIndex (p_next p2) = 0"
    by (simp add: selectInv_def index_p_next_fold [where t = "''from''"] EqualFold_question)
  with ti p3 have "placeholderIndex p3 = 0" by (simp add: placeholderIndex_p_next)
  with inv2 p3 have inv3: "selectInv p3"
    by (auto simp: selectInv_def)
  from parseSelectWhereClause_key [OF inv3 _ assms(6)] 4 assms(5) show ?thesis by simp
qed

subsection \<open>Insert\<close>

lemma insertExpectIdent_index:
  assumes "insertExpectIdent unquote columns p = Inr (columns', p')"
    and "\<forall>c \<in> set columns. col_Value c = None"
  shows "placeholderIndex p' = placeholderIndex p \<and> tokenOK p' \<and> query p' = query p
         \<and> (\<forall>c \<in> set columns'. col_Value c = None)"
  using assms
  by (auto simp: insertExpectIdent_def placeholderIndex_p_next split: sum.splits)

lemma insertColumnLoop_index:
  "insertColumnLoop unquote columns p = Inr (columns', p') \<Longrightarrow> tokenOK p \<Longrightarrow>
   \<forall>c \<in> set columns. col_Value c = None \<Longrightarrow>
   placeholderIndex p' = placeholderIndex p \<and> tokenOK p' \<and> (\<forall>c \<in> set columns'. col_Value c = None)"
proof (induction unquote columns p rule: insertColumnLoop.induct)
  case (1 unquote columns p)
  show ?case
  proof (cases "p_text p = '',''")
    case True
    with "1.prems"(1) obtain c1 p1 where
      s: "insertExpectIdent unquote columns (p_next p) = Inr (c1, p1)"
      and l: "insertColumnLoop unquote c1 p1 = Inr (columns', p')"
      by (subst (asm) insertColumnLoop.simps) (auto split: sum.splits)
    from "1.prems"(2) True have i: "placeholderIndex (p_next p) = placeholderIndex p"
      by (simp add: index_p_next_text)
    from insertExpectIdent_index [OF s "1.prems"(3)] i
    have 1: "placeholderIndex p1 = placeholderIndex p" "tokenOK p1"
      "\<forall>c \<in> set c1. col_Value c = None"
      by simp_all
    from "1.IH" [OF True s refl l 1(2) 1(3)] 1(1) show ?thesis by simp
  next
    case False
    with "1.prems" show ?thesis by (subst (asm) insertColumnLoop.simps) simp
  qed
qed

lemma insertValueLoop_ords:
  "insertValueLoop unquote i cols done p = Inr (valued, p') \<Longrightarrow> tokenOK p \<Longrightarrow>
   \<forall>c \<in> set cols. col_Value c = None \<Longrightarrow>
   phOrds done = map int [0..<n] \<Longrightarrow> placeholderIndex p = int n \<Longrightarrow>
   \<exists>n'. phOrds valued = map int [0..<n']"
proof (induction cols arbitrary: i "done" p n)
  case Nil
  then show ?case by auto
next
  case (Cons col cols)
  define p1 where "p1 = (if i > 0 then p_next p else p)"
  from Cons.prems(1) have c: "i > 0 \<longrightarrow> EqualFold (p_text p) '',''"
    and t: "p_token p1 = TokenPlaceholder \<or> p_token p1 = TokenLiteral"
    and 3: "insertValueLoop unquote (i + 1) cols (done @ [columnOfToken unquote col p1]) (p_next p1)
              = Inr (valued, p')"
    unfolding p1_def by (auto split: sum.splits if_splits)
  from Cons.prems(2,5) c have i1: "placeholderIndex p1 = int n"
    unfolding p1_def
    by (auto simp: index_p_next_fold [where t = "'',''"] EqualFold_question)
  from Cons.prems(3) have v: "col_Value col = None" "\<forall>c \<in> set cols. col_Value c = None"
    by simp_all
  show ?case
  proof (cases "p_token p1 = TokenPlaceholder")
    case True
    with Cons.prems(4) i1 v have "phOrds (done @ [columnOfToken unquote col p1]) = map int [0..<Suc n]"
      by (simp add: phOrds_snoc columnOfToken_def)
    moreover from True i1 have "placeholderIndex (p_next p1) = int (Suc n)"
      by (simp add: placeholderIndex_p_next)
    ultimately show ?thesis
      using Cons.IH [OF 3 _ v(2), of "Suc n"] by simp
  next
    case False
    with Cons.prems(4) have "phOrds (done @ [columnOfToken unquote col p1]) = map int [0..<n]"
      by (simp add: phOrds_snoc columnOfToken_def)
    moreover from False i1 have "placeholderIndex (p_next p1) = int n"
      by (simp add: placeholderIndex_p_next)
    ultimately show ?thesis
      using Cons.IH [OF 3 _ v(2), of n] by simp
  qed
qed

text \<open>Taking one column out of a list whose placeholder ordinals are
  \<open>0, ..., n - 1\<close> leaves ordinals in increasing order, and all of them are still
  there.\<close>

lemma phOrds_filter_sorted:
  assumes "phOrds valued = map int [0..<n]"
  shows "sorted_wrt (<) (phOrds (filter P valued))"
proof -
  have e: "phOrds (filter P valued)
          = map col_Ordinal (filter P (filter (\<lambda>c. col_Value c = None) valued))"
    by (induction valued) (auto simp: phOrds_def)
  have "sorted_wrt (<) (map col_Ordinal (filter (\<lambda>c. col_Value c = None) valued))"
    using assms by (simp add: phOrds_def sorted_wrt_map strict_sorted_iff [symmetric]
        sorted_wrt_iff_nth_less)
  then have "sorted_wrt (\<lambda>a b. col_Ordinal a < col_Ordinal b)
               (filter (\<lambda>c. col_Value c = None) valued)"
    by (simp add: sorted_wrt_map)
  then have "sorted_wrt (\<lambda>a b. col_Ordinal a < col_Ordinal b)
               (filter P (filter (\<lambda>c. col_Value c = None) valued))"
    by (rule sorted_wrt_filter)
  then show ?thesis unfolding e by (simp add: sorted_wrt_map)
qed

lemma phOrds_partition:
  "set (phOrds (filter P valued)) \<union> set (phOrds (filter (\<lambda>c. \<not> P c) valued))
     = set (phOrds valued)"
  "length (phOrds (filter P valued)) + length (phOrds (filter (\<lambda>c. \<not> P c) valued))
     = length (phOrds valued)"
  by (induction valued) (auto simp: phOrds_def)

lemma parseInsertValueList_ords:
  assumes "parseInsertValueList unquote p = Inr p'" and "Insert (query p) = Some ins"
    and "tokenOK p" and "placeholderIndex p = 0"
    and "\<forall>c \<in> set (ins_Columns ins). col_Value c = None"
  shows "\<exists>i. Insert (query p') = Some i \<and>
           sorted_wrt (<) (phOrds (ins_Columns i)) \<and>
           set (keyOrds (ins_Key i) @ phOrds (ins_Columns i))
             = int ` {0..<length (keyOrds (ins_Key i) @ phOrds (ins_Columns i))}"
proof -
  let ?isid = "\<lambda>c. IsID unquote (ColumnName c)"
  from assms(1,2) obtain valued p1 where
    v: "insertValueLoop unquote 0 (ins_Columns ins) [] p = Inr (valued, p1)"
    by (auto simp: parseInsertValueList_def split: sum.splits)
  from insertValueLoop_ords [OF v assms(3,5), of 0] assms(4)
  obtain n where n: "phOrds valued = map int [0..<n]"
    by (auto simp: phOrds_def)
  from insertValueLoop_frame [OF v] assms(2) have i1: "Insert (query p1) = Some ins" by simp
  from parseInsertValueList_result [OF assms(2) v] assms(1) obtain c where
    c: "filter ?isid valued = [c]"
    and p': "p' = onInsert (\<lambda>i. i\<lparr>ins_Columns := filter (\<lambda>c. \<not> ?isid c) valued,
                                   ins_Key := \<lparr>key_Ordinal = col_Ordinal c, key_Value = col_Value c\<rparr>\<rparr>) p1"
    by (auto split: list.splits)
  define i where "i = ins\<lparr>ins_Columns := filter (\<lambda>c. \<not> ?isid c) valued,
                         ins_Key := \<lparr>key_Ordinal = col_Ordinal c, key_Value = col_Value c\<rparr>\<rparr>"
  from p' i1 have q: "Insert (query p') = Some i" by (simp add: i_def)
  have k: "keyOrds (ins_Key i) = phOrds (filter ?isid valued)"
    by (simp add: c i_def keyOrds_def phOrds_def)
  have cols: "ins_Columns i = filter (\<lambda>c. \<not> ?isid c) valued" by (simp add: i_def)
  from phOrds_filter_sorted [OF n] have s: "sorted_wrt (<) (phOrds (ins_Columns i))"
    by (simp add: cols)
  from phOrds_partition [of ?isid valued] n
  have "set (keyOrds (ins_Key i) @ phOrds (ins_Columns i)) = int ` {0..<n}"
    and "length (keyOrds (ins_Key i) @ phOrds (ins_Columns i)) = n"
    by (simp_all add: k cols)
  with q s show ?thesis by auto
qed

lemma parseInsert_ords:
  assumes "parseInsert unquote p = Inr p'"
    and "tokenOK p" and "p_text p \<noteq> ''?''" and "placeholderIndex p = 0"
  shows "\<exists>i. Insert (query p') = Some i \<and>
           sorted_wrt (<) (phOrds (ins_Columns i)) \<and>
           set (keyOrds (ins_Key i) @ phOrds (ins_Columns i))
             = int ` {0..<length (keyOrds (ins_Key i) @ phOrds (ins_Columns i))}"
proof -
  define p0 where "p0 = p_next (p\<lparr>query := (query p)\<lparr>Insert := Some emptyInsert\<rparr>\<rparr>)"
  define p1 where "p1 = (if EqualFold (p_text p0) ''into'' then p_next p0 else p0)"
  define p2 where "p2 = p_next (onInsert (\<lambda>i. i\<lparr>ins_TableName := unquote (p_text p1)\<rparr>) p1)"
  have eq: "parseInsert unquote p =
      andThen (expect [TokenIdent] p1) (\<lambda>_.
      andThen (expectText ''('' p2) (\<lambda>p.
      andThen (parseInsertColumnList unquote (p_next p)) (\<lambda>p.
      andThen (expectText '')'' p) (\<lambda>p.
      andThen (expectText ''values'' (p_next p)) (\<lambda>p.
      andThen (expectText ''('' (p_next p)) (\<lambda>p.
      andThen (parseInsertValueList unquote (p_next p)) (\<lambda>p.
      andThen (expectText '')'' p) (\<lambda>p. expectEOF (p_next p)))))))))"
    unfolding parseInsert_def Let_def p0_def p1_def p2_def andThen_expect by simp
  from assms(1) obtain p3 p5 where t1: "p_token p1 = TokenIdent"
    and t2: "EqualFold (p_text p2) ''(''"
    and 3: "parseInsertColumnList unquote (p_next p2) = Inr p3"
    and t3: "EqualFold (p_text p3) '')''"
    and t4: "EqualFold (p_text (p_next p3)) ''values''"
    and t5: "EqualFold (p_text (p_next (p_next p3))) ''(''"
    and 5: "parseInsertValueList unquote (p_next (p_next (p_next p3))) = Inr p5"
    and 6: "expectEOF (p_next p5) = Inr p'"
    unfolding eq by (auto simp: andThen_expect split: if_splits)
  from assms(2,3,4) have i0: "placeholderIndex p0 = 0"
    by (simp add: p0_def placeholderIndex_p_next tokenOK_def)
  have ok0: "tokenOK p0" by (simp add: p0_def)
  have q0: "Insert (query p0) = Some emptyInsert" by (simp add: p0_def)
  have i1: "placeholderIndex p1 = 0 \<and> Insert (query p1) = Some emptyInsert"
  proof (cases "EqualFold (p_text p0) ''into''")
    case True
    with ok0 i0 q0 show ?thesis
      by (simp add: p1_def index_p_next_fold [where t = "''into''"] EqualFold_question)
  next
    case False
    with i0 q0 show ?thesis by (simp add: p1_def)
  qed
  with t1 have i2: "placeholderIndex p2 = 0" by (simp add: p2_def placeholderIndex_p_next)
  from i1 have q2: "Insert (query p2) = Some (emptyInsert\<lparr>ins_TableName := unquote (p_text p1)\<rparr>)"
    by (simp add: p2_def)
  have ok2: "tokenOK p2" by (simp add: p2_def)
  from t2 i2 ok2 have i2': "placeholderIndex (p_next p2) = 0"
    by (simp add: index_p_next_fold [where t = "''(''"] EqualFold_question)
  from 3 obtain c1 pa c2 pb where
    a: "insertExpectIdent unquote [] (p_next p2) = Inr (c1, pa)"
    and b: "insertColumnLoop unquote c1 pa = Inr (c2, pb)"
    and p3: "p3 = onInsert (\<lambda>i. i\<lparr>ins_Columns := c2\<rparr>) pb"
    by (auto simp: parseInsertColumnList_def split: sum.splits)
  from insertExpectIdent_index [OF a] i2'
  have a': "placeholderIndex pa = 0" "tokenOK pa" "query pa = query p2"
    "\<forall>c \<in> set c1. col_Value c = None"
    by simp_all
  from insertColumnLoop_index [OF b a'(2) a'(4)] a'(1)
  have b': "placeholderIndex pb = 0" "tokenOK pb" "\<forall>c \<in> set c2. col_Value c = None"
    by simp_all
  from insertColumnLoop_frame [OF b] a'(3) q2
  have qb: "Insert (query pb) = Some (emptyInsert\<lparr>ins_TableName := unquote (p_text p1)\<rparr>)"
    by simp
  from p3 b' have i3: "placeholderIndex p3 = 0" "tokenOK p3" by simp_all
  from p3 qb have q3: "Insert (query p3)
      = Some (emptyInsert\<lparr>ins_TableName := unquote (p_text p1), ins_Columns := c2\<rparr>)"
    by simp
  from t3 i3 have "placeholderIndex (p_next p3) = 0"
    by (simp add: index_p_next_fold [where t = "'')''"] EqualFold_question)
  with t4 have "placeholderIndex (p_next (p_next p3)) = 0"
    by (simp add: index_p_next_fold [where t = "''values''"] EqualFold_question)
  with t5 have i4: "placeholderIndex (p_next (p_next (p_next p3))) = 0"
    by (simp add: index_p_next_fold [where t = "''(''"] EqualFold_question)
  from q3 have q4: "Insert (query (p_next (p_next (p_next p3))))
      = Some (emptyInsert\<lparr>ins_TableName := unquote (p_text p1), ins_Columns := c2\<rparr>)"
    by simp
  from parseInsertValueList_ords [OF 5 q4 _ i4] b'(3) 6 show ?thesis by auto
qed

subsection \<open>Every statement\<close>

lemma dispatch_fields:
  assumes "dispatch unquote p = Inr p'" and "query p = emptyQuery"
  shows "(Update (query p') \<noteq> None \<longrightarrow> parseUpdate unquote p = Inr p') \<and>
         (Insert (query p') \<noteq> None \<longrightarrow> parseInsert unquote p = Inr p') \<and>
         (Delete (query p') \<noteq> None \<longrightarrow> parseDelete unquote p = Inr p') \<and>
         (Select (query p') \<noteq> None \<longrightarrow> parseSelect unquote p = Inr p')"
  using assms(1)
proof (cases rule: dispatch_cases)
  case select
  note f = parseSelect_frame [OF select]
  from f [THEN arg_cong [where f = Update]] f [THEN arg_cong [where f = Insert]]
    f [THEN arg_cong [where f = Delete]] assms(2) select
  show ?thesis by (simp add: emptyQuery_def)
next
  case update
  note f = parseUpdate_frame [OF update]
  from f [THEN arg_cong [where f = Select]] f [THEN arg_cong [where f = Insert]]
    f [THEN arg_cong [where f = Delete]] assms(2) update
  show ?thesis by (simp add: emptyQuery_def)
next
  case insert
  note f = parseInsert_no_id [OF insert, THEN conjunct1]
  from f [THEN arg_cong [where f = Select]] f [THEN arg_cong [where f = Update]]
    f [THEN arg_cong [where f = Delete]] assms(2) insert
  show ?thesis by (simp add: emptyQuery_def)
next
  case delete
  note f = parseDelete_frame [OF delete]
  from f [THEN arg_cong [where f = Select]] f [THEN arg_cong [where f = Update]]
    f [THEN arg_cong [where f = Insert]] assms(2) delete
  show ?thesis by (simp add: emptyQuery_def)
next
  case create
  note f = parseCreateTable_frame [OF create]
  from f [THEN arg_cong [where f = Select]] f [THEN arg_cong [where f = Update]]
    f [THEN arg_cong [where f = Insert]] f [THEN arg_cong [where f = Delete]] assms(2)
  show ?thesis by (simp add: emptyQuery_def)
next
  case drop
  note f = parseDropTable_frame [OF drop]
  from f [THEN arg_cong [where f = Select]] f [THEN arg_cong [where f = Update]]
    f [THEN arg_cong [where f = Insert]] f [THEN arg_cong [where f = Delete]] assms(2)
  show ?thesis by (simp add: emptyQuery_def)
qed

lemma keyOrds_zero:
  "(key_Value k = None \<longrightarrow> key_Ordinal k = 0) \<Longrightarrow> keyOrds k = map int [0..<length (keyOrds k)]"
  by (simp add: keyOrds_def)

lemma makeSelectExpression_binding:
  assumes "\<forall>a \<in> set args. stringOf a \<noteq> None"
  shows "makeSelectExpression unquote c s args =
     (if length args < placeholderOrdinal (sel_WhereClause s) (length (sel_WhereClause s))
      then Inl (ErrorString ''not enough args for select query'')
      else Inr (selectHead unquote c s
                  @ concat (map (replayed args 0 (sel_WhereClause s))
                              [0..<length (sel_WhereClause s)])))"
proof (cases "length args < placeholderOrdinal (sel_WhereClause s) (length (sel_WhereClause s))")
  case True
  have "\<forall>j < length args. 0 + j < length args \<and> stringOf (args ! (0 + j)) \<noteq> None"
    using assms by simp
  from replayLexemes_failure [where k = "length args" and ls = "sel_WhereClause s" and a = 0
      and args = args, OF True _ this] True
  show ?thesis by (simp add: makeSelectExpression_def)
next
  case False
  then have "\<forall>k < placeholderOrdinal (sel_WhereClause s) (length (sel_WhereClause s)).
      0 + k < length args \<and> stringOf (args ! (0 + k)) \<noteq> None"
    using assms by auto
  from replayLexemes_success [where ls = "sel_WhereClause s" and a = 0 and args = args, OF this]
    False
  show ?thesis by (simp add: makeSelectExpression_def selectHead_def)
qed

text \<open>
  C6. In every statement that parses, the placeholder ordinals count the
  placeholders from 0 in the order of the text, in one sequence for the whole
  statement: in an update the ordinals of the placeholder columns followed by
  that of a placeholder key are \<open>0, 1, ..., n - 1\<close>; in an insert the ordinals of
  the placeholder columns increase and, with that of a placeholder key, are
  exactly the numbers \<open>0, ..., n - 1\<close>; the placeholder key of a delete or of a
  select by key has ordinal 0. In a general select the placeholder at lexeme
  \<open>i\<close> of the tail is bound to the argument whose index is the number of
  placeholders before it, and fewer (string) arguments than placeholders are
  the error \<open>not enough args for select query\<close>.
\<close>

theorem placeholder_ordinals:
  assumes "Parse unquote src = Inr q"
  shows "(\<forall>u. Update q = Some u \<longrightarrow>
            phOrds (upd_Columns u) @ keyOrds (upd_Key u)
              = map int [0..<length (phOrds (upd_Columns u) @ keyOrds (upd_Key u))]) \<and>
         (\<forall>i. Insert q = Some i \<longrightarrow>
            sorted_wrt (<) (phOrds (ins_Columns i)) \<and>
            set (keyOrds (ins_Key i) @ phOrds (ins_Columns i))
              = int ` {0..<length (keyOrds (ins_Key i) @ phOrds (ins_Columns i))}) \<and>
         (\<forall>d. Delete q = Some d \<longrightarrow>
            keyOrds (del_Key d) = map int [0..<length (keyOrds (del_Key d))]) \<and>
         (\<forall>s k. Select q = Some s \<and> sel_Key s = Some k \<longrightarrow>
            keyOrds k = map int [0..<length (keyOrds k)]) \<and>
         (\<forall>s args. Select q = Some s \<and> (\<forall>a \<in> set args. stringOf a \<noteq> None) \<longrightarrow>
            makeSelectExpression unquote c s args =
              (if length args < placeholderOrdinal (sel_WhereClause s) (length (sel_WhereClause s))
               then Inl (ErrorString ''not enough args for select query'')
               else Inr (selectHead unquote c s
                           @ concat (map (replayed args 0 (sel_WhereClause s))
                                       [0..<length (sel_WhereClause s)]))))"
proof -
  let ?p = "p_next (newParser src)"
  from assms obtain p' where d: "dispatch unquote ?p = Inr p'" and q: "q = query p'"
    by (rule Parse_dispatch)
  have e: "query ?p = emptyQuery" by simp
  note r = dispatch_fields [OF d e]
  note t = dispatch_first_text [OF d]
  have ok: "tokenOK ?p" by simp
  have i: "placeholderIndex ?p = 0" by simp
  have 1: "\<forall>u. Update q = Some u \<longrightarrow>
            phOrds (upd_Columns u) @ keyOrds (upd_Key u)
              = map int [0..<length (phOrds (upd_Columns u) @ keyOrds (upd_Key u))]"
  proof (intro allI impI)
    fix u assume u: "Update q = Some u"
    with r q have "parseUpdate unquote ?p = Inr p'" by simp
    from parseUpdate_ords [OF this ok t i] u q
    show "phOrds (upd_Columns u) @ keyOrds (upd_Key u)
              = map int [0..<length (phOrds (upd_Columns u) @ keyOrds (upd_Key u))]"
      by auto
  qed
  have 2: "\<forall>i. Insert q = Some i \<longrightarrow>
            sorted_wrt (<) (phOrds (ins_Columns i)) \<and>
            set (keyOrds (ins_Key i) @ phOrds (ins_Columns i))
              = int ` {0..<length (keyOrds (ins_Key i) @ phOrds (ins_Columns i))}"
  proof (intro allI impI)
    fix ins assume u: "Insert q = Some ins"
    with r q have "parseInsert unquote ?p = Inr p'" by simp
    from parseInsert_ords [OF this ok t i] u q
    show "sorted_wrt (<) (phOrds (ins_Columns ins)) \<and>
            set (keyOrds (ins_Key ins) @ phOrds (ins_Columns ins))
              = int ` {0..<length (keyOrds (ins_Key ins) @ phOrds (ins_Columns ins))}"
      by auto
  qed
  have 3: "\<forall>d. Delete q = Some d \<longrightarrow>
            keyOrds (del_Key d) = map int [0..<length (keyOrds (del_Key d))]"
  proof (intro allI impI)
    fix dl assume u: "Delete q = Some dl"
    with r q have "parseDelete unquote ?p = Inr p'" by simp
    from parseDelete_ords [OF this ok t i] u q
    have "key_Value (del_Key dl) = None \<longrightarrow> key_Ordinal (del_Key dl) = 0" by auto
    then show "keyOrds (del_Key dl) = map int [0..<length (keyOrds (del_Key dl))]"
      by (rule keyOrds_zero)
  qed
  have 4: "\<forall>s k. Select q = Some s \<and> sel_Key s = Some k \<longrightarrow>
            keyOrds k = map int [0..<length (keyOrds k)]"
  proof (intro allI impI)
    fix s k assume u: "Select q = Some s \<and> sel_Key s = Some k"
    with r q have "parseSelect unquote ?p = Inr p'" by simp
    from parseSelect_key [OF this ok t i, of s k] u q
    have "key_Value k = None \<longrightarrow> key_Ordinal k = 0" by auto
    then show "keyOrds k = map int [0..<length (keyOrds k)]"
      by (rule keyOrds_zero)
  qed
  have 5: "\<forall>s args. Select q = Some s \<and> (\<forall>a \<in> set args. stringOf a \<noteq> None) \<longrightarrow>
            makeSelectExpression unquote c s args =
              (if length args < placeholderOrdinal (sel_WhereClause s) (length (sel_WhereClause s))
               then Inl (ErrorString ''not enough args for select query'')
               else Inr (selectHead unquote c s
                           @ concat (map (replayed args 0 (sel_WhereClause s))
                                       [0..<length (sel_WhereClause s)])))"
    using makeSelectExpression_binding by blast
  from 1 2 3 4 5 show ?thesis by blast
qed

text \<open>The example of the spec, \<open>select a,b,c from t where a=? and b=? and c in (?,?,?)\<close>,
  and the update and the insert of \<open>parse_test.go\<close>.\<close>

definition selectFive :: SelectQuery where
  "selectFive =
     \<lparr>sel_ConsistentRead = False, sel_ColumnNames = [''a'', ''b'', ''c''], sel_TableName = ''t'',
      sel_WhereClause = [''where'', '' '', ''a'', ''='', ''?'', '' '', ''and'', '' '', ''b'', ''='',
                         ''?'', '' '', ''and'', '' '', ''c'', '' '', ''in'', '' '', ''('', ''?'',
                         '','', ''?'', '','', ''?'', '')''],
      sel_Key = None\<rparr>"

lemma Parse_selectFive:
  "Parse Unquote ''select a,b,c from t where a=? and b=? and c in (?,?,?)''
     = Inr (emptyQuery\<lparr>Select := Some selectFive\<rparr>)"
  by code_simp

lemma Parse_update_three:
  "Parse Unquote ''update tbl set a=?, b = ? where id = ?''
     = Inr (emptyQuery\<lparr>Update := Some
              \<lparr>upd_TableName = ''tbl'',
               upd_Columns = [\<lparr>ColumnName = ''a'', col_Ordinal = 0, col_Value = None\<rparr>,
                              \<lparr>ColumnName = ''b'', col_Ordinal = 1, col_Value = None\<rparr>],
               upd_Key = \<lparr>key_Ordinal = 2, key_Value = None\<rparr>,
               upd_Upsert = False\<rparr>\<rparr>)"
  by code_simp

lemma selectFive_count:
  "placeholderOrdinal (sel_WhereClause selectFive) (length (sel_WhereClause selectFive)) = 5"
  by (simp add: placeholderOrdinal_def selectFive_def)

theorem placeholder_ordinals_witness:
  "Parse Unquote ''update tbl set a=?, b = ? where id = ?''
     = Inr (emptyQuery\<lparr>Update := Some
              \<lparr>upd_TableName = ''tbl'',
               upd_Columns = [\<lparr>ColumnName = ''a'', col_Ordinal = 0, col_Value = None\<rparr>,
                              \<lparr>ColumnName = ''b'', col_Ordinal = 1, col_Value = None\<rparr>],
               upd_Key = \<lparr>key_Ordinal = 2, key_Value = None\<rparr>,
               upd_Upsert = False\<rparr>\<rparr>) \<and>
   phOrds [\<lparr>ColumnName = ''a'', col_Ordinal = 0, col_Value = None\<rparr>,
           \<lparr>ColumnName = ''b'', col_Ordinal = 1, col_Value = None\<rparr>]
     @ keyOrds \<lparr>key_Ordinal = 2, key_Value = None\<rparr> = [0, 1, 2] \<and>
   Parse Unquote ''select a,b,c from t where a=? and b=? and c in (?,?,?)''
     = Inr (emptyQuery\<lparr>Select := Some selectFive\<rparr>) \<and>
   makeSelectExpression Unquote plainConn selectFive
     [VString ''1'', VString ''2'', VString ''3'' :: (unit, unit) dvalue]
     = Inl (ErrorString ''not enough args for select query'') \<and>
   makeSelectExpression Unquote plainConn selectFive
     [VString ''1'', VString ''2'', VString ''3'', VString ''4'', VString ''5''
        :: (unit, unit) dvalue]
     = Inr (''select `sql:id`, `a`, `sql:a`, `b`, `sql:b`, `c`, `sql:c` from `t` where a=''
            @ [CHR 0x27, CHR ''1'', CHR 0x27] @ '' and b='' @ [CHR 0x27, CHR ''2'', CHR 0x27]
            @ '' and c in ('' @ [CHR 0x27, CHR ''3'', CHR 0x27] @ '','' @ [CHR 0x27, CHR ''4'', CHR 0x27]
            @ '','' @ [CHR 0x27, CHR ''5'', CHR 0x27] @ '')'')"
proof -
  have 1: "phOrds [\<lparr>ColumnName = ''a'', col_Ordinal = 0, col_Value = None\<rparr>,
                   \<lparr>ColumnName = ''b'', col_Ordinal = 1, col_Value = None\<rparr>]
             @ keyOrds \<lparr>key_Ordinal = 2, key_Value = None\<rparr> = [0, 1, 2]"
    by (simp add: phOrds_def keyOrds_def)
  note s = placeholder_ordinals [OF Parse_selectFive, where c = plainConn,
      THEN conjunct2, THEN conjunct2, THEN conjunct2, THEN conjunct2, THEN spec [of _ selectFive]]
  from s [THEN spec [of _ "[VString ''1'', VString ''2'', VString ''3'' :: (unit, unit) dvalue]"]]
  have 2: "makeSelectExpression Unquote plainConn selectFive
     [VString ''1'', VString ''2'', VString ''3'' :: (unit, unit) dvalue]
     = Inl (ErrorString ''not enough args for select query'')"
    by (simp add: emptyQuery_def selectFive_count)
  from s [THEN spec [of _ "[VString ''1'', VString ''2'', VString ''3'', VString ''4'',
                            VString ''5'' :: (unit, unit) dvalue]"]]
  have "makeSelectExpression Unquote plainConn selectFive
     [VString ''1'', VString ''2'', VString ''3'', VString ''4'', VString ''5''
        :: (unit, unit) dvalue]
     = Inr (selectHead Unquote plainConn selectFive
              @ concat (map (replayed [VString ''1'', VString ''2'', VString ''3'', VString ''4'',
                                       VString ''5'' :: (unit, unit) dvalue] 0
                               (sel_WhereClause selectFive))
                          [0..<length (sel_WhereClause selectFive)]))"
    by (simp add: emptyQuery_def selectFive_count)
  also have "\<dots> = Inr (''select `sql:id`, `a`, `sql:a`, `b`, `sql:b`, `c`, `sql:c` from `t` where a=''
            @ [CHR 0x27, CHR ''1'', CHR 0x27] @ '' and b='' @ [CHR 0x27, CHR ''2'', CHR 0x27]
            @ '' and c in ('' @ [CHR 0x27, CHR ''3'', CHR 0x27] @ '','' @ [CHR 0x27, CHR ''4'', CHR 0x27]
            @ '','' @ [CHR 0x27, CHR ''5'', CHR 0x27] @ '')'')"
    by code_simp
  finally have 3: "makeSelectExpression Unquote plainConn selectFive
     [VString ''1'', VString ''2'', VString ''3'', VString ''4'', VString ''5''
        :: (unit, unit) dvalue]
     = Inr (''select `sql:id`, `a`, `sql:a`, `b`, `sql:b`, `c`, `sql:c` from `t` where a=''
            @ [CHR 0x27, CHR ''1'', CHR 0x27] @ '' and b='' @ [CHR 0x27, CHR ''2'', CHR 0x27]
            @ '' and c in ('' @ [CHR 0x27, CHR ''3'', CHR 0x27] @ '','' @ [CHR 0x27, CHR ''4'', CHR 0x27]
            @ '','' @ [CHR 0x27, CHR ''5'', CHR 0x27] @ '')'')" .
  from 1 2 3 Parse_update_three Parse_selectFive show ?thesis by simp
qed

end
